theory Spec2Isabelle
  imports Complex_Main "HOL-Library.Multiset"
begin

section \<open>The JavaScript values the dashboard computes with\<close>

text \<open>
  The dashboard (src/routes/index.tsx) and the exporters (utils/download) are written
  against the JavaScript built-ins \<open>Date\<close>, \<open>Set\<close>, \<open>Map\<close>, \<open>Array.prototype.sort\<close>,
  \<open>parseInt\<close> and \<open>Math.random\<close>.  This section models those built-ins after the
  ECMAScript specification, as far as the source uses them.  What ECMAScript leaves to
  the implementation (the local time zone, the locale's date format, the parsing of
  date strings that are not in the ISO format) is a parameter, the record \<open>runtime\<close>.
\<close>

subsection \<open>Decimal digits\<close>

definition digit_char :: "nat \<Rightarrow> char" where
  "digit_char n = char_of (48 + n)"

definition digit_val :: "char \<Rightarrow> nat option" where
  "digit_val c = (let n = (of_char c :: nat) in if 48 \<le> n \<and> n \<le> 57 then Some (n - 48) else None)"

fun pad :: "nat \<Rightarrow> nat \<Rightarrow> string" where
  \<comment> \<open>\<open>String(n).padStart(w, "0")\<close> for \<open>n < 10 ^ w\<close>: the last \<open>w\<close> decimal digits of \<open>n\<close>.\<close>
  "pad 0 n = []"
| "pad (Suc w) n = pad w (n div 10) @ [digit_char (n mod 10)]"

fun show_nat :: "nat \<Rightarrow> string" where
  "show_nat n = (if n < 10 then [digit_char n] else show_nat (n div 10) @ [digit_char (n mod 10)])"

declare show_nat.simps [simp del]

definition show_int :: "int \<Rightarrow> string" where
  \<comment> \<open>\<open>String(i)\<close> for an integral number below \<open>10 ^ 21\<close> in magnitude.\<close>
  "show_int i = (if i < 0 then CHR ''-'' # show_nat (nat (- i)) else show_nat (nat i))"

fun digits_acc :: "nat \<Rightarrow> string \<Rightarrow> nat option" where
  "digits_acc a [] = Some a"
| "digits_acc a (c # cs) =
     (case digit_val c of None \<Rightarrow> None | Some v \<Rightarrow> digits_acc (10 * a + v) cs)"

definition parse_digits :: "string \<Rightarrow> nat option" where
  \<comment> \<open>The value of a non-empty string of decimal digits.\<close>
  "parse_digits s = (if s = [] then None else digits_acc 0 s)"

subsection \<open>Time values and the calendar\<close>

text \<open>
  A time value is a number of milliseconds since 1970-01-01T00:00Z, or \<open>NaN\<close> (an
  invalid date).  It is an \<open>int option\<close> here, \<open>None\<close> for \<open>NaN\<close>.  The functions below
  are \<open>Day\<close>, \<open>TimeWithinDay\<close>, \<open>DaysInYear\<close>, \<open>DayFromYear\<close>, \<open>YearFromTime\<close>,
  \<open>MonthFromTime\<close>, \<open>DateFromTime\<close>, \<open>MakeDay\<close>, \<open>MakeDate\<close> and \<open>TimeClip\<close> of
  ECMAScript, the calendar ones taking a day number instead of a time value.
\<close>

definition msPerDay :: int where
  "msPerDay = 86400000"

definition Day :: "int \<Rightarrow> int" where
  "Day t = t div msPerDay"

definition TimeWithinDay :: "int \<Rightarrow> int" where
  "TimeWithinDay t = t mod msPerDay"

definition DaysInYear :: "int \<Rightarrow> int" where
  "DaysInYear y = (if y mod 4 \<noteq> 0 then 365 else if y mod 100 \<noteq> 0 then 366
                   else if y mod 400 \<noteq> 0 then 365 else 366)"

definition InLeapYear :: "int \<Rightarrow> bool" where
  "InLeapYear y \<longleftrightarrow> DaysInYear y = 366"

definition DayFromYear :: "int \<Rightarrow> int" where
  "DayFromYear y =
     365 * (y - 1970) + (y - 1969) div 4 - (y - 1901) div 100 + (y - 1601) div 400"

definition YearFromDay :: "int \<Rightarrow> int" where
  \<comment> \<open>The largest \<open>y\<close> with \<open>DayFromYear y \<le> d\<close>, from an estimate that is off by at most one.\<close>
  "YearFromDay d =
     (let y = 1970 + (400 * d) div 146097
      in if d < DayFromYear y then y - 1
         else if DayFromYear (y + 1) \<le> d then y + 1 else y)"

definition monthStart :: "int \<Rightarrow> bool \<Rightarrow> int" where
  \<comment> \<open>The day within the year on which month \<open>m\<close> (0 for January) starts; 12 is the year's end.\<close>
  "monthStart m leap =
     (if m = 0 then 0 else if m = 1 then 31
      else (if m = 2 then 59 else if m = 3 then 90 else if m = 4 then 120
            else if m = 5 then 151 else if m = 6 then 181 else if m = 7 then 212
            else if m = 8 then 243 else if m = 9 then 273 else if m = 10 then 304
            else if m = 11 then 334 else 365)
           + (if leap then 1 else 0))"

definition DayWithinYear :: "int \<Rightarrow> int" where
  "DayWithinYear d = d - DayFromYear (YearFromDay d)"

definition MonthFromDay :: "int \<Rightarrow> int" where
  "MonthFromDay d =
     (let w = DayWithinYear d; l = (if InLeapYear (YearFromDay d) then 1 else 0)
      in if w < 31 then 0 else if w < 59 + l then 1 else if w < 90 + l then 2
         else if w < 120 + l then 3 else if w < 151 + l then 4 else if w < 181 + l then 5
         else if w < 212 + l then 6 else if w < 243 + l then 7 else if w < 273 + l then 8
         else if w < 304 + l then 9 else if w < 334 + l then 10 else 11)"

definition DateFromDay :: "int \<Rightarrow> int" where
  "DateFromDay d =
     DayWithinYear d - monthStart (MonthFromDay d) (InLeapYear (YearFromDay d)) + 1"

definition MakeDay :: "int \<Rightarrow> int \<Rightarrow> int \<Rightarrow> int" where
  \<comment> \<open>The day number of day \<open>dt\<close> of month \<open>m\<close> (0 for January) of year \<open>y\<close>; a month
      outside 0..11 carries into the year, a day outside the month into the next months.\<close>
  "MakeDay y m dt =
     (let ym = y + m div 12; mn = m mod 12
      in DayFromYear ym + monthStart mn (InLeapYear ym) + dt - 1)"

definition MakeDate :: "int \<Rightarrow> int \<Rightarrow> int" where
  "MakeDate day time = day * msPerDay + time"

definition TimeClip :: "int \<Rightarrow> int option" where
  "TimeClip t = (if \<bar>t\<bar> > 8640000000000000 then None else Some t)"

definition valid_time :: "int option \<Rightarrow> bool" where
  \<comment> \<open>The time values a \<open>Date\<close> object can hold: \<open>NaN\<close> is not one of them.\<close>
  "valid_time tv \<longleftrightarrow> (case tv of None \<Rightarrow> False | Some t \<Rightarrow> \<bar>t\<bar> \<le> 8640000000000000)"

subsection \<open>The date part of \<open>toISOString\<close> and the ISO date format of \<open>Date.parse\<close>\<close>

datatype js_error = RangeError

definition isoYear :: "int \<Rightarrow> string" where
  \<comment> \<open>Four digits for the years 0 to 9999, a sign and six digits otherwise.\<close>
  "isoYear y =
     (if 0 \<le> y \<and> y \<le> 9999 then pad 4 (nat y)
      else (if y < 0 then CHR ''-'' else CHR ''+'') # pad 6 (nat \<bar>y\<bar>))"

definition isoDateString :: "int \<Rightarrow> string" where
  \<comment> \<open>\<open>YYYY-MM-DD\<close> for day number \<open>d\<close>, in UTC.\<close>
  "isoDateString d =
     isoYear (YearFromDay d) @ ''-'' @ pad 2 (nat (MonthFromDay d + 1))
       @ ''-'' @ pad 2 (nat (DateFromDay d))"

definition toISOString_date :: "int option \<Rightarrow> js_error + string" where
  \<comment> \<open>\<open>new Date(x).toISOString().split('T')[0]\<close>: \<open>toISOString\<close> throws a \<open>RangeError\<close> on
      an invalid date; the text before the first \<open>T\<close> is the date.\<close>
  "toISOString_date tv =
     (case tv of None \<Rightarrow> Inl RangeError | Some t \<Rightarrow> Inr (isoDateString (Day t)))"

definition iso_fields :: "bool \<Rightarrow> string \<Rightarrow> string \<Rightarrow> string \<Rightarrow> int option" where
  \<comment> \<open>The day number of a year, month and day given in digits; \<open>None\<close> unless they name
      a day of the calendar (and the year is not \<open>-000000\<close>).\<close>
  "iso_fields neg ys ms ds =
     (case (parse_digits ys, parse_digits ms, parse_digits ds) of
        (Some y, Some m, Some d) \<Rightarrow>
          (let yr = (if neg then - int y else int y)
           in if neg \<and> y = 0 then None
              else if 1 \<le> m \<and> m \<le> 12 \<and> 1 \<le> d
                      \<and> int d \<le> monthStart (int m) (InLeapYear yr)
                                 - monthStart (int m - 1) (InLeapYear yr)
                   then Some (MakeDay yr (int m - 1) (int d))
                   else None)
      | _ \<Rightarrow> None)"

definition parse_iso_date :: "string \<Rightarrow> int option" where
  \<comment> \<open>The date-only forms \<open>YYYY-MM-DD\<close> and \<open>[+-]YYYYYY-MM-DD\<close> of the Date Time String Format.\<close>
  "parse_iso_date s =
     (if length s = 10 \<and> s ! 4 = CHR ''-'' \<and> s ! 7 = CHR ''-''
      then iso_fields False (take 4 s) (take 2 (drop 5 s)) (drop 8 s)
      else if length s = 13 \<and> (s ! 0 = CHR ''+'' \<or> s ! 0 = CHR ''-'')
              \<and> s ! 7 = CHR ''-'' \<and> s ! 10 = CHR ''-''
      then iso_fields (s ! 0 = CHR ''-'') (take 6 (drop 1 s)) (take 2 (drop 8 s)) (drop 11 s)
      else None)"

subsection \<open>What the runtime decides\<close>

text \<open>
  \<open>LocalTZA\<close> is the offset of local time from UTC in milliseconds (a fixed offset: no
  daylight saving).  \<open>localeDate y m d\<close> is the text \<open>toLocaleDateString\<close> prints for the
  local calendar day \<open>d\<close> of month \<open>m\<close> (1 for January) of year \<open>y\<close>.  \<open>legacyParse s\<close> is
  the time value the \<open>Date\<close> constructor gives a string that is not in the ISO format.
\<close>

record runtime =
  LocalTZA :: int
  localeDate :: "int \<Rightarrow> int \<Rightarrow> int \<Rightarrow> string"
  legacyParse :: "string \<Rightarrow> int option"

definition Date_parse :: "runtime \<Rightarrow> string \<Rightarrow> int option" where
  \<comment> \<open>\<open>new Date(s).getTime()\<close> for a string \<open>s\<close>: a date-only ISO string is UTC midnight of
      that day; any other string is left to the implementation.\<close>
  "Date_parse rt s =
     (case parse_iso_date s of
        Some d \<Rightarrow> TimeClip (MakeDate d 0)
      | None \<Rightarrow> legacyParse rt s)"

definition LocalTime :: "runtime \<Rightarrow> int \<Rightarrow> int" where
  "LocalTime rt t = t + LocalTZA rt"

definition getFullYear :: "runtime \<Rightarrow> int option \<Rightarrow> int option" where
  "getFullYear rt tv = map_option (\<lambda>t. YearFromDay (Day (LocalTime rt t))) tv"

definition setFullYear :: "runtime \<Rightarrow> int \<Rightarrow> int option \<Rightarrow> int option" where
  \<comment> \<open>\<open>d.setFullYear(y)\<close> on a valid date with time value \<open>t\<close>: the local month, day and
      time of day are kept, the year replaced; the new time value of \<open>d\<close>.\<close>
  "setFullYear rt t y =
     (case y of
        None \<Rightarrow> None
      | Some yr \<Rightarrow>
          (let lt = LocalTime rt t;
               newDate = MakeDay yr (MonthFromDay (Day lt)) (DateFromDay (Day lt))
           in TimeClip (MakeDate newDate (TimeWithinDay lt) - LocalTZA rt)))"

definition toLocaleDateString :: "runtime \<Rightarrow> int option \<Rightarrow> string" where
  "toLocaleDateString rt tv =
     (case tv of
        None \<Rightarrow> ''Invalid Date''
      | Some t \<Rightarrow>
          (let d = Day (LocalTime rt t)
           in localeDate rt (YearFromDay d) (MonthFromDay d + 1) (DateFromDay d)))"

subsection \<open>\<open>Array.prototype.sort\<close>, \<open>Set\<close>, \<open>Map\<close> and objects\<close>

text \<open>
  A comparator returns a number, \<open>None\<close> for \<open>NaN\<close>, which \<open>sort\<close> reads as \<open>+0\<close>.  The
  sort is stable, and with a consistent comparator every stable sort returns the same
  array: it is an insertion sort here.  With a comparator that is not consistent (one
  that returns \<open>NaN\<close> for some pairs only) the order is left to the implementation: what
  is stated below about the order of a sorted array is stated for consistent
  comparators, and for the others only what every order has, the elements.
\<close>

definition sortCompare :: "('a \<Rightarrow> 'a \<Rightarrow> int option) \<Rightarrow> 'a \<Rightarrow> 'a \<Rightarrow> int" where
  "sortCompare cmp x y = (case cmp x y of None \<Rightarrow> 0 | Some v \<Rightarrow> v)"

fun insert_by :: "('a \<Rightarrow> 'a \<Rightarrow> int option) \<Rightarrow> 'a \<Rightarrow> 'a list \<Rightarrow> 'a list" where
  "insert_by cmp x [] = [x]"
| "insert_by cmp x (y # ys) =
     (if sortCompare cmp x y \<le> 0 then x # y # ys else y # insert_by cmp x ys)"

definition array_sort :: "('a \<Rightarrow> 'a \<Rightarrow> int option) \<Rightarrow> 'a list \<Rightarrow> 'a list" where
  "array_sort cmp xs = foldr (insert_by cmp) xs []"

definition number_minus :: "int option \<Rightarrow> int option \<Rightarrow> int option" where
  \<comment> \<open>\<open>a - b\<close> on numbers: \<open>NaN\<close> when either is \<open>NaN\<close>.\<close>
  "number_minus a b = (case (a, b) of (Some x, Some y) \<Rightarrow> Some (x - y) | _ \<Rightarrow> None)"

definition set_add :: "'a \<Rightarrow> 'a list \<Rightarrow> 'a list" where
  \<comment> \<open>\<open>s.add(x)\<close>: a \<open>Set\<close> keeps its elements in insertion order.\<close>
  "set_add x xs = (if x \<in> set xs then xs else xs @ [x])"

definition Map_of_entries :: "('k \<times> 'v) list \<Rightarrow> 'k \<Rightarrow> 'v option" where
  \<comment> \<open>\<open>new Map(entries).get(k)\<close>: a later entry replaces an earlier one with the same key.\<close>
  "Map_of_entries es = map_of (rev es)"

text \<open>
  An object used as a dictionary (\<open>Record<string, T>\<close>) is the list of its entries in
  the order of \<open>Object.keys\<close>, which is insertion order for keys that are not array
  indices (country codes are not).  Its keys are distinct.
\<close>

definition obj_keys :: "('k \<times> 'v) list \<Rightarrow> 'k list" where
  "obj_keys obj = map fst obj"

definition obj_values :: "('k \<times> 'v) list \<Rightarrow> 'v list" where
  "obj_values obj = map snd obj"

fun obj_set :: "'k \<Rightarrow> 'v \<Rightarrow> ('k \<times> 'v) list \<Rightarrow> ('k \<times> 'v) list" where
  "obj_set k v [] = [(k, v)]"
| "obj_set k v ((k', v') # rest) =
     (if k = k' then (k, v) # rest else (k', v') # obj_set k v rest)"

definition obj_get :: "('k \<times> 'v list) list \<Rightarrow> 'k \<Rightarrow> 'v list" where
  \<comment> \<open>\<open>obj[k]\<close> for a key \<open>k\<close> of \<open>Object.keys(obj)\<close>, the only keys the source reads.\<close>
  "obj_get obj k = (case map_of obj k of Some v \<Rightarrow> v | None \<Rightarrow> [])"

subsection \<open>\<open>parseInt\<close> and \<open>String.prototype.replace\<close>\<close>

fun replace_first :: "char \<Rightarrow> string \<Rightarrow> string" where
  \<comment> \<open>\<open>s.replace(c, "")\<close> for a one-character pattern: the first occurrence is removed.\<close>
  "replace_first c [] = []"
| "replace_first c (x # xs) = (if x = c then xs else x # replace_first c xs)"

definition is_white :: "char \<Rightarrow> bool" where
  "is_white c \<longleftrightarrow> (of_char c :: nat) \<in> {9, 10, 11, 12, 13, 32}"

fun digit_prefix :: "string \<Rightarrow> nat option \<Rightarrow> nat option" where
  \<comment> \<open>The value of the longest prefix of decimal digits; \<open>None\<close> when it is empty.\<close>
  "digit_prefix [] acc = acc"
| "digit_prefix (c # cs) acc =
     (case digit_val c of
        None \<Rightarrow> acc
      | Some v \<Rightarrow> digit_prefix cs (Some (10 * (case acc of None \<Rightarrow> 0 | Some a \<Rightarrow> a) + v)))"

definition parseInt :: "string \<Rightarrow> int option" where
  \<comment> \<open>\<open>parseInt(s)\<close> without a radix, on a string that has no \<open>0x\<close> prefix: white space is
      skipped, a sign read, then the decimal digits; \<open>NaN\<close> when there are none.\<close>
  "parseInt s =
     (let s1 = dropWhile is_white s;
          neg = (s1 \<noteq> [] \<and> hd s1 = CHR ''-'');
          s2 = (if s1 \<noteq> [] \<and> (hd s1 = CHR ''-'' \<or> hd s1 = CHR ''+'') then tl s1 else s1)
      in map_option (\<lambda>n. if neg then - int n else int n) (digit_prefix s2 None))"

section \<open>The server-side rankings route (src/routes/api/rankings.ts)\<close>

text \<open>
  The handler reads three query parameters with \<open>url.searchParams.get\<close>, which returns
  \<open>null\<close> for an absent parameter: each is a \<open>string option\<close>.  The upstream provider
  is a parameter of the model: a function from the URL that is fetched to the outcome
  of \<open>fetch\<close> followed by \<open>response.json()\<close>.
\<close>

record request =
  countryCodeParam :: "string option"
  genderParam :: "string option"
  footballTypeParam :: "string option"

text \<open>
  \<open>FetchThrows\<close>: the promise of \<open>fetch\<close> rejects.  \<open>Response st b\<close>: it resolves with
  HTTP status \<open>st\<close>; \<open>b\<close> is the value \<open>response.json()\<close> resolves to, \<open>None\<close> when the
  body is not JSON and \<open>response.json()\<close> rejects.
\<close>

datatype 'j upstream = FetchThrows | Response nat "'j option"

text \<open>The body handed to \<open>json(...)\<close>: the object \<open>{error: msg}\<close> or the upstream payload.\<close>

datatype 'j body = ErrorObj string | Payload 'j

record 'j response =
  status :: nat
  body :: "'j body"

definition response_ok :: "nat \<Rightarrow> bool" where
  \<comment> \<open>\<open>response.ok\<close> of the Fetch standard: the status is in the range 200 to 299.\<close>
  "response_ok st \<longleftrightarrow> 200 \<le> st \<and> st \<le> 299"

definition or_default :: "string option \<Rightarrow> string \<Rightarrow> string" where
  \<comment> \<open>\<open>x || d\<close> on a value that is a string or \<open>null\<close>: \<open>null\<close> and \<open>""\<close> are falsy.\<close>
  "or_default x d = (case x of None \<Rightarrow> d | Some s \<Rightarrow> if s = [] then d else s)"

definition falsy_param :: "string option \<Rightarrow> bool" where
  \<comment> \<open>\<open>!x\<close> on a value that is a string or \<open>null\<close>.\<close>
  "falsy_param x \<longleftrightarrow> (case x of None \<Rightarrow> True | Some s \<Rightarrow> s = [])"

definition fifaUrl :: "string \<Rightarrow> string \<Rightarrow> string \<Rightarrow> string" where
  "fifaUrl g c f =
     ''https://inside.fifa.com/api/rankings/by-country?gender='' @ g
       @ ''&countryCode='' @ c @ ''&footballType='' @ f @ ''&locale=en''"

definition json_error :: "string \<Rightarrow> nat \<Rightarrow> 'j response" where
  "json_error msg st = \<lparr>status = st, body = ErrorObj msg\<rparr>"

text \<open>
  \<open>GET\<close> returns the response together with the list of URLs it fetched, so that
  "the provider was not contacted" is the statement that this list is empty.
  \<open>json(data)\<close> without an init object answers with status 200.
\<close>

definition GET :: "(string \<Rightarrow> 'j upstream) \<Rightarrow> request \<Rightarrow> 'j response \<times> string list" where
  "GET provider req =
     (let g = or_default (genderParam req) ''1'';
          f = or_default (footballTypeParam req) ''football''
      in if falsy_param (countryCodeParam req)
         then (json_error ''Country code is required'' 400, [])
         else
           (let url = fifaUrl g (the (countryCodeParam req)) f
            in case provider url of
                 FetchThrows \<Rightarrow> (json_error ''Failed to fetch data'' 500, [url])
               | Response st b \<Rightarrow>
                   if \<not> response_ok st then (json_error ''Failed to fetch data'' 500, [url])
                   else (case b of
                           None \<Rightarrow> (json_error ''Failed to fetch data'' 500, [url])
                         | Some payload \<Rightarrow> (\<lparr>status = 200, body = Payload payload\<rparr>, [url]))))"

section \<open>The record model (src/types.ts)\<close>

text \<open>
  \<open>TeamName\<close> is the list of the \<open>Description\<close> fields of the array of the source.
  \<open>TotalPoints\<close> is a floating-point number that the source only copies and prints:
  its type is a parameter \<open>'n\<close>, and the exporter takes the function that prints it.
  Every reading of \<open>PubDate\<close> but one in the source is \<open>new Date(item.PubDate)\<close>, so the
  field holds the time value of that date, \<open>None\<close> when the string does not parse; the
  one other reading copies the field into the \<open>date\<close> of a snapshot.
\<close>

record 'n RankingHistoryItem =
  IdCountry :: string
  TeamName :: "string list"
  Rank :: int
  TotalPoints :: 'n
  PubDate :: "int option"

type_synonym 'n HistoryMap = "(string \<times> 'n RankingHistoryItem list) list"

section \<open>The dashboard (src/routes/index.tsx)\<close>

record 'n RankingResult =
  countryCode :: string
  countryName :: string
  rank :: int
  previousRank :: int
  points :: 'n
  date :: "int option"
  gender :: string

definition COLORS :: "string list" where
  "COLORS =
     [''#3b82f6'', ''#ef4444'', ''#10b981'', ''#f59e0b'', ''#8b5cf6'', ''#ec4899'',
      ''#06b6d4'', ''#f97316'', ''#6366f1'', ''#84cc16'', ''#14b8a6'', ''#d946ef'',
      ''#e11d48'', ''#22c55e'', ''#0ea5e9'', ''#a855f7'', ''#f43f5e'', ''#64748b'',
      ''#a3e635'', ''#2dd4bf'', ''#fbbf24'', ''#c084fc'', ''#f472b6'', ''#38bdf8'',
      ''#818cf8'', ''#fb7185'', ''#34d399'', ''#a78bfa'', ''#e879f9'', ''#22d3ee'']"

text \<open>The signals of the component that the two operations read and write.\<close>

record 'n dashboard =
  selectedCountries :: "string list"
  genderSignal :: string
  footballType :: string
  results :: "'n RankingResult list"
  historyData :: "'n HistoryMap"
  loading :: bool
  timeRange :: string
  customStartYear :: "int option"
  customEndYear :: "int option"

subsection \<open>\<open>updateChart\<close>\<close>

text \<open>
  \<open>now\<close> is the instant read by \<open>const now = new Date()\<close> before the filter.  The callback
  of the filter reads the clock again, with \<open>const cutoffDate = new Date()\<close>, each time it
  tests a record under a relative range: \<open>clk c i\<close> is the instant it reads at the record
  of index \<open>i\<close> of the history of \<open>c\<close>.  The custom years are numbers that may be \<open>NaN\<close>
  (\<open>parseInt\<close> of an emptied input); a comparison with \<open>NaN\<close> is false.
\<close>

definition inTimeRange ::
  "runtime \<Rightarrow> string \<Rightarrow> int option \<Rightarrow> int option \<Rightarrow> int \<Rightarrow> int \<Rightarrow> 'n RankingHistoryItem \<Rightarrow> bool"
where
  "inTimeRange rt tr cs ce now clk itm =
     (let itemDate = PubDate itm
      in if tr = ''custom''
         then (case (getFullYear rt itemDate, cs, ce) of
                 (Some year, Some s, Some e) \<Rightarrow> year \<ge> s \<and> year \<le> e
               | _ \<Rightarrow> False)
         else if tr \<noteq> ''all''
         then (let years = parseInt (replace_first CHR ''y'' tr);
                   cutoffDate = setFullYear rt clk (number_minus (getFullYear rt (Some now)) years)
               in case (itemDate, cutoffDate) of
                    (Some t, Some c) \<Rightarrow> t \<ge> c
                  | _ \<Rightarrow> False)
         else True)"

definition filterHistory ::
  "runtime \<Rightarrow> string \<Rightarrow> int option \<Rightarrow> int option \<Rightarrow> int \<Rightarrow> (nat \<Rightarrow> int)
     \<Rightarrow> 'n RankingHistoryItem list \<Rightarrow> 'n RankingHistoryItem list"
where
  \<comment> \<open>\<open>history.filter(item => ...)\<close>; \<open>clk i\<close> is the clock at the record of index \<open>i\<close>.\<close>
  "filterHistory rt tr cs ce now clk hist =
     map snd (filter (\<lambda>(i, itm). inTimeRange rt tr cs ce now (clk i) itm)
                     (List.enumerate 0 hist))"

definition filteredHistoryData ::
  "runtime \<Rightarrow> 'n dashboard \<Rightarrow> int \<Rightarrow> (string \<Rightarrow> nat \<Rightarrow> int) \<Rightarrow> 'n HistoryMap"
where
  "filteredHistoryData rt st now clk =
     map (\<lambda>(c, hist).
            (c, filterHistory rt (timeRange st) (customStartYear st) (customEndYear st)
                     now (clk c) hist))
         (historyData st)"

definition chartKey :: "runtime \<Rightarrow> 'n RankingHistoryItem \<Rightarrow> string" where
  \<comment> \<open>\<open>new Date(item.PubDate).toLocaleDateString()\<close>\<close>
  "chartKey rt itm = toLocaleDateString rt (PubDate itm)"

definition compareAsc :: "runtime \<Rightarrow> string \<Rightarrow> string \<Rightarrow> int option" where
  \<comment> \<open>\<open>(a, b) => new Date(a).getTime() - new Date(b).getTime()\<close>\<close>
  "compareAsc rt a b = number_minus (Date_parse rt a) (Date_parse rt b)"

definition chartLabels :: "runtime \<Rightarrow> 'n HistoryMap \<Rightarrow> string list" where
  "chartLabels rt filtered =
     (let allDates = fold set_add (map (chartKey rt) (concat (obj_values filtered))) []
      in array_sort (compareAsc rt) allDates)"

definition or_null :: "int option \<Rightarrow> int option" where
  \<comment> \<open>\<open>x || null\<close> for a number or \<open>undefined\<close>: \<open>undefined\<close> and 0 are falsy.\<close>
  "or_null x = (case x of None \<Rightarrow> None | Some r \<Rightarrow> if r = 0 then None else Some r)"

definition seriesData :: "runtime \<Rightarrow> string list \<Rightarrow> 'n RankingHistoryItem list \<Rightarrow> int option list" where
  "seriesData rt lbls hist =
     (let rankMap = Map_of_entries (map (\<lambda>h. (chartKey rt h, Rank h)) hist)
      in map (\<lambda>date. or_null (rankMap date)) lbls)"

definition nth_opt :: "'a list \<Rightarrow> int \<Rightarrow> 'a option" where
  \<comment> \<open>\<open>xs[i]\<close>, \<open>undefined\<close> out of range.\<close>
  "nth_opt xs i = (if 0 \<le> i \<and> i < int (length xs) then Some (xs ! nat i) else None)"

text \<open>
  \<open>random j\<close> is the value of the \<open>j\<close>-th call of \<open>Math.random()\<close> during one
  \<open>updateChart\<close> (a number in \<open>[0, 1)\<close>); the series of index \<open>i \<ge> 30\<close> makes call \<open>i - 30\<close>.
\<close>

definition seriesColor :: "(nat \<Rightarrow> real) \<Rightarrow> nat \<Rightarrow> string option" where
  "seriesColor random index =
     (if index < length COLORS then Some (COLORS ! index)
      else nth_opt COLORS \<lfloor>random (index - length COLORS) * of_nat (length COLORS)\<rfloor>)"

definition seriesLabel :: "string \<Rightarrow> 'n RankingHistoryItem list \<Rightarrow> string" where
  \<comment> \<open>\<open>`${history[0]?.TeamName[0]?.Description || code} (${code})`\<close>\<close>
  "seriesLabel c hist =
     (case hist of
        [] \<Rightarrow> c
      | h # _ \<Rightarrow> (case TeamName h of [] \<Rightarrow> c | dsc # _ \<Rightarrow> if dsc = [] then c else dsc))
     @ '' ('' @ c @ '')''"

record chartDataset =
  label :: string
  data :: "int option list"
  borderColor :: "string option"
  backgroundColor :: "string option"

record chartData =
  labels :: "string list"
  datasets :: "chartDataset list"

definition chartDatasets ::
  "runtime \<Rightarrow> (nat \<Rightarrow> real) \<Rightarrow> string list \<Rightarrow> 'n HistoryMap \<Rightarrow> string list \<Rightarrow> chartDataset list"
where
  "chartDatasets rt random countries filtered lbls =
     map (\<lambda>(c, index).
            (let hist = obj_get filtered c;
                 color = seriesColor random index
             in \<lparr>label = seriesLabel c hist,
                 data = seriesData rt lbls hist,
                 borderColor = color,
                 backgroundColor = color\<rparr>))
         (zip countries [0 ..< length countries])"

definition updateChart ::
  "runtime \<Rightarrow> (nat \<Rightarrow> real) \<Rightarrow> 'n dashboard \<Rightarrow> int \<Rightarrow> (string \<Rightarrow> nat \<Rightarrow> int)
     \<Rightarrow> chartData option"
where
  \<comment> \<open>The data handed to \<open>new Chart\<close>, with the canvas mounted; \<open>None\<close> when the function
      returns before.\<close>
  "updateChart rt random st now clk =
     (let countries = obj_keys (historyData st)
      in if length countries = 0 then None
         else (let filtered = filteredHistoryData rt st now clk;
                   lbls = chartLabels rt filtered
               in Some \<lparr>labels = lbls,
                        datasets = chartDatasets rt random countries filtered lbls\<rparr>))"

subsection \<open>\<open>fetchRankings\<close>\<close>

text \<open>
  What one request of the client gives: \<open>Rejected\<close> when \<open>fetch\<close> or \<open>res.json()\<close> rejects
  (or the payload is \<open>null\<close>, so that reading \<open>data.rankings\<close> throws); \<open>Resolved r\<close> when
  the payload is an object, \<open>r\<close> its \<open>rankings\<close> array, \<open>None\<close> when it has none (the body
  \<open>{error: ...}\<close> of the route's 400 and 500 answers).
\<close>

datatype 'n fetched = Rejected | Resolved "'n RankingHistoryItem list option"

record 'n fetchedItem =
  result :: "'n RankingResult"
  history :: "'n RankingHistoryItem list"
  code :: string

definition compareDesc :: "'n RankingHistoryItem \<Rightarrow> 'n RankingHistoryItem \<Rightarrow> int option" where
  \<comment> \<open>\<open>(a, b) => new Date(b.PubDate).getTime() - new Date(a.PubDate).getTime()\<close>\<close>
  "compareDesc a b = number_minus (PubDate b) (PubDate a)"

definition first_description :: "'n RankingHistoryItem \<Rightarrow> string \<Rightarrow> string" where
  \<comment> \<open>\<open>item.TeamName?.[0]?.Description || code\<close>\<close>
  "first_description itm c =
     (case TeamName itm of [] \<Rightarrow> c | dsc # _ \<Rightarrow> if dsc = [] then c else dsc)"

definition fetchOne ::
  "(string \<Rightarrow> string \<Rightarrow> string \<Rightarrow> 'n fetched) \<Rightarrow> string \<Rightarrow> string \<Rightarrow> string
     \<Rightarrow> unit + 'n fetchedItem option"
where
  \<comment> \<open>The async callback of \<open>selectedCountries().map\<close>: \<open>Inl ()\<close> is a rejected promise,
      \<open>Inr None\<close> one that resolves to \<open>null\<close>.  The sort is in place, so the history that
      is returned is the sorted array; it is empty only when \<open>rankings\<close> is.\<close>
  "fetchOne api g f c =
     (case api c g f of
        Rejected \<Rightarrow> Inl ()
      | Resolved None \<Rightarrow> Inr None
      | Resolved (Some rankings) \<Rightarrow>
          (case array_sort compareDesc rankings of
             [] \<Rightarrow> Inr None
           | current # rest \<Rightarrow>
               (let previous = (case rest of [] \<Rightarrow> current | p # _ \<Rightarrow> p)
                in Inr (Some
                     \<lparr>result =
                        \<lparr>countryCode = c,
                         countryName = first_description current c,
                         rank = Rank current,
                         previousRank = Rank previous,
                         points = TotalPoints current,
                         date = PubDate current,
                         gender = (if g = ''1'' then ''Men'' else ''Women'')\<rparr>,
                      history = current # rest,
                      code = c\<rparr>))))"

fun Promise_all :: "(unit + 'a) list \<Rightarrow> unit + 'a list" where
  \<comment> \<open>Rejects when one of the promises rejects; resolves to all the values otherwise.\<close>
  "Promise_all [] = Inr []"
| "Promise_all (Inl e # ps) = Inl e"
| "Promise_all (Inr v # ps) = (case Promise_all ps of Inl e \<Rightarrow> Inl e | Inr vs \<Rightarrow> Inr (v # vs))"

definition fetchRankings ::
  "(string \<Rightarrow> string \<Rightarrow> string \<Rightarrow> 'n fetched) \<Rightarrow> 'n dashboard \<Rightarrow> 'n dashboard"
where
  \<comment> \<open>The signals after the call has settled.  \<open>setResults([])\<close> and \<open>setHistoryData({})\<close>
      run before the \<open>try\<close>; a rejection of \<open>Promise.all\<close> is caught and logged.\<close>
  "fetchRankings api st =
     (if length (selectedCountries st) = 0 then st
      else
        (let st1 = st\<lparr>results := [], historyData := []\<rparr>;
             promises = map (fetchOne api (genderSignal st) (footballType st))
                            (selectedCountries st)
         in case Promise_all promises of
              Inl _ \<Rightarrow> st1\<lparr>loading := False\<rparr>
            | Inr settled \<Rightarrow>
                (let fetchedData = List.map_filter id settled
                 in st1\<lparr>results := map result fetchedData,
                        historyData :=
                          fold (\<lambda>fi newHistory. obj_set (code fi) (history fi) newHistory)
                               fetchedData [],
                        loading := False\<rparr>)))"

definition has_rankings ::
  "(string \<Rightarrow> string \<Rightarrow> string \<Rightarrow> 'n fetched) \<Rightarrow> string \<Rightarrow> string \<Rightarrow> string \<Rightarrow> bool"
where
  \<comment> \<open>The test \<open>rankings && rankings.length > 0\<close> on what the request of \<open>c\<close> resolved to.\<close>
  "has_rankings api g f c =
     (case api c g f of Resolved (Some rankings) \<Rightarrow> length rankings > 0 | _ \<Rightarrow> False)"

definition snapshot_of ::
  "(string \<Rightarrow> string \<Rightarrow> string \<Rightarrow> 'n fetched) \<Rightarrow> string \<Rightarrow> string \<Rightarrow> string \<Rightarrow> 'n fetchedItem"
where
  \<comment> \<open>The value the request of \<open>c\<close> resolved to, when it is not \<open>null\<close>.\<close>
  "snapshot_of api g f c = the (projr (fetchOne api g f c))"

section \<open>The exporters (utils/download)\<close>

record 'n CountryRankingData =
  rankData :: int
  pointsData :: 'n
  countryNameData :: "string option"

text \<open>A value of a \<open>TimeSeriesEntry\<close>: the date string, or the data of one country.\<close>

datatype 'n entryValue = DateString string | CountryData "'n CountryRankingData"

definition exportKey :: "'n RankingHistoryItem \<Rightarrow> js_error + string" where
  \<comment> \<open>\<open>new Date(item.PubDate).toISOString().split('T')[0]\<close>\<close>
  "exportKey itm = toISOString_date (PubDate itm)"

fun collectDates :: "'n RankingHistoryItem list \<Rightarrow> string list \<Rightarrow> js_error + string list" where
  \<comment> \<open>The two nested \<open>forEach\<close> that fill \<open>allDates\<close>, over the items of all histories in
      order; an exception thrown for one item ends the function.\<close>
  "collectDates [] allDates = Inr allDates"
| "collectDates (itm # itms) allDates =
     (case exportKey itm of
        Inl e \<Rightarrow> Inl e
      | Inr k \<Rightarrow> collectDates itms (set_add k allDates))"

definition compareDateDesc :: "runtime \<Rightarrow> string \<Rightarrow> string \<Rightarrow> int option" where
  \<comment> \<open>\<open>(a, b) => new Date(b).getTime() - new Date(a).getTime()\<close>\<close>
  "compareDateDesc rt a b = number_minus (Date_parse rt b) (Date_parse rt a)"

definition sortedDates :: "runtime \<Rightarrow> 'n HistoryMap \<Rightarrow> js_error + string list" where
  "sortedDates rt hm =
     (case collectDates (concat (obj_values hm)) [] of
        Inl e \<Rightarrow> Inl e
      | Inr allDates \<Rightarrow> Inr (array_sort (compareDateDesc rt) allDates))"

definition findItem :: "'n RankingHistoryItem list \<Rightarrow> string \<Rightarrow> 'n RankingHistoryItem option" where
  \<comment> \<open>\<open>history.find(h => new Date(h.PubDate).toISOString().split('T')[0] === date)\<close>; it
      runs after \<open>allDates\<close> was filled, so \<open>toISOString\<close> has not thrown on any item.\<close>
  "findItem hist key = find (\<lambda>x. exportKey x = Inr key) hist"

definition csvHeader :: "string list \<Rightarrow> string" where
  "csvHeader countries =
     ''Date'' @ concat (map (\<lambda>cc. '','' @ cc @ '' Rank,'' @ cc @ '' Points'') countries)
       @ [CHR 0x0A]"

definition csvCell :: "('n \<Rightarrow> string) \<Rightarrow> 'n HistoryMap \<Rightarrow> string \<Rightarrow> string \<Rightarrow> string" where
  \<comment> \<open>What one country adds to the row of \<open>date\<close>.\<close>
  "csvCell str hm key cc =
     (case findItem (obj_get hm cc) key of
        Some itm \<Rightarrow> '','' @ show_int (Rank itm) @ '','' @ str (TotalPoints itm)
      | None \<Rightarrow> '',,'')"

definition csvRow :: "('n \<Rightarrow> string) \<Rightarrow> 'n HistoryMap \<Rightarrow> string list \<Rightarrow> string \<Rightarrow> string" where
  "csvRow str hm countries key =
     key @ concat (map (csvCell str hm key) countries)"

definition downloadCSV :: "runtime \<Rightarrow> ('n \<Rightarrow> string) \<Rightarrow> 'n HistoryMap \<Rightarrow> js_error + string option" where
  \<comment> \<open>The text of the file that is saved: \<open>Inr None\<close> when the function returns without
      saving one, \<open>Inl e\<close> when it throws.  \<open>str\<close> prints a number.\<close>
  "downloadCSV rt str hm =
     (let countries = obj_keys hm
      in if length countries = 0 then Inr None
         else (case sortedDates rt hm of
                 Inl e \<Rightarrow> Inl e
               | Inr dates \<Rightarrow>
                   Inr (Some (csvHeader countries
                              @ concat (map (\<lambda>key. csvRow str hm countries key @ [CHR 0x0A])
                                            dates)))))"

definition jsonEntry ::
  "'n HistoryMap \<Rightarrow> string list \<Rightarrow> string \<Rightarrow> (string \<times> 'n entryValue) list"
where
  "jsonEntry hm countries key =
     fold (\<lambda>cc entry.
             (case findItem (obj_get hm cc) key of
                Some itm \<Rightarrow>
                  obj_set cc
                    (CountryData \<lparr>rankData = Rank itm,
                                  pointsData = TotalPoints itm,
                                  countryNameData = (case TeamName itm of [] \<Rightarrow> None
                                                     | dsc # _ \<Rightarrow> Some dsc)\<rparr>)
                    entry
              | None \<Rightarrow> entry))
          countries [(''date'', DateString key)]"

definition downloadJSON ::
  "runtime \<Rightarrow> 'n HistoryMap \<Rightarrow> js_error + (string \<times> 'n entryValue) list list option"
where
  \<comment> \<open>The array \<open>jsonOutput\<close> that is printed into the file, each entry an object.\<close>
  "downloadJSON rt hm =
     (let countries = obj_keys hm
      in if length countries = 0 then Inr None
         else (case sortedDates rt hm of
                 Inl e \<Rightarrow> Inl e
               | Inr dates \<Rightarrow> Inr (Some (map (jsonEntry hm countries) dates))))"

section \<open>The relative time range, in the words of the specification\<close>

definition yearsBefore :: "runtime \<Rightarrow> int \<Rightarrow> int \<Rightarrow> int option" where
  \<comment> \<open>"Now shifted back \<open>n\<close> calendar years": the instant of the same local month, day
      of the month and time of day, in the calendar year \<open>n\<close> before the year of \<open>now\<close>
      (the 29th of February carries into March when that year has none); \<open>None\<close> when the
      instant is outside the range of time values.\<close>
  "yearsBefore rt now n =
     (let d = Day (LocalTime rt now)
      in TimeClip (MakeDate (MakeDay (YearFromDay d - n) (MonthFromDay d) (DateFromDay d))
                            (TimeWithinDay (LocalTime rt now))
                   - LocalTZA rt))"

definition relativeYears ::
  "runtime \<Rightarrow> int \<Rightarrow> int \<Rightarrow> 'n RankingHistoryItem list \<Rightarrow> 'n RankingHistoryItem list"
where
  \<comment> \<open>\<open>RelativeYears(n)\<close>: "keep records whose timestamp \<open>\<ge>\<close> (now shifted back \<open>n\<close> calendar
      years); boundary is inclusive".  A record without a timestamp is not kept.\<close>
  "relativeYears rt n now hist =
     filter (\<lambda>r. case (PubDate r, yearsBefore rt now n) of
                   (Some t, Some c) \<Rightarrow> c \<le> t
                 | _ \<Rightarrow> False)
            hist"

section \<open>Auxiliary notions for the statements\<close>

text \<open>
  The local calendar day of a record, the label the chart prints for a local day, and
  the time value of a record that has one.
\<close>

definition localDay :: "runtime \<Rightarrow> 'n RankingHistoryItem \<Rightarrow> int" where
  "localDay rt x = Day (LocalTime rt (the (PubDate x)))"

definition dayLabel :: "runtime \<Rightarrow> int \<Rightarrow> string" where
  "dayLabel rt d = localeDate rt (YearFromDay d) (MonthFromDay d + 1) (DateFromDay d)"

definition timeOf :: "'n RankingHistoryItem \<Rightarrow> int" where
  "timeOf x = the (PubDate x)"

section \<open>A concrete runtime\<close>

text \<open>
  The runtime the concrete evaluations below use: the locale \<open>en-US\<close>, which prints a
  date as \<open>M/D/YYYY\<close>, a fixed offset from UTC, and a \<open>Date\<close> constructor that reads the
  locale's own format with a year from 100 on back as local midnight of that day (as V8
  does) and no other.
\<close>

definition enUS_date :: "int \<Rightarrow> int \<Rightarrow> int \<Rightarrow> string" where
  "enUS_date y m d = show_int m @ ''/'' @ show_int d @ ''/'' @ show_int y"

fun split_on :: "char \<Rightarrow> string \<Rightarrow> string list" where
  "split_on c [] = [[]]"
| "split_on c (x # xs) =
     (case split_on c xs of
        [] \<Rightarrow> [[x]]
      | w # ws \<Rightarrow> if x = c then [] # w # ws else (x # w) # ws)"

definition parse_mdy :: "int \<Rightarrow> string \<Rightarrow> int option" where
  "parse_mdy tza s =
     (case map parse_digits (split_on CHR ''/'' s) of
        [Some m, Some d, Some y] \<Rightarrow>
          if 1 \<le> m \<and> m \<le> 12 \<and> 1 \<le> d \<and> d \<le> 31 \<and> 100 \<le> y
          then TimeClip (MakeDate (MakeDay (int y) (int m - 1) (int d)) 0 - tza)
          else None
      | _ \<Rightarrow> None)"

definition runtime_enUS :: "int \<Rightarrow> runtime" where
  "runtime_enUS tza = \<lparr>LocalTZA = tza, localeDate = enUS_date, legacyParse = parse_mdy tza\<rparr>"

definition mk_item :: "string \<Rightarrow> int \<Rightarrow> int option \<Rightarrow> int RankingHistoryItem" where
  \<comment> \<open>A record of a team with one name entry; the points are not looked at.\<close>
  "mk_item name r t = \<lparr>IdCountry = name, TeamName = [name], Rank = r, TotalPoints = 0, PubDate = t\<rparr>"

definition thirty_one_codes :: "string list" where
  "thirty_one_codes =
     [''ARG'', ''FRA'', ''ESP'', ''ENG'', ''BRA'', ''POR'', ''NED'', ''BEL'', ''GER'', ''CRO'',
      ''ITA'', ''MAR'', ''COL'', ''URU'', ''USA'', ''MEX'', ''JPN'', ''SUI'', ''SEN'', ''IRN'',
      ''DEN'', ''AUT'', ''KOR'', ''ECU'', ''AUS'', ''UKR'', ''TUR'', ''SWE'', ''WAL'', ''CAN'',
      ''SRB'']"

definition thirty_one_state :: "int dashboard" where
  "thirty_one_state =
     \<lparr>selectedCountries = thirty_one_codes, genderSignal = ''1'', footballType = ''football'',
      results = [],
      historyData = map (\<lambda>c. (c, [mk_item c 1 (Some 0)])) thirty_one_codes,
      loading = False, timeRange = ''all'', customStartYear = None, customEndYear = None\<rparr>"

definition arg_fra_esp_selected :: "int dashboard" where
  "arg_fra_esp_selected =
     \<lparr>selectedCountries = [''ARG'', ''FRA'', ''ESP''], genderSignal = ''1'',
      footballType = ''football'', results = [], historyData = [], loading = False,
      timeRange = ''all'', customStartYear = None, customEndYear = None\<rparr>"

definition every_country_api :: "string \<Rightarrow> string \<Rightarrow> string \<Rightarrow> int fetched" where
  \<comment> \<open>Every request resolves with one record, of 2024-06-01.\<close>
  "every_country_api c g f = Resolved (Some [mk_item c 1 (Some 1717200000000)])"

definition all_but_fra_api :: "string \<Rightarrow> string \<Rightarrow> string \<Rightarrow> int fetched" where
  \<comment> \<open>The request for FRA resolves with a payload that has no \<open>rankings\<close>, every other
      request with one record.\<close>
  "all_but_fra_api c g f =
     (if c = ''FRA'' then Resolved None else every_country_api c g f)"

definition usa_only_api :: "string \<Rightarrow> string \<Rightarrow> string \<Rightarrow> int fetched" where
  \<comment> \<open>The request for USA resolves with two records, every other request rejects.\<close>
  "usa_only_api c g f =
     (if c = ''USA''
      then Resolved (Some [mk_item ''USA'' 5 (Some 1704067200000),
                           mk_item ''USA'' 3 (Some 1717200000000)])
      else Rejected)"

definition usa_or_error_api :: "string \<Rightarrow> string \<Rightarrow> string \<Rightarrow> int fetched" where
  \<comment> \<open>The request for USA resolves with two records, every other request resolves with
      a payload that has no \<open>rankings\<close>.\<close>
  "usa_or_error_api c g f =
     (if c = ''USA''
      then Resolved (Some [mk_item ''USA'' 5 (Some 1704067200000),
                           mk_item ''USA'' 3 (Some 1717200000000)])
      else Resolved None)"

definition usa_bra_selected :: "int dashboard" where
  "usa_bra_selected =
     \<lparr>selectedCountries = [''USA'', ''BRA''], genderSignal = ''1'', footballType = ''football'',
      results = [], historyData = [], loading = False, timeRange = ''all'',
      customStartYear = None, customEndYear = None\<rparr>"

definition usa_bra_history :: "int HistoryMap" where
  \<comment> \<open>USA on 2024-06-01 (rank 3) and 2024-01-01 (rank 5), BRA on 2024-06-01 (rank 1), as
      \<open>fetchRankings\<close> stores them.\<close>
  "usa_bra_history =
     [(''USA'', [mk_item ''USA'' 3 (Some 1717200000000), mk_item ''USA'' 5 (Some 1704067200000)]),
      (''BRA'', [mk_item ''BRA'' 1 (Some 1717200000000)])]"

definition usa_bra_loaded :: "int dashboard" where
  "usa_bra_loaded =
     \<lparr>selectedCountries = [''USA'', ''BRA''], genderSignal = ''1'', footballType = ''football'',
      results = [], historyData = usa_bra_history, loading = False, timeRange = ''all'',
      customStartYear = None, customEndYear = None\<rparr>"

definition usa_malformed_history :: "int HistoryMap" where
  \<comment> \<open>USA with a record of 2024-06-01 and a record whose \<open>PubDate\<close> does not parse.\<close>
  "usa_malformed_history =
     [(''USA'', [mk_item ''USA'' 3 (Some 1717200000000), mk_item ''USA'' 5 None])]"

definition usa_malformed_loaded :: "int dashboard" where
  "usa_malformed_loaded =
     \<lparr>selectedCountries = [''USA''], genderSignal = ''1'', footballType = ''football'',
      results = [], historyData = usa_malformed_history, loading = False, timeRange = ''all'',
      customStartYear = None, customEndYear = None\<rparr>"

definition usa_same_day_history :: "int HistoryMap" where
  \<comment> \<open>USA with two records on 2024-06-01, of 01:00 and of 00:00 UTC.\<close>
  "usa_same_day_history =
     [(''USA'', [mk_item ''USA'' 3 (Some 1717203600000), mk_item ''USA'' 5 (Some 1717200000000)])]"

definition usa_same_day_api :: "string \<Rightarrow> string \<Rightarrow> string \<Rightarrow> int fetched" where
  \<comment> \<open>Every request resolves with two records of 2024-06-01: rank 5 at 00:00 UTC and
      rank 3 at 01:00 UTC.\<close>
  "usa_same_day_api c g f =
     Resolved (Some [mk_item c 5 (Some 1717200000000), mk_item c 3 (Some 1717203600000)])"

definition usa_selected :: "int dashboard" where
  "usa_selected =
     \<lparr>selectedCountries = [''USA''], genderSignal = ''1'', footballType = ''football'',
      results = [], historyData = [], loading = False, timeRange = ''all'',
      customStartYear = None, customEndYear = None\<rparr>"

text \<open>
  A runtime with the locale \<open>en-GB\<close>, which prints a date as \<open>DD/MM/YYYY\<close>, and the same
  \<open>Date\<close> constructor, which reads \<open>a/b/c\<close> as month \<open>a\<close>, day \<open>b\<close>, year \<open>c\<close>.
\<close>

definition enGB_date :: "int \<Rightarrow> int \<Rightarrow> int \<Rightarrow> string" where
  "enGB_date y m d = pad 2 (nat d) @ ''/'' @ pad 2 (nat m) @ ''/'' @ show_int y"

definition runtime_enGB :: "int \<Rightarrow> runtime" where
  "runtime_enGB tza = \<lparr>LocalTZA = tza, localeDate = enGB_date, legacyParse = parse_mdy tza\<rparr>"

definition usa_feb_jun_history :: "int HistoryMap" where
  \<comment> \<open>USA on 2024-06-01 (rank 3) and on 2024-02-05 (rank 5), as \<open>fetchRankings\<close> stores them.\<close>
  "usa_feb_jun_history =
     [(''USA'', [mk_item ''USA'' 3 (Some 1717200000000), mk_item ''USA'' 5 (Some 1707091200000)])]"

definition usa_feb_jun_loaded :: "int dashboard" where
  "usa_feb_jun_loaded =
     \<lparr>selectedCountries = [''USA''], genderSignal = ''1'', footballType = ''football'',
      results = [], historyData = usa_feb_jun_history, loading = False, timeRange = ''all'',
      customStartYear = None, customEndYear = None\<rparr>"

section \<open>Facts about the built-ins\<close>

subsection \<open>Sorting\<close>

lemma mset_insert_by: "mset (insert_by cmp x ys) = add_mset x (mset ys)"
  by (induction ys) simp_all

lemma mset_array_sort: "mset (array_sort cmp xs) = mset xs"
  by (induction xs) (simp_all add: array_sort_def mset_insert_by)

lemma set_array_sort: "set (array_sort cmp xs) = set xs"
  using mset_array_sort [of cmp xs] by (metis set_mset_mset)

lemma length_array_sort: "length (array_sort cmp xs) = length xs"
  using mset_array_sort [of cmp xs] by (metis size_mset)

lemma distinct_array_sort: "distinct (array_sort cmp xs) = distinct xs"
  using mset_array_sort [of cmp xs] by (metis distinct_count_atmost_1 set_array_sort)

lemma array_sort_Nil_iff: "array_sort cmp xs = [] \<longleftrightarrow> xs = []"
  using length_array_sort [of cmp xs] by (metis length_0_conv)

subsection \<open>Objects\<close>

lemma obj_set_fresh: "k \<notin> fst ` set obj \<Longrightarrow> obj_set k v obj = obj @ [(k, v)]"
  by (induction obj) auto

lemma fold_obj_set_fresh:
  assumes "distinct (map kf xs)" and "set (map kf xs) \<inter> fst ` set acc = {}"
  shows "fold (\<lambda>x obj. obj_set (kf x) (vf x) obj) xs acc = acc @ map (\<lambda>x. (kf x, vf x)) xs"
  using assms
proof (induction xs arbitrary: acc)
  case Nil
  then show ?case by simp
next
  case (Cons x xs)
  have fresh: "kf x \<notin> fst ` set acc" using Cons.prems(2) by auto
  have step: "obj_set (kf x) (vf x) acc = acc @ [(kf x, vf x)]"
    by (rule obj_set_fresh [OF fresh])
  have "set (map kf xs) \<inter> fst ` set (acc @ [(kf x, vf x)]) = {}"
    using Cons.prems by auto
  with Cons.IH [of "acc @ [(kf x, vf x)]"] Cons.prems(1) step show ?case by simp
qed

lemma obj_get_map:
  assumes "c \<in> set cs" and "distinct cs"
  shows "obj_get (map (\<lambda>c. (c, vf c)) cs) c = vf c"
proof -
  have "map_of (map (\<lambda>c. (c, vf c)) cs) c = Some (vf c)"
    using assms by (induction cs) auto
  then show ?thesis by (simp add: obj_get_def)
qed

subsection \<open>Sets in insertion order\<close>

lemma set_fold_set_add: "set (fold set_add xs acc) = set xs \<union> set acc"
  by (induction xs arbitrary: acc) (auto simp: set_add_def)

lemma distinct_fold_set_add: "distinct acc \<Longrightarrow> distinct (fold set_add xs acc)"
  by (induction xs arbitrary: acc) (auto simp: set_add_def)

lemma length_fold_set_add: "distinct acc \<Longrightarrow> length (fold set_add xs acc) = card (set xs \<union> set acc)"
  using distinct_fold_set_add [of acc xs] set_fold_set_add [of xs acc]
  by (metis distinct_card)

subsection \<open>The two axes\<close>

lemma set_chartLabels:
  "set (chartLabels rt filtered) = chartKey rt ` set (concat (obj_values filtered))"
  by (simp add: chartLabels_def Let_def set_array_sort set_fold_set_add)

lemma distinct_chartLabels: "distinct (chartLabels rt filtered)"
  by (simp add: chartLabels_def Let_def distinct_array_sort distinct_fold_set_add)

lemma collectDates_throws:
  "\<exists>x \<in> set its. PubDate x = None \<Longrightarrow> collectDates its acc = Inl RangeError"
proof (induction its arbitrary: acc)
  case Nil
  then show ?case by simp
next
  case (Cons x its)
  show ?case
  proof (cases "PubDate x")
    case None
    then show ?thesis by (simp add: exportKey_def toISOString_date_def)
  next
    case (Some t)
    with Cons.prems have "\<exists>y \<in> set its. PubDate y = None" by auto
    from Cons.IH [OF this] Some show ?thesis by (simp add: exportKey_def toISOString_date_def)
  qed
qed

lemma collectDates_valid:
  "\<forall>x \<in> set its. PubDate x \<noteq> None \<Longrightarrow>
     collectDates its acc = Inr (fold set_add (map (\<lambda>x. isoDateString (Day (the (PubDate x)))) its) acc)"
proof (induction its arbitrary: acc)
  case Nil
  then show ?case by simp
next
  case (Cons x its)
  then obtain t where t: "PubDate x = Some t" by auto
  with Cons show ?case by (simp add: exportKey_def toISOString_date_def)
qed

lemma exportKey_valid:
  "PubDate x = Some t \<Longrightarrow> exportKey x = Inr (isoDateString (Day t))"
  by (simp add: exportKey_def toISOString_date_def)

lemma sortedDates_Inr:
  assumes "sortedDates rt hm = Inr ds"
  shows "\<forall>x \<in> set (concat (obj_values hm)). PubDate x \<noteq> None"
    and "Inr ` set ds = exportKey ` set (concat (obj_values hm))"
    and "distinct ds"
proof -
  show v: "\<forall>x \<in> set (concat (obj_values hm)). PubDate x \<noteq> None"
  proof (rule ccontr)
    assume "\<not> (\<forall>x \<in> set (concat (obj_values hm)). PubDate x \<noteq> None)"
    then have "\<exists>x \<in> set (concat (obj_values hm)). PubDate x = None" by simp
    from collectDates_throws [OF this, of "[]"] assms show False
      by (simp add: sortedDates_def)
  qed
  let ?ks = "map (\<lambda>x. isoDateString (Day (the (PubDate x)))) (concat (obj_values hm))"
  have ds: "ds = array_sort (compareDateDesc rt) (fold set_add ?ks [])"
    using assms collectDates_valid [OF v, of "[]"] by (simp add: sortedDates_def)
  have "exportKey ` set (concat (obj_values hm)) = Inr ` set ?ks"
  proof -
    have "\<And>x. x \<in> set (concat (obj_values hm)) \<Longrightarrow>
            exportKey x = Inr (isoDateString (Day (the (PubDate x))))"
      using v exportKey_valid by fastforce
    then show ?thesis by (force simp: image_iff)
  qed
  then show "Inr ` set ds = exportKey ` set (concat (obj_values hm))"
    by (simp add: ds set_array_sort set_fold_set_add)
  show "distinct ds"
    by (simp add: ds distinct_array_sort distinct_fold_set_add)
qed

subsection \<open>The filter of the time range\<close>

lemma enumerate_filter_set:
  "y \<in> set (map snd (filter (\<lambda>(i, x). P i x) (List.enumerate n xs)))
     \<longleftrightarrow> (\<exists>i < length xs. xs ! i = y \<and> P (n + i) y)"
proof (induction xs arbitrary: n)
  case Nil
  then show ?case by simp
next
  case (Cons x xs)
  have "(\<exists>i < length (x # xs). (x # xs) ! i = y \<and> P (n + i) y)
          \<longleftrightarrow> (x = y \<and> P n y) \<or> (\<exists>i < length xs. xs ! i = y \<and> P (Suc n + i) y)"
  proof
    assume "\<exists>i < length (x # xs). (x # xs) ! i = y \<and> P (n + i) y"
    then obtain i where i: "i < length (x # xs)" "(x # xs) ! i = y" "P (n + i) y" by blast
    show "(x = y \<and> P n y) \<or> (\<exists>i < length xs. xs ! i = y \<and> P (Suc n + i) y)"
    proof (cases i)
      case 0
      with i show ?thesis by simp
    next
      case (Suc j)
      with i have "j < length xs \<and> xs ! j = y \<and> P (Suc n + j) y" by simp
      then show ?thesis by blast
    qed
  next
    assume "(x = y \<and> P n y) \<or> (\<exists>i < length xs. xs ! i = y \<and> P (Suc n + i) y)"
    then show "\<exists>i < length (x # xs). (x # xs) ! i = y \<and> P (n + i) y"
    proof
      assume "x = y \<and> P n y"
      then have "0 < length (x # xs) \<and> (x # xs) ! 0 = y \<and> P (n + 0) y" by simp
      then show ?thesis by blast
    next
      assume "\<exists>i < length xs. xs ! i = y \<and> P (Suc n + i) y"
      then obtain j where "j < length xs" "xs ! j = y" "P (Suc n + j) y" by blast
      then have "Suc j < length (x # xs) \<and> (x # xs) ! Suc j = y \<and> P (n + Suc j) y" by simp
      then show ?thesis by blast
    qed
  qed
  with Cons.IH [of "Suc n"] show ?case by auto
qed

lemma enumerate_filter_const:
  "map snd (filter (\<lambda>(i, x). Q x) (List.enumerate n xs)) = filter Q xs"
  by (induction xs arbitrary: n) simp_all

lemma enumerate_filter_sorted:
  "sorted_wrt R xs \<Longrightarrow> sorted_wrt R (map snd (filter (\<lambda>(i, x). P i x) (List.enumerate n xs)))"
proof (induction xs arbitrary: n)
  case Nil
  then show ?case by simp
next
  case (Cons x xs)
  have s: "\<forall>y \<in> set (map snd (filter (\<lambda>(i, x). P i x) (List.enumerate (Suc n) xs))). y \<in> set xs"
  proof
    fix y assume "y \<in> set (map snd (filter (\<lambda>(i, x). P i x) (List.enumerate (Suc n) xs)))"
    then have "\<exists>i < length xs. xs ! i = y \<and> P (Suc n + i) y"
      by (simp only: enumerate_filter_set)
    then show "y \<in> set xs" by auto
  qed
  from Cons.prems have x: "\<forall>y \<in> set xs. R x y" and r: "sorted_wrt R xs" by simp_all
  from Cons.IH [OF r, of "Suc n"] s x show ?case by auto
qed

lemma in_filterHistory:
  "y \<in> set (filterHistory rt tr cs ce now clk hist)
     \<longleftrightarrow> (\<exists>i < length hist. hist ! i = y \<and> inTimeRange rt tr cs ce now (clk i) y)"
  unfolding filterHistory_def
  using enumerate_filter_set [of y "\<lambda>i. inTimeRange rt tr cs ce now (clk i)" 0 hist] by simp

lemma set_filterHistory: "set (filterHistory rt tr cs ce now clk hist) \<subseteq> set hist"
  by (auto simp: in_filterHistory)

lemma filterHistory_same_clock:
  "filterHistory rt tr cs ce now (\<lambda>i. k) hist = filter (inTimeRange rt tr cs ce now k) hist"
  unfolding filterHistory_def by (rule enumerate_filter_const)

lemma inTimeRange_all: "inTimeRange rt ''all'' cs ce now k x"
  by (simp add: inTimeRange_def)

lemma filterHistory_all: "filterHistory rt ''all'' cs ce now clk hist = hist"
proof -
  have "filterHistory rt ''all'' cs ce now clk hist
          = map snd (filter (\<lambda>(i, x). True) (List.enumerate 0 hist))"
    unfolding filterHistory_def by (simp add: inTimeRange_all case_prod_beta)
  also have "\<dots> = hist" using enumerate_filter_const [of "\<lambda>x. True" 0 hist] by simp
  finally show ?thesis .
qed

lemma sorted_wrt_filterHistory:
  "sorted_wrt R hist \<Longrightarrow> sorted_wrt R (filterHistory rt tr cs ce now clk hist)"
  unfolding filterHistory_def by (rule enumerate_filter_sorted)

subsection \<open>The example records, evaluated\<close>

lemma mk_item_sel [simp]:
  "IdCountry (mk_item name r t) = name" "TeamName (mk_item name r t) = [name]"
  "Rank (mk_item name r t) = r" "TotalPoints (mk_item name r t) = 0"
  "PubDate (mk_item name r t) = t"
  by (simp_all add: mk_item_def)

lemma mk_item_eq [simp]:
  "mk_item name r t = mk_item name' r' t' \<longleftrightarrow> name = name' \<and> r = r' \<and> t = t'"
  by (auto simp: mk_item_def)

lemma locale_day_2024:
  "toLocaleDateString (runtime_enUS 0) (Some 1717200000000) = ''6/1/2024''"
  "toLocaleDateString (runtime_enUS 0) (Some 1704067200000) = ''1/1/2024''"
  by code_simp+

lemma iso_day_2024:
  "toISOString_date (Some 1717200000000) = Inr ''2024-06-01''"
  "toISOString_date (Some 1704067200000) = Inr ''2024-01-01''"
  by code_simp+

lemma parse_day_2024:
  "Date_parse (runtime_enUS 0) ''6/1/2024'' = Some 1717200000000"
  "Date_parse (runtime_enUS 0) ''1/1/2024'' = Some 1704067200000"
  "Date_parse (runtime_enUS 0) ''2024-06-01'' = Some 1717200000000"
  "Date_parse (runtime_enUS 0) ''2024-01-01'' = Some 1704067200000"
  by code_simp+

lemma usa_bra_chartLabels:
  "chartLabels (runtime_enUS 0) usa_bra_history = [''1/1/2024'', ''6/1/2024'']"
  by (simp add: chartLabels_def usa_bra_history_def obj_values_def chartKey_def locale_day_2024
        set_add_def array_sort_def sortCompare_def compareAsc_def parse_day_2024 number_minus_def)

lemma usa_bra_sortedDates:
  "sortedDates (runtime_enUS 0) usa_bra_history = Inr [''2024-06-01'', ''2024-01-01'']"
  by (simp add: sortedDates_def usa_bra_history_def obj_values_def exportKey_def iso_day_2024
        set_add_def array_sort_def sortCompare_def compareDateDesc_def parse_day_2024
        number_minus_def)

lemma usa_bra_filtered_all:
  "filteredHistoryData rt usa_bra_loaded now clk = usa_bra_history"
  by (simp add: filteredHistoryData_def usa_bra_loaded_def usa_bra_history_def filterHistory_all)

lemma locale_day_plus_one_hour:
  "toLocaleDateString (runtime_enUS 3600000) (Some 1717200000000) = ''6/1/2024''"
  "toLocaleDateString (runtime_enUS 3600000) (Some 1717198200000) = ''6/1/2024''"
  by code_simp+

lemma iso_day_2024_more:
  "toISOString_date (Some 1717198200000) = Inr ''2024-05-31''"
  "toISOString_date (Some 1717203600000) = Inr ''2024-06-01''"
  by code_simp+

lemma locale_day_2024_more:
  "toLocaleDateString (runtime_enUS 0) (Some 1717203600000) = ''6/1/2024''"
  by code_simp

lemma locale_day_enGB:
  "toLocaleDateString (runtime_enGB 0) (Some 1717200000000) = ''01/06/2024''"
  "toLocaleDateString (runtime_enGB 0) (Some 1707091200000) = ''05/02/2024''"
  by code_simp+

lemma parse_day_enGB:
  "Date_parse (runtime_enGB 0) ''01/06/2024'' = Some 1704499200000"
  "Date_parse (runtime_enGB 0) ''05/02/2024'' = Some 1714608000000"
  by code_simp+

lemma usa_same_day_sorted:
  "array_sort compareDesc
     [mk_item ''USA'' 5 (Some 1717200000000), mk_item ''USA'' 3 (Some 1717203600000)]
   = [mk_item ''USA'' 3 (Some 1717203600000), mk_item ''USA'' 5 (Some 1717200000000)]"
  by (simp add: array_sort_def sortCompare_def compareDesc_def number_minus_def)

lemma usa_same_day_fetched:
  "historyData (fetchRankings usa_same_day_api usa_selected) = usa_same_day_history"
  by (simp add: fetchRankings_def usa_selected_def usa_same_day_api_def fetchOne_def
        usa_same_day_sorted List.map_filter_simps usa_same_day_history_def Let_def)

subsection \<open>The calendar\<close>

lemma div_bracket:
  fixes x n :: int
  assumes "0 < n"
  shows "n * (x div n) \<le> x" and "x < n * (x div n) + n"
proof -
  have "x = n * (x div n) + x mod n" by simp
  moreover have "0 \<le> x mod n" "x mod n < n" using assms by simp_all
  ultimately show "n * (x div n) \<le> x" and "x < n * (x div n) + n" by linarith+
qed

lemma div_succ:
  fixes a n :: int
  assumes "0 < n"
  shows "(a + 1) div n = a div n + (if (a + 1) mod n = 0 then 1 else 0)"
proof -
  define q where "q = a div n"
  define r where "r = a mod n"
  have a: "a = n * q + r" and r: "0 \<le> r" "r < n"
    using assms by (simp_all add: q_def r_def)
  show ?thesis
  proof (cases "r + 1 = n")
    case True
    then have e: "a + 1 = n * (q + 1) + 0" using a by (simp add: algebra_simps)
    have "(a + 1) div n = q + 1" by (rule int_div_pos_eq [OF e]) (use assms in simp_all)
    moreover have "(a + 1) mod n = 0" by (rule int_mod_pos_eq [OF e]) (use assms in simp_all)
    ultimately show ?thesis by (simp add: q_def)
  next
    case False
    then have lt: "r + 1 < n" using r by simp
    have e: "a + 1 = n * q + (r + 1)" using a by simp
    have "(a + 1) div n = q" by (rule int_div_pos_eq [OF e]) (use r lt in simp_all)
    moreover have "(a + 1) mod n = r + 1" by (rule int_mod_pos_eq [OF e]) (use r lt in simp_all)
    ultimately show ?thesis using r by (simp add: q_def)
  qed
qed

lemma mod_shift:
  fixes y :: int
  shows "(y - 1968) mod 4 = y mod 4" "(y - 1900) mod 100 = y mod 100"
    "(y - 1600) mod 400 = y mod 400"
proof -
  have "y - 1968 = y + 4 * (- 492)" by simp
  then show "(y - 1968) mod 4 = y mod 4" by (metis mod_mult_self2)
  have "y - 1900 = y + 100 * (- 19)" by simp
  then show "(y - 1900) mod 100 = y mod 100" by (metis mod_mult_self2)
  have "y - 1600 = y + 400 * (- 4)" by simp
  then show "(y - 1600) mod 400 = y mod 400" by (metis mod_mult_self2)
qed

lemma mod_chain:
  fixes y :: int
  shows "y mod 400 = 0 \<Longrightarrow> y mod 100 = 0" and "y mod 100 = 0 \<Longrightarrow> y mod 4 = 0"
proof -
  assume "y mod 400 = 0"
  then have "400 dvd y" by (rule mod_0_imp_dvd)
  moreover have "(100::int) dvd 400" by simp
  ultimately have "100 dvd y" using dvd_trans by blast
  then show "y mod 100 = 0" by simp
next
  assume "y mod 100 = 0"
  then have "100 dvd y" by (rule mod_0_imp_dvd)
  moreover have "(4::int) dvd 100" by simp
  ultimately have "4 dvd y" using dvd_trans by blast
  then show "y mod 4 = 0" by simp
qed

lemma DayFromYear_Suc: "DayFromYear (y + 1) = DayFromYear y + DaysInYear y"
proof -
  have a: "(y + 1 - 1969) div 4 = (y - 1969) div 4 + (if y mod 4 = 0 then 1 else 0)"
    using div_succ [of 4 "y - 1969"] mod_shift(1) [of y] by (simp add: algebra_simps)
  have b: "(y + 1 - 1901) div 100 = (y - 1901) div 100 + (if y mod 100 = 0 then 1 else 0)"
    using div_succ [of 100 "y - 1901"] mod_shift(2) [of y] by (simp add: algebra_simps)
  have c: "(y + 1 - 1601) div 400 = (y - 1601) div 400 + (if y mod 400 = 0 then 1 else 0)"
    using div_succ [of 400 "y - 1601"] mod_shift(3) [of y] by (simp add: algebra_simps)
  show ?thesis
    unfolding DayFromYear_def a b c DaysInYear_def
    using mod_chain [of y] by auto
qed

lemma DayFromYear_bounds:
  "146097 * (y - 1970) - 506 \<le> 400 * DayFromYear y"
  "400 * DayFromYear y \<le> 146097 * (y - 1970) + 589"
proof -
  define a where "a = (y - 1969) div 4"
  define b where "b = (y - 1901) div 100"
  define c where "c = (y - 1601) div 400"
  have D: "DayFromYear y = 365 * (y - 1970) + a - b + c"
    by (simp add: DayFromYear_def a_def b_def c_def)
  have a: "4 * a \<le> y - 1969" "y - 1969 < 4 * a + 4"
    unfolding a_def by (rule div_bracket, simp)+
  have b: "100 * b \<le> y - 1901" "y - 1901 < 100 * b + 100"
    unfolding b_def by (rule div_bracket, simp)+
  have c: "400 * c \<le> y - 1601" "y - 1601 < 400 * c + 400"
    unfolding c_def by (rule div_bracket, simp)+
  show "146097 * (y - 1970) - 506 \<le> 400 * DayFromYear y"
    unfolding D using a b c by simp
  show "400 * DayFromYear y \<le> 146097 * (y - 1970) + 589"
    unfolding D using a b c by simp
qed

lemma DayFromYear_less: "y < z \<Longrightarrow> DayFromYear y < DayFromYear z"
  using DayFromYear_bounds(2) [of y] DayFromYear_bounds(1) [of z] by simp

lemma YearFromDay_bracket:
  "DayFromYear (YearFromDay d) \<le> d" "d < DayFromYear (YearFromDay d + 1)"
proof -
  define q where "q = (400 * d) div 146097"
  have q: "146097 * q \<le> 400 * d" "400 * d < 146097 * q + 146097"
    unfolding q_def by (rule div_bracket, simp)+
  have Y: "YearFromDay d = (if d < DayFromYear (1970 + q) then 1970 + q - 1
                            else if DayFromYear (1970 + q + 1) \<le> d then 1970 + q + 1 else 1970 + q)"
    by (simp add: YearFromDay_def q_def Let_def)
  have lo: "DayFromYear (1970 + q - 1) \<le> d"
    using DayFromYear_bounds(2) [of "1970 + q - 1"] q by simp
  have hi: "d < DayFromYear (1970 + q + 1 + 1)"
    using DayFromYear_bounds(1) [of "1970 + q + 1 + 1"] q by simp
  show "DayFromYear (YearFromDay d) \<le> d"
    unfolding Y using lo by auto
  show "d < DayFromYear (YearFromDay d + 1)"
    unfolding Y using hi by auto
qed

lemma YearFromDay_unique:
  assumes "DayFromYear y \<le> d" and "d < DayFromYear (y + 1)"
  shows "YearFromDay d = y"
proof (rule ccontr)
  assume n: "YearFromDay d \<noteq> y"
  show False
  proof (cases "YearFromDay d < y")
    case True
    then have "YearFromDay d + 1 \<le> y" by simp
    then have "DayFromYear (YearFromDay d + 1) \<le> DayFromYear y"
      using DayFromYear_less [of "YearFromDay d + 1" y] by (cases "YearFromDay d + 1 = y") auto
    with YearFromDay_bracket(2) [of d] assms(1) show False by simp
  next
    case False
    with n have "y + 1 \<le> YearFromDay d" by simp
    then have "DayFromYear (y + 1) \<le> DayFromYear (YearFromDay d)"
      using DayFromYear_less [of "y + 1" "YearFromDay d"] by (cases "y + 1 = YearFromDay d") auto
    with YearFromDay_bracket(1) [of d] assms(2) show False by simp
  qed
qed

lemma DayWithinYear_range:
  "0 \<le> DayWithinYear d" "DayWithinYear d < DaysInYear (YearFromDay d)"
  using YearFromDay_bracket [of d] DayFromYear_Suc [of "YearFromDay d"]
  by (simp_all add: DayWithinYear_def)

lemma DaysInYear_cases: "DaysInYear y = (if InLeapYear y then 366 else 365)"
  by (simp add: InLeapYear_def DaysInYear_def)

lemma MonthFromDay_range: "0 \<le> MonthFromDay d" "MonthFromDay d \<le> 11"
  by (simp_all add: MonthFromDay_def Let_def)

lemma month_cases:
  fixes m :: int
  assumes "0 \<le> m" and "m \<le> 11"
  shows "m = 0 \<or> m = 1 \<or> m = 2 \<or> m = 3 \<or> m = 4 \<or> m = 5 \<or> m = 6 \<or> m = 7 \<or> m = 8
         \<or> m = 9 \<or> m = 10 \<or> m = 11"
  using assms by presburger

lemma monthStart_step:
  assumes "0 \<le> m" and "m \<le> 11"
  shows "monthStart m l < monthStart (m + 1) l" and "0 \<le> monthStart m l"
    and "monthStart (m + 1) l \<le> (if l then 366 else 365)"
  using month_cases [OF assms] by (auto simp: monthStart_def)

lemma MonthFromDay_bracket:
  "monthStart (MonthFromDay d) (InLeapYear (YearFromDay d)) \<le> DayWithinYear d"
  "DayWithinYear d < monthStart (MonthFromDay d + 1) (InLeapYear (YearFromDay d))"
proof -
  define w where "w = DayWithinYear d"
  define l where "l = InLeapYear (YearFromDay d)"
  have w: "0 \<le> w" "w < (if l then 366 else 365)"
    using DayWithinYear_range [of d] by (simp_all add: w_def l_def DaysInYear_cases)
  have M: "MonthFromDay d =
     (if w < 31 then 0 else if w < 59 + (if l then 1 else 0) then 1
      else if w < 90 + (if l then 1 else 0) then 2
      else if w < 120 + (if l then 1 else 0) then 3 else if w < 151 + (if l then 1 else 0) then 4
      else if w < 181 + (if l then 1 else 0) then 5 else if w < 212 + (if l then 1 else 0) then 6
      else if w < 243 + (if l then 1 else 0) then 7 else if w < 273 + (if l then 1 else 0) then 8
      else if w < 304 + (if l then 1 else 0) then 9 else if w < 334 + (if l then 1 else 0) then 10
      else 11)"
    by (simp add: MonthFromDay_def Let_def w_def l_def)
  show "monthStart (MonthFromDay d) (InLeapYear (YearFromDay d)) \<le> DayWithinYear d"
    unfolding M w_def [symmetric] l_def [symmetric] using w
    by (cases l) (simp_all add: monthStart_def)
  show "DayWithinYear d < monthStart (MonthFromDay d + 1) (InLeapYear (YearFromDay d))"
    unfolding M w_def [symmetric] l_def [symmetric] using w
    by (cases l) (simp_all add: monthStart_def)
qed

lemma DateFromDay_range:
  "1 \<le> DateFromDay d"
  "DateFromDay d \<le> monthStart (MonthFromDay d + 1) (InLeapYear (YearFromDay d))
                    - monthStart (MonthFromDay d) (InLeapYear (YearFromDay d))"
  using MonthFromDay_bracket [of d] by (simp_all add: DateFromDay_def)

lemma MakeDay_in_year:
  assumes "0 \<le> m" and "m \<le> 11"
  shows "MakeDay y m dt = DayFromYear y + monthStart m (InLeapYear y) + dt - 1"
proof -
  have "m div 12 = 0" "m mod 12 = m" using assms by simp_all
  then show ?thesis by (simp add: MakeDay_def Let_def)
qed

lemma MakeDay_civil: "MakeDay (YearFromDay d) (MonthFromDay d) (DateFromDay d) = d"
  using MonthFromDay_range [of d]
  by (simp add: MakeDay_in_year DateFromDay_def DayWithinYear_def)

lemma civil_MakeDay:
  assumes m: "0 \<le> m" "m \<le> 11"
    and dt: "1 \<le> dt" "dt \<le> monthStart (m + 1) (InLeapYear y) - monthStart m (InLeapYear y)"
  shows "YearFromDay (MakeDay y m dt) = y"
    and "MonthFromDay (MakeDay y m dt) = m"
    and "DateFromDay (MakeDay y m dt) = dt"
proof -
  define l where "l = InLeapYear y"
  define x where "x = MakeDay y m dt"
  have x: "x = DayFromYear y + monthStart m l + dt - 1"
    unfolding x_def l_def by (rule MakeDay_in_year [OF m])
  have s: "0 \<le> monthStart m l" "monthStart (m + 1) l \<le> (if l then 366 else 365)"
    using monthStart_step [OF m, of l] by simp_all
  have "DayFromYear y \<le> x" using x s dt by simp
  moreover have "x < DayFromYear (y + 1)"
    using x s dt by (simp add: DayFromYear_Suc DaysInYear_cases l_def [symmetric] split: if_splits)
  ultimately show Y: "YearFromDay (MakeDay y m dt) = y"
    unfolding x_def [symmetric] by (rule YearFromDay_unique)
  have w: "DayWithinYear x = monthStart m l + dt - 1"
    using Y x by (simp add: DayWithinYear_def x_def)
  have lo: "monthStart m l \<le> DayWithinYear x" using w dt by simp
  have hi: "DayWithinYear x < monthStart (m + 1) l" using w dt by (simp add: l_def)
  have M: "MonthFromDay x =
     (if DayWithinYear x < 31 then 0 else if DayWithinYear x < 59 + (if l then 1 else 0) then 1
      else if DayWithinYear x < 90 + (if l then 1 else 0) then 2
      else if DayWithinYear x < 120 + (if l then 1 else 0) then 3
      else if DayWithinYear x < 151 + (if l then 1 else 0) then 4
      else if DayWithinYear x < 181 + (if l then 1 else 0) then 5
      else if DayWithinYear x < 212 + (if l then 1 else 0) then 6
      else if DayWithinYear x < 243 + (if l then 1 else 0) then 7
      else if DayWithinYear x < 273 + (if l then 1 else 0) then 8
      else if DayWithinYear x < 304 + (if l then 1 else 0) then 9
      else if DayWithinYear x < 334 + (if l then 1 else 0) then 10
      else 11)"
    using Y by (simp add: MonthFromDay_def Let_def l_def x_def)
  show Mo: "MonthFromDay (MakeDay y m dt) = m"
    unfolding x_def [symmetric] M
    using month_cases [OF m] lo hi
    by (cases l) (auto simp: monthStart_def)
  show "DateFromDay (MakeDay y m dt) = dt"
    using Y Mo w by (simp add: DateFromDay_def x_def l_def)
qed

subsection \<open>The calendar day a number of years before\<close>

lemma Day_MakeDate:
  assumes "0 \<le> tm" and "tm < msPerDay"
  shows "Day (MakeDate d tm) = d" and "TimeWithinDay (MakeDate d tm) = tm"
proof -
  have e: "MakeDate d tm = msPerDay * d + tm" by (simp add: MakeDate_def)
  have p: "0 < msPerDay" by (simp add: msPerDay_def)
  show "Day (MakeDate d tm) = d"
    unfolding Day_def by (rule int_div_pos_eq [OF e assms])
  show "TimeWithinDay (MakeDate d tm) = tm"
    unfolding TimeWithinDay_def by (rule int_mod_pos_eq [OF e assms])
qed

lemma TimeWithinDay_range: "0 \<le> TimeWithinDay t" "TimeWithinDay t < msPerDay"
  by (simp_all add: TimeWithinDay_def msPerDay_def)

lemma yearsBefore_calendar:
  assumes c: "yearsBefore rt now n = Some c"
    and e: "DateFromDay (Day (LocalTime rt now))
              \<le> monthStart (MonthFromDay (Day (LocalTime rt now)) + 1)
                           (InLeapYear (YearFromDay (Day (LocalTime rt now)) - n))
                 - monthStart (MonthFromDay (Day (LocalTime rt now)))
                              (InLeapYear (YearFromDay (Day (LocalTime rt now)) - n))"
  shows "YearFromDay (Day (LocalTime rt c)) = YearFromDay (Day (LocalTime rt now)) - n"
    and "MonthFromDay (Day (LocalTime rt c)) = MonthFromDay (Day (LocalTime rt now))"
    and "DateFromDay (Day (LocalTime rt c)) = DateFromDay (Day (LocalTime rt now))"
    and "TimeWithinDay (LocalTime rt c) = TimeWithinDay (LocalTime rt now)"
proof -
  define d where "d = Day (LocalTime rt now)"
  define x where "x = MakeDay (YearFromDay d - n) (MonthFromDay d) (DateFromDay d)"
  have "c = MakeDate x (TimeWithinDay (LocalTime rt now)) - LocalTZA rt"
    using c by (simp add: yearsBefore_def Let_def TimeClip_def d_def x_def split: if_splits)
  then have lc: "LocalTime rt c = MakeDate x (TimeWithinDay (LocalTime rt now))"
    by (simp add: LocalTime_def)
  have dc: "Day (LocalTime rt c) = x"
    unfolding lc by (rule Day_MakeDate(1) [OF TimeWithinDay_range])
  show "TimeWithinDay (LocalTime rt c) = TimeWithinDay (LocalTime rt now)"
    unfolding lc by (rule Day_MakeDate(2) [OF TimeWithinDay_range])
  note civ = civil_MakeDay [OF MonthFromDay_range DateFromDay_range(1) e [folded d_def],
                            folded x_def]
  show "YearFromDay (Day (LocalTime rt c)) = YearFromDay (Day (LocalTime rt now)) - n"
    unfolding dc d_def [symmetric] by (rule civ(1))
  show "MonthFromDay (Day (LocalTime rt c)) = MonthFromDay (Day (LocalTime rt now))"
    unfolding dc d_def [symmetric] by (rule civ(2))
  show "DateFromDay (Day (LocalTime rt c)) = DateFromDay (Day (LocalTime rt now))"
    unfolding dc d_def [symmetric] by (rule civ(3))
qed

subsection \<open>Sorting with a comparator that follows a key\<close>

lemma insert_by_key:
  assumes "\<forall>y \<in> set ys. sortCompare cmp (f x) (f y) \<le> 0 \<longleftrightarrow> k x \<le> k y"
  shows "insert_by cmp (f x) (map f ys) = map f (insort_key k x ys)"
  using assms by (induction ys) simp_all

lemma array_sort_key:
  fixes k :: "'a \<Rightarrow> 'k::linorder"
  assumes "\<forall>x \<in> set xs. \<forall>y \<in> set xs. sortCompare cmp (f x) (f y) \<le> 0 \<longleftrightarrow> k x \<le> k y"
  shows "array_sort cmp (map f xs) = map f (sort_key k xs)"
  using assms
proof (induction xs)
  case Nil
  then show ?case by (simp add: array_sort_def)
next
  case (Cons x xs)
  have IH: "array_sort cmp (map f xs) = map f (sort_key k xs)"
    using Cons by simp
  have "\<forall>y \<in> set (sort_key k xs). sortCompare cmp (f x) (f y) \<le> 0 \<longleftrightarrow> k x \<le> k y"
    using Cons.prems by simp
  from insert_by_key [OF this] IH show ?case
    by (simp add: array_sort_def sort_key_def)
qed

lemma sorted_wrt_sort_key_distinct:
  fixes k :: "'a \<Rightarrow> 'k::linorder"
  assumes "distinct (map k xs)"
  shows "sorted_wrt (\<lambda>a b. k a < k b) (sort_key k xs)"
proof -
  have s: "sorted (map k (sort_key k xs))" by simp
  have "mset (map k (sort_key k xs)) = mset (map k xs)" by simp
  then have d: "distinct (map k (sort_key k xs))"
    using assms mset_eq_imp_distinct_iff by blast
  from s d have "sorted_wrt (<) (map k (sort_key k xs))"
    by (simp add: strict_sorted_iff)
  then show ?thesis by (simp add: sorted_wrt_map)
qed

lemma fold_set_add_map:
  assumes "inj_on f (set xs \<union> set acc)"
  shows "fold set_add (map f xs) (map f acc) = map f (fold set_add xs acc)"
  using assms
proof (induction xs arbitrary: acc)
  case Nil
  then show ?case by simp
next
  case (Cons x xs)
  have i: "f x \<in> f ` set acc \<longleftrightarrow> x \<in> set acc"
    using Cons.prems by (auto simp: inj_on_def)
  have s: "set_add (f x) (map f acc) = map f (set_add x acc)"
    by (simp add: set_add_def i)
  have "inj_on f (set xs \<union> set (set_add x acc))"
    using Cons.prems by (auto simp: set_add_def inj_on_def)
  from Cons.IH [OF this] s show ?case by simp
qed

subsection \<open>ISO dates are read back exactly\<close>

lemma length_pad: "length (pad w n) = w"
  by (induction w arbitrary: n) simp_all

lemma digits_acc_snoc:
  "digits_acc a (xs @ [c]) =
     (case digits_acc a xs of
        None \<Rightarrow> None
      | Some v \<Rightarrow> (case digit_val c of None \<Rightarrow> None | Some u \<Rightarrow> Some (10 * v + u)))"
  by (induction xs arbitrary: a) (simp_all split: option.splits)

lemma digit_val_mod: "digit_val (digit_char (n mod 10)) = Some (n mod 10)"
  by (simp add: digit_val_def digit_char_def Let_def)

lemma digits_acc_pad: "digits_acc a (pad w n) = Some (a * 10 ^ w + n mod 10 ^ w)"
proof (induction w arbitrary: n)
  case 0
  then show ?case by simp
next
  case (Suc w)
  have "n mod (10 * 10 ^ w) = 10 * (n div 10 mod 10 ^ w) + n mod 10"
    by (rule mod_mult2_eq)
  then show ?case
    by (simp add: digits_acc_snoc Suc digit_val_mod algebra_simps)
qed

lemma parse_digits_pad:
  assumes "0 < w" and "n < 10 ^ w"
  shows "parse_digits (pad w n) = Some n"
proof -
  have "pad w n \<noteq> []" using assms(1) length_pad [of w n] by auto
  then show ?thesis using assms(2) by (simp add: parse_digits_def digits_acc_pad)
qed

lemma YearFromDay_range:
  assumes "- 100000000 \<le> d" and "d \<le> 100000000"
  shows "- 999999 \<le> YearFromDay d" and "YearFromDay d \<le> 999999"
proof -
  define y where "y = YearFromDay d"
  have b: "DayFromYear y \<le> d" "d < DayFromYear (y + 1)"
    unfolding y_def by (rule YearFromDay_bracket)+
  show "YearFromDay d \<le> 999999"
    unfolding y_def [symmetric]
    using DayFromYear_bounds(1) [of y] b(1) assms(2) by simp
  show "- 999999 \<le> YearFromDay d"
    unfolding y_def [symmetric]
    using DayFromYear_bounds(2) [of "y + 1"] b(2) assms(1) by simp
qed

lemma iso_fields_civil:
  assumes "- 999999 \<le> YearFromDay d" and "YearFromDay d \<le> 999999"
    and "ys = pad w (nat \<bar>YearFromDay d\<bar>)" and "w = 4 \<or> w = 6"
    and "w = 4 \<longrightarrow> 0 \<le> YearFromDay d \<and> YearFromDay d \<le> 9999"
    and "neg \<longleftrightarrow> YearFromDay d < 0"
  shows "iso_fields neg ys (pad 2 (nat (MonthFromDay d + 1))) (pad 2 (nat (DateFromDay d))) = Some d"
proof -
  define y where "y = YearFromDay d"
  define m where "m = MonthFromDay d"
  define dt where "dt = DateFromDay d"
  have m: "0 \<le> m" "m \<le> 11" unfolding m_def by (rule MonthFromDay_range)+
  have dt: "1 \<le> dt" "dt \<le> monthStart (m + 1) (InLeapYear y) - monthStart m (InLeapYear y)"
    unfolding dt_def m_def y_def by (rule DateFromDay_range)+
  have "monthStart (m + 1) (InLeapYear y) - monthStart m (InLeapYear y) \<le> 31"
    using month_cases [OF m] by (auto simp: monthStart_def)
  with dt have dt31: "dt \<le> 31" by simp
  have "nat \<bar>y\<bar> < 10 ^ w"
    using assms(1,2,4,5) by (auto simp: y_def)
  moreover have "0 < w" using assms(4) by auto
  ultimately have py: "parse_digits ys = Some (nat \<bar>y\<bar>)"
    unfolding assms(3) y_def [symmetric] by (intro parse_digits_pad)
  have pm: "parse_digits (pad 2 (nat (m + 1))) = Some (nat (m + 1))"
    using m by (intro parse_digits_pad) simp_all
  have pd: "parse_digits (pad 2 (nat dt)) = Some (nat dt)"
    using dt dt31 by (intro parse_digits_pad) simp_all
  have yr: "(if neg then - int (nat \<bar>y\<bar>) else int (nat \<bar>y\<bar>)) = y"
    using assms(6) by (simp add: y_def)
  have nz: "\<not> (neg \<and> nat \<bar>y\<bar> = 0)" using assms(6) by (auto simp: y_def)
  have mk: "MakeDay y m dt = d"
    unfolding y_def m_def dt_def by (rule MakeDay_civil)
  have chk: "1 \<le> nat (m + 1)" "nat (m + 1) \<le> 12" "1 \<le> nat dt"
    "int (nat dt) \<le> monthStart (int (nat (m + 1))) (InLeapYear y)
                     - monthStart (int (nat (m + 1)) - 1) (InLeapYear y)"
    using m dt by simp_all
  have "int (nat (m + 1)) - 1 = m" "int (nat dt) = dt" using m dt by simp_all
  then show ?thesis
    unfolding iso_fields_def y_def [symmetric] m_def [symmetric] dt_def [symmetric] py pm pd
    using yr nz chk mk by (simp add: Let_def)
qed

lemma parse_iso_date_isoDateString:
  assumes "- 100000000 \<le> d" and "d \<le> 100000000"
  shows "parse_iso_date (isoDateString d) = Some d"
proof -
  define y where "y = YearFromDay d"
  define M where "M = pad 2 (nat (MonthFromDay d + 1))"
  define D where "D = pad 2 (nat (DateFromDay d))"
  have r: "- 999999 \<le> YearFromDay d" "YearFromDay d \<le> 999999"
    by (rule YearFromDay_range [OF assms])+
  have lM: "length M = 2" and lD: "length D = 2" by (simp_all add: M_def D_def length_pad)
  show ?thesis
  proof (cases "0 \<le> y \<and> y \<le> 9999")
    case True
    define Y where "Y = pad 4 (nat \<bar>y\<bar>)"
    have lY: "length Y = 4" by (simp add: Y_def length_pad)
    have c: "(0 \<le> YearFromDay d \<and> YearFromDay d \<le> 9999) = True"
      using True by (simp add: y_def)
    have "nat \<bar>y\<bar> = nat y" using True by simp
    then have s: "isoDateString d = Y @ CHR ''-'' # M @ CHR ''-'' # D"
      unfolding isoDateString_def isoYear_def c
      by (simp add: y_def Y_def M_def D_def)
    have f: "iso_fields False Y M D = Some d"
      unfolding M_def D_def
      by (rule iso_fields_civil [OF r, of Y 4]) (use True in \<open>simp_all add: Y_def y_def\<close>)
    show ?thesis
      unfolding s parse_iso_date_def using f lY lM lD
      by (simp add: nth_append)
  next
    case False
    define Y where "Y = pad 6 (nat \<bar>y\<bar>)"
    define sg where "sg = (if y < 0 then CHR ''-'' else CHR ''+'')"
    have lY: "length Y = 6" by (simp add: Y_def length_pad)
    have c: "(0 \<le> YearFromDay d \<and> YearFromDay d \<le> 9999) = False"
      using False by (simp add: y_def)
    have s: "isoDateString d = sg # Y @ CHR ''-'' # M @ CHR ''-'' # D"
      unfolding isoDateString_def isoYear_def c
      by (simp add: y_def Y_def M_def D_def sg_def)
    have f: "iso_fields (y < 0) Y M D = Some d"
      unfolding M_def D_def
      by (rule iso_fields_civil [OF r, of Y 6]) (simp_all add: Y_def y_def)
    have g: "(sg = CHR ''-'') = (y < 0)" "sg = CHR ''+'' \<or> sg = CHR ''-''"
      by (simp_all add: sg_def)
    show ?thesis
      unfolding s parse_iso_date_def using f lY lM lD g
      by (simp add: nth_append)
  qed
qed

lemma Day_valid:
  assumes "\<bar>t\<bar> \<le> 8640000000000000"
  shows "- 100000000 \<le> Day t" and "Day t \<le> 100000000"
proof -
  have b: "86400000 * (t div 86400000) \<le> t" "t < 86400000 * (t div 86400000) + 86400000"
    by (rule div_bracket, simp)+
  show "- 100000000 \<le> Day t" using b assms by (simp add: Day_def msPerDay_def)
  show "Day t \<le> 100000000" using b assms by (simp add: Day_def msPerDay_def)
qed

lemma Date_parse_isoDateString:
  assumes "- 100000000 \<le> d" and "d \<le> 100000000"
  shows "Date_parse rt (isoDateString d) = Some (d * msPerDay)"
  using assms
  by (simp add: Date_parse_def parse_iso_date_isoDateString MakeDate_def TimeClip_def msPerDay_def)

subsection \<open>The order of the two axes\<close>

lemma isoDateString_inj:
  assumes "- 100000000 \<le> a" "a \<le> 100000000" "- 100000000 \<le> b" "b \<le> 100000000"
    and "isoDateString a = isoDateString b"
  shows "a = b"
proof -
  have "Some a = parse_iso_date (isoDateString a)"
    by (simp only: parse_iso_date_isoDateString [OF assms(1,2)])
  also have "\<dots> = parse_iso_date (isoDateString b)" by (simp only: assms(5))
  also have "\<dots> = Some b" by (rule parse_iso_date_isoDateString [OF assms(3,4)])
  finally show ?thesis by (simp only: option.inject)
qed

lemma valid_time_Day:
  assumes "valid_time (PubDate x)"
  shows "PubDate x \<noteq> None" and "- 100000000 \<le> Day (the (PubDate x))"
    and "Day (the (PubDate x)) \<le> 100000000"
proof -
  from assms obtain t where t: "PubDate x = Some t" "\<bar>t\<bar> \<le> 8640000000000000"
    by (auto simp: valid_time_def split: option.splits)
  show "PubDate x \<noteq> None" using t by simp
  show "- 100000000 \<le> Day (the (PubDate x))" using Day_valid(1) [OF t(2)] t(1) by simp
  show "Day (the (PubDate x)) \<le> 100000000" using Day_valid(2) [OF t(2)] t(1) by simp
qed

lemma export_dates_decreasing:
  assumes v: "\<forall>x \<in> set (concat (obj_values hm)). valid_time (PubDate x)"
  shows "\<exists>days. sortedDates rt hm = Inr (map isoDateString days) \<and> sorted_wrt (>) days
           \<and> set days = (\<lambda>x. Day (the (PubDate x))) ` set (concat (obj_values hm))"
proof -
  define items where "items = concat (obj_values hm)"
  define ds0 where "ds0 = map (\<lambda>x. Day (the (PubDate x))) items"
  define u where "u = fold set_add ds0 []"
  define days where "days = sort_key uminus u"
  have rng: "\<And>d. d \<in> set ds0 \<Longrightarrow> - 100000000 \<le> d \<and> d \<le> 100000000"
    using v valid_time_Day(2,3) by (auto simp: ds0_def items_def)
  have some: "\<forall>x \<in> set items. PubDate x \<noteq> None"
    using v valid_time_Day(1) by (auto simp: items_def)
  have inj: "inj_on isoDateString (set ds0 \<union> set [])"
    using rng isoDateString_inj by (auto simp: inj_on_def)
  have c: "collectDates items [] = Inr (map isoDateString u)"
    using collectDates_valid [OF some, of "[]"] fold_set_add_map [OF inj]
    by (simp add: u_def ds0_def comp_def)
  have su: "set u = set ds0" and du: "distinct u"
    by (simp_all add: u_def set_fold_set_add distinct_fold_set_add)
  have cmp: "\<forall>x \<in> set u. \<forall>y \<in> set u.
               sortCompare (compareDateDesc rt) (isoDateString x) (isoDateString y) \<le> 0
                 \<longleftrightarrow> - x \<le> - y"
  proof (intro ballI)
    fix x y assume "x \<in> set u" "y \<in> set u"
    then have x: "- 100000000 \<le> x \<and> x \<le> 100000000" and y: "- 100000000 \<le> y \<and> y \<le> 100000000"
      using rng su by auto
    have "Date_parse rt (isoDateString x) = Some (x * msPerDay)"
         "Date_parse rt (isoDateString y) = Some (y * msPerDay)"
      using x y by (simp_all add: Date_parse_isoDateString)
    then show "sortCompare (compareDateDesc rt) (isoDateString x) (isoDateString y) \<le> 0
                 \<longleftrightarrow> - x \<le> - y"
      by (simp add: sortCompare_def compareDateDesc_def number_minus_def msPerDay_def)
  qed
  have s: "sortedDates rt hm = Inr (map isoDateString days)"
    using c array_sort_key [OF cmp] by (simp add: sortedDates_def items_def days_def)
  have "distinct (map uminus u)" using du by (simp add: distinct_map inj_on_def)
  from sorted_wrt_sort_key_distinct [OF this]
  have o: "sorted_wrt (>) days"
    by (simp add: days_def)
  have "set days = (\<lambda>x. Day (the (PubDate x))) ` set (concat (obj_values hm))"
    by (simp add: days_def su ds0_def items_def)
  with s o show ?thesis by blast
qed

lemma chartKey_dayLabel: "PubDate x \<noteq> None \<Longrightarrow> chartKey rt x = dayLabel rt (localDay rt x)"
  by (auto simp: chartKey_def toLocaleDateString_def dayLabel_def localDay_def Let_def)

lemma chart_labels_increasing:
  assumes v: "\<forall>x \<in> set (concat (obj_values filtered)). PubDate x \<noteq> None"
    and p: "\<forall>x \<in> set (concat (obj_values filtered)). \<forall>y \<in> set (concat (obj_values filtered)).
              localDay rt x < localDay rt y \<longrightarrow>
                (\<exists>a b. Date_parse rt (chartKey rt x) = Some a
                        \<and> Date_parse rt (chartKey rt y) = Some b \<and> a < b)"
  shows "\<exists>days. chartLabels rt filtered = map (dayLabel rt) days \<and> sorted_wrt (<) days
           \<and> set days = localDay rt ` set (concat (obj_values filtered))"
proof -
  define items where "items = concat (obj_values filtered)"
  define ds0 where "ds0 = map (localDay rt) items"
  define u where "u = fold set_add ds0 []"
  define days where "days = sort_key (\<lambda>d. d) u"
  have v': "\<forall>x \<in> set items. PubDate x \<noteq> None"
    using v by (simp only: items_def)
  have p': "\<forall>x \<in> set items. \<forall>y \<in> set items.
              localDay rt x < localDay rt y \<longrightarrow>
                (\<exists>a b. Date_parse rt (chartKey rt x) = Some a
                        \<and> Date_parse rt (chartKey rt y) = Some b \<and> a < b)"
    using p by (simp only: items_def)
  have "map (chartKey rt) items = map (\<lambda>x. dayLabel rt (localDay rt x)) items"
  proof (rule map_cong [OF refl])
    fix x assume "x \<in> set items"
    then have "PubDate x \<noteq> None" using v' by blast
    then show "chartKey rt x = dayLabel rt (localDay rt x)" by (rule chartKey_dayLabel)
  qed
  then have keys: "map (chartKey rt) items = map (dayLabel rt) ds0"
    by (simp add: ds0_def comp_def)
  have lt: "\<exists>a b. Date_parse rt (dayLabel rt d) = Some a \<and> Date_parse rt (dayLabel rt e) = Some b
                    \<and> a < b"
    if "d \<in> set ds0" "e \<in> set ds0" "d < e" for d e
  proof -
    from that obtain x y where x: "x \<in> set items" "d = localDay rt x"
      and y: "y \<in> set items" "e = localDay rt y"
      by (auto simp: ds0_def)
    from p' x y that(3) have "\<exists>a b. Date_parse rt (chartKey rt x) = Some a
                        \<and> Date_parse rt (chartKey rt y) = Some b \<and> a < b"
      by blast
    moreover have "chartKey rt x = dayLabel rt d" "chartKey rt y = dayLabel rt e"
      using v' x y chartKey_dayLabel by blast+
    ultimately show ?thesis by simp
  qed
  have ne: "dayLabel rt d \<noteq> dayLabel rt e" if "d \<in> set ds0" "e \<in> set ds0" "d < e" for d e
    using lt [OF that] by auto
  have inj: "inj_on (dayLabel rt) (set ds0 \<union> set [])"
  proof (rule inj_onI)
    fix d e assume de: "d \<in> set ds0 \<union> set []" "e \<in> set ds0 \<union> set []"
      and eq: "dayLabel rt d = dayLabel rt e"
    show "d = e"
    proof (rule ccontr)
      assume "d \<noteq> e"
      then consider "d < e" | "e < d" by linarith
      then show False
      proof cases
        case 1
        with ne [of d e] de eq show False by simp
      next
        case 2
        with ne [of e d] de eq show False by simp
      qed
    qed
  qed
  have su: "set u = set ds0" and du: "distinct u"
    by (simp_all add: u_def set_fold_set_add distinct_fold_set_add)
  have cmp: "\<forall>d \<in> set u. \<forall>e \<in> set u.
               sortCompare (compareAsc rt) (dayLabel rt d) (dayLabel rt e) \<le> 0 \<longleftrightarrow> d \<le> e"
  proof (intro ballI)
    fix d e assume de: "d \<in> set u" "e \<in> set u"
    consider "d < e" | "e < d" | "d = e" by linarith
    then show "sortCompare (compareAsc rt) (dayLabel rt d) (dayLabel rt e) \<le> 0 \<longleftrightarrow> d \<le> e"
    proof cases
      case 1
      from lt [of d e] de 1 su obtain a b where
        "Date_parse rt (dayLabel rt d) = Some a" "Date_parse rt (dayLabel rt e) = Some b" "a < b"
        by auto
      with 1 show ?thesis by (simp add: sortCompare_def compareAsc_def number_minus_def)
    next
      case 2
      from lt [of e d] de 2 su obtain a b where
        "Date_parse rt (dayLabel rt e) = Some a" "Date_parse rt (dayLabel rt d) = Some b" "a < b"
        by auto
      with 2 show ?thesis by (simp add: sortCompare_def compareAsc_def number_minus_def)
    next
      case 3
      then show ?thesis
        by (simp add: sortCompare_def compareAsc_def number_minus_def split: option.splits)
    qed
  qed
  have "chartLabels rt filtered = array_sort (compareAsc rt) (map (dayLabel rt) u)"
    using fold_set_add_map [OF inj] keys
    by (simp add: chartLabels_def Let_def items_def [symmetric] u_def)
  then have s: "chartLabels rt filtered = map (dayLabel rt) days"
    using array_sort_key [OF cmp] by (simp add: days_def)
  have "distinct (map (\<lambda>d. d) u)" using du by simp
  from sorted_wrt_sort_key_distinct [OF this]
  have o: "sorted_wrt (<) days" by (simp add: days_def)
  have "set days = localDay rt ` set (concat (obj_values filtered))"
    by (simp add: days_def su ds0_def items_def)
  with s o show ?thesis by blast
qed

subsection \<open>Which record of a day is read\<close>

lemma stored_history_sorted:
  assumes "\<forall>x \<in> set rs. PubDate x \<noteq> None"
  shows "sorted_wrt (\<lambda>a b. timeOf b \<le> timeOf a) (array_sort compareDesc rs)"
proof -
  have cmp: "\<forall>x \<in> set rs. \<forall>y \<in> set rs.
               sortCompare compareDesc ((\<lambda>x. x) x) ((\<lambda>x. x) y) \<le> 0
                 \<longleftrightarrow> - timeOf x \<le> - timeOf y"
  proof (intro ballI)
    fix x y assume "x \<in> set rs" "y \<in> set rs"
    with assms have "PubDate x \<noteq> None" "PubDate y \<noteq> None" by blast+
    then obtain t u where "PubDate x = Some t" "PubDate y = Some u" by auto
    then show "sortCompare compareDesc ((\<lambda>x. x) x) ((\<lambda>x. x) y) \<le> 0
                 \<longleftrightarrow> - timeOf x \<le> - timeOf y"
      by (simp add: sortCompare_def compareDesc_def number_minus_def timeOf_def)
  qed
  have "array_sort compareDesc (map (\<lambda>x. x) rs) = map (\<lambda>x. x) (sort_key (\<lambda>x. - timeOf x) rs)"
    by (rule array_sort_key [OF cmp])
  then have e: "array_sort compareDesc rs = sort_key (\<lambda>x. - timeOf x) rs" by simp
  have "sorted_wrt (\<lambda>a b. - timeOf a \<le> - timeOf b) (sort_key (\<lambda>x. - timeOf x) rs)"
    using sorted_sort_key [of "\<lambda>x. - timeOf x" rs] by (simp only: sorted_wrt_map)
  then show ?thesis unfolding e by simp
qed

lemma sorted_wrt_filter_desc:
  "sorted_wrt R xs \<Longrightarrow> sorted_wrt R (filter P xs)"
  by (induction xs) auto

lemma find_reads_latest:
  assumes "sorted_wrt (\<lambda>a b. timeOf b \<le> timeOf a) hist" and "find P hist = Some x"
  shows "x \<in> set hist \<and> P x \<and> (\<forall>y \<in> set hist. P y \<longrightarrow> timeOf y \<le> timeOf x)"
  using assms
proof (induction hist)
  case Nil
  then show ?case by simp
next
  case (Cons h hist)
  show ?case
  proof (cases "P h")
    case True
    with Cons.prems show ?thesis by auto
  next
    case False
    with Cons show ?thesis by auto
  qed
qed

lemma Map_reads_earliest:
  assumes "sorted_wrt (\<lambda>a b. timeOf b \<le> timeOf a) hist"
    and "Map_of_entries (map (\<lambda>h. (kf h, vf h)) hist) key = Some v"
  shows "\<exists>x \<in> set hist. kf x = key \<and> vf x = v
           \<and> (\<forall>y \<in> set hist. kf y = key \<longrightarrow> timeOf x \<le> timeOf y)"
  using assms
proof (induction hist rule: rev_induct)
  case Nil
  then show ?case by (simp add: Map_of_entries_def)
next
  case (snoc h hist)
  have s: "sorted_wrt (\<lambda>a b. timeOf b \<le> timeOf a) hist"
    and l: "\<forall>y \<in> set hist. timeOf h \<le> timeOf y"
    using snoc.prems(1) by (auto simp: sorted_wrt_append)
  show ?case
  proof (cases "kf h = key")
    case True
    with snoc.prems(2) have "vf h = v" by (simp add: Map_of_entries_def)
    with True l show ?thesis by auto
  next
    case False
    with snoc.prems(2) have "Map_of_entries (map (\<lambda>h. (kf h, vf h)) hist) key = Some v"
      by (simp add: Map_of_entries_def)
    from snoc.IH [OF s this] False show ?thesis by auto
  qed
qed

section \<open>Facts about the dashboard\<close>

subsection \<open>What \<open>fetchRankings\<close> stores\<close>

lemma Promise_all_rejects:
  "Inl () \<in> set ps \<Longrightarrow> Promise_all ps = Inl ()"
proof (induction ps)
  case Nil
  then show ?case by simp
next
  case (Cons p ps)
  show ?case
  proof (cases p)
    case (Inl u)
    then show ?thesis by simp
  next
    case (Inr v)
    with Cons show ?thesis by simp
  qed
qed

lemma Promise_all_resolves:
  "Inl () \<notin> set (map g xs) \<Longrightarrow> Promise_all (map g xs) = Inr (map (\<lambda>x. projr (g x)) xs)"
proof (induction xs)
  case Nil
  then show ?case by simp
next
  case (Cons x xs)
  then obtain v where v: "g x = Inr v" by (cases "g x") auto
  with Cons show ?case by simp
qed

lemma fetchOne_rejected:
  "fetchOne api g f c = Inl () \<longleftrightarrow> api c g f = Rejected"
  by (auto simp: fetchOne_def Let_def split: fetched.splits option.splits list.splits)

lemma fetchOne_null:
  assumes "api c g f \<noteq> Rejected" and "\<not> has_rankings api g f c"
  shows "fetchOne api g f c = Inr None"
  using assms
  by (auto simp: fetchOne_def has_rankings_def array_sort_def split: fetched.splits option.splits)

lemma fetchOne_item:
  assumes "api c g f = Resolved (Some rs)" and "rs \<noteq> []"
  shows "fetchOne api g f c
           = Inr (Some
               \<lparr>result =
                  \<lparr>countryCode = c,
                   countryName = first_description (array_sort compareDesc rs ! 0) c,
                   rank = Rank (array_sort compareDesc rs ! 0),
                   previousRank = Rank (if 1 < length (array_sort compareDesc rs)
                                        then array_sort compareDesc rs ! 1
                                        else array_sort compareDesc rs ! 0),
                   points = TotalPoints (array_sort compareDesc rs ! 0),
                   date = PubDate (array_sort compareDesc rs ! 0),
                   gender = (if g = ''1'' then ''Men'' else ''Women'')\<rparr>,
                history = array_sort compareDesc rs,
                code = c\<rparr>)"
proof -
  obtain y ys where s: "array_sort compareDesc rs = y # ys"
    using assms(2) array_sort_Nil_iff [of compareDesc rs] by (cases "array_sort compareDesc rs") auto
  show ?thesis
  proof (cases ys)
    case Nil
    with assms(1) s show ?thesis by (simp add: fetchOne_def Let_def)
  next
    case (Cons z zs)
    with assms(1) s show ?thesis by (simp add: fetchOne_def Let_def)
  qed
qed

lemma has_rankings_D:
  "has_rankings api g f c \<Longrightarrow> \<exists>rs. api c g f = Resolved (Some rs) \<and> rs \<noteq> []"
  by (auto simp: has_rankings_def split: fetched.splits option.splits)

lemma snapshot_of_item:
  assumes "api c g f = Resolved (Some rs)" and "rs \<noteq> []"
  shows "code (snapshot_of api g f c) = c"
    and "history (snapshot_of api g f c) = array_sort compareDesc rs"
    and "result (snapshot_of api g f c)
           = \<lparr>countryCode = c,
              countryName = first_description (array_sort compareDesc rs ! 0) c,
              rank = Rank (array_sort compareDesc rs ! 0),
              previousRank = Rank (if 1 < length (array_sort compareDesc rs)
                                   then array_sort compareDesc rs ! 1
                                   else array_sort compareDesc rs ! 0),
              points = TotalPoints (array_sort compareDesc rs ! 0),
              date = PubDate (array_sort compareDesc rs ! 0),
              gender = (if g = ''1'' then ''Men'' else ''Women'')\<rparr>"
  unfolding snapshot_of_def
    fetchOne_item [where api = api and c = c and g = g and f = f and rs = rs, OF assms]
  by simp_all

lemma map_filter_settled:
  assumes "\<forall>c \<in> set cs. api c g f \<noteq> Rejected"
  shows "List.map_filter id (map (\<lambda>c. projr (fetchOne api g f c)) cs)
           = map (snapshot_of api g f) (filter (has_rankings api g f) cs)"
  using assms
proof (induction cs)
  case Nil
  then show ?case by (simp add: List.map_filter_simps)
next
  case (Cons c cs)
  show ?case
  proof (cases "has_rankings api g f c")
    case True
    then obtain rs where rs: "api c g f = Resolved (Some rs)" "rs \<noteq> []"
      using has_rankings_D by blast
    have "\<exists>fi. fetchOne api g f c = Inr (Some fi)"
      unfolding fetchOne_item [where api = api and c = c and g = g and f = f and rs = rs, OF rs]
      by simp
    then obtain fi where "fetchOne api g f c = Inr (Some fi)" by blast
    with True Cons show ?thesis by (simp add: List.map_filter_simps snapshot_of_def)
  next
    case False
    with Cons.prems have "fetchOne api g f c = Inr None" by (simp add: fetchOne_null)
    with False Cons show ?thesis by (simp add: List.map_filter_simps)
  qed
qed

lemma fetchRankings_rejected:
  assumes "selectedCountries st \<noteq> []"
    and "\<exists>c \<in> set (selectedCountries st). api c (genderSignal st) (footballType st) = Rejected"
  shows "results (fetchRankings api st) = []" and "historyData (fetchRankings api st) = []"
proof -
  from assms(2) obtain c where c: "c \<in> set (selectedCountries st)"
      "fetchOne api (genderSignal st) (footballType st) c = Inl ()"
    by (auto simp: fetchOne_rejected)
  then have "Inl () \<in> set (map (fetchOne api (genderSignal st) (footballType st))
                               (selectedCountries st))"
    by (metis image_eqI list.set_map)
  then have p: "Promise_all (map (fetchOne api (genderSignal st) (footballType st))
                               (selectedCountries st)) = Inl ()"
    by (rule Promise_all_rejects)
  show "results (fetchRankings api st) = []" and "historyData (fetchRankings api st) = []"
    using assms(1) p by (simp_all add: fetchRankings_def Let_def)
qed

lemma fetchRankings_resolved:
  assumes "selectedCountries st \<noteq> []" and "distinct (selectedCountries st)"
    and "\<forall>c \<in> set (selectedCountries st). api c (genderSignal st) (footballType st) \<noteq> Rejected"
  shows "results (fetchRankings api st)
           = map (\<lambda>c. result (snapshot_of api (genderSignal st) (footballType st) c))
                 (filter (has_rankings api (genderSignal st) (footballType st))
                         (selectedCountries st))"
    and "historyData (fetchRankings api st)
           = map (\<lambda>c. (c, history (snapshot_of api (genderSignal st) (footballType st) c)))
                 (filter (has_rankings api (genderSignal st) (footballType st))
                         (selectedCountries st))"
proof -
  define g where "g = genderSignal st"
  define f where "f = footballType st"
  define sel where "sel = selectedCountries st"
  define ok where "ok = filter (has_rankings api g f) sel"
  have ne: "length sel \<noteq> 0" using assms(1) by (simp add: sel_def)
  have none: "\<forall>c \<in> set sel. api c g f \<noteq> Rejected"
    using assms(3) by (simp add: g_def f_def sel_def)
  then have "Inl () \<notin> set (map (fetchOne api g f) sel)"
    by (auto dest: sym simp: fetchOne_rejected)
  then have pa: "Promise_all (map (fetchOne api g f) sel)
                   = Inr (map (\<lambda>c. projr (fetchOne api g f c)) sel)"
    by (rule Promise_all_resolves)
  have fd: "List.map_filter id (map (\<lambda>c. projr (fetchOne api g f c)) sel)
              = map (snapshot_of api g f) ok"
    unfolding ok_def
    using map_filter_settled [where cs = sel and api = api and g = g and f = f] none by simp
  have okD: "\<And>c. c \<in> set ok \<Longrightarrow> \<exists>rs. api c g f = Resolved (Some rs) \<and> rs \<noteq> []"
    by (simp add: ok_def has_rankings_D)
  have code: "\<And>c. c \<in> set ok \<Longrightarrow> code (snapshot_of api g f c) = c"
  proof -
    fix c assume "c \<in> set ok"
    from okD [OF this] obtain rs where "api c g f = Resolved (Some rs)" "rs \<noteq> []" by blast
    then show "code (snapshot_of api g f c) = c"
      using snapshot_of_item(1) [where api = api and c = c and g = g and f = f and rs = rs]
      by simp
  qed
  have codes: "map (\<lambda>x. code (snapshot_of api g f x)) ok = ok"
    by (rule map_idI) (rule code)
  have dok: "distinct ok" using assms(2) by (simp add: ok_def sel_def)
  have res: "results (fetchRankings api st) = map result (map (snapshot_of api g f) ok)"
    using ne pa fd by (simp add: fetchRankings_def Let_def g_def f_def sel_def)
  have "historyData (fetchRankings api st)
          = fold (\<lambda>fi newHistory. obj_set (code fi) (history fi) newHistory)
                 (map (snapshot_of api g f) ok) []"
    using ne pa fd by (simp add: fetchRankings_def Let_def g_def f_def sel_def)
  also have "\<dots> = [] @ map (\<lambda>fi. (code fi, history fi)) (map (snapshot_of api g f) ok)"
    by (rule fold_obj_set_fresh) (simp_all add: comp_def codes dok)
  finally have hist: "historyData (fetchRankings api st)
                        = map (\<lambda>c. (code (snapshot_of api g f c), history (snapshot_of api g f c))) ok"
    by (simp add: comp_def)
  have hist': "historyData (fetchRankings api st)
                 = map (\<lambda>c. (c, history (snapshot_of api g f c))) ok"
    unfolding hist by (rule map_cong [OF refl]) (simp add: code)
  show "results (fetchRankings api st)
           = map (\<lambda>c. result (snapshot_of api (genderSignal st) (footballType st) c))
                 (filter (has_rankings api (genderSignal st) (footballType st))
                         (selectedCountries st))"
    using res by (simp add: comp_def ok_def g_def f_def sel_def)
  show "historyData (fetchRankings api st)
           = map (\<lambda>c. (c, history (snapshot_of api (genderSignal st) (footballType st) c)))
                 (filter (has_rankings api (genderSignal st) (footballType st))
                         (selectedCountries st))"
    using hist' by (simp add: ok_def g_def f_def sel_def)
qed

lemma fetchRankings_keys:
  assumes "selectedCountries st \<noteq> []" and "distinct (selectedCountries st)"
    and "\<forall>c \<in> set (selectedCountries st). api c (genderSignal st) (footballType st) \<noteq> Rejected"
  shows "obj_keys (historyData (fetchRankings api st))
           = filter (has_rankings api (genderSignal st) (footballType st)) (selectedCountries st)"
  unfolding fetchRankings_resolved(2) [where api = api and st = st, OF assms]
  by (simp add: obj_keys_def comp_def)

lemma stored_history_stable:
  assumes "\<forall>x \<in> set rs. PubDate x \<noteq> None"
  shows "filter (\<lambda>x. PubDate x = Some t) (array_sort compareDesc rs)
           = filter (\<lambda>x. PubDate x = Some t) rs"
proof -
  have cmp: "\<forall>x \<in> set rs. \<forall>y \<in> set rs.
               sortCompare compareDesc ((\<lambda>x. x) x) ((\<lambda>x. x) y) \<le> 0
                 \<longleftrightarrow> - timeOf x \<le> - timeOf y"
  proof (intro ballI)
    fix x y assume "x \<in> set rs" "y \<in> set rs"
    with assms have "PubDate x \<noteq> None" "PubDate y \<noteq> None" by blast+
    then obtain t u where "PubDate x = Some t" "PubDate y = Some u" by auto
    then show "sortCompare compareDesc ((\<lambda>x. x) x) ((\<lambda>x. x) y) \<le> 0
                 \<longleftrightarrow> - timeOf x \<le> - timeOf y"
      by (simp add: sortCompare_def compareDesc_def number_minus_def timeOf_def)
  qed
  have "array_sort compareDesc (map (\<lambda>x. x) rs) = map (\<lambda>x. x) (sort_key (\<lambda>x. - timeOf x) rs)"
    by (rule array_sort_key [OF cmp])
  then have e: "array_sort compareDesc rs = sort_key (\<lambda>x. - timeOf x) rs" by simp
  have k: "\<And>xs. set xs \<subseteq> set rs \<Longrightarrow>
             filter (\<lambda>x. PubDate x = Some t) xs = filter (\<lambda>x. - timeOf x = - t) xs"
  proof (rule filter_cong [OF refl])
    fix xs x assume "set xs \<subseteq> set rs" "x \<in> set xs"
    with assms have "PubDate x \<noteq> None" by blast
    then show "(PubDate x = Some t) = (- timeOf x = - t)" by (auto simp: timeOf_def)
  qed
  have "filter (\<lambda>x. PubDate x = Some t) (sort_key (\<lambda>x. - timeOf x) rs)
          = filter (\<lambda>x. - timeOf x = - t) (sort_key (\<lambda>x. - timeOf x) rs)"
    by (rule k) simp
  also have "\<dots> = filter (\<lambda>x. - timeOf x = - t) rs"
    by (rule sort_key_stable)
  also have "\<dots> = filter (\<lambda>x. PubDate x = Some t) rs"
    by (rule k [symmetric]) simp
  finally show ?thesis unfolding e .
qed

subsection \<open>The chart\<close>

lemma length_COLORS: "length COLORS = 30"
  by (simp add: COLORS_def)

lemma length_chartDatasets:
  "length (chartDatasets rt random countries filtered lbls) = length countries"
  by (simp add: chartDatasets_def)

lemma nth_chartDatasets_color:
  assumes "i < length countries"
  shows "borderColor (chartDatasets rt random countries filtered lbls ! i) = seriesColor random i"
    and "backgroundColor (chartDatasets rt random countries filtered lbls ! i) = seriesColor random i"
  using assms by (simp_all add: chartDatasets_def Let_def)

lemma nth_chartDatasets_label:
  assumes "i < length countries"
  shows "label (chartDatasets rt random countries filtered lbls ! i)
           = seriesLabel (countries ! i) (obj_get filtered (countries ! i))"
  using assms by (simp add: chartDatasets_def Let_def)

lemma updateChart_Some:
  assumes "updateChart rt random st now clk = Some ch"
  shows "labels ch = chartLabels rt (filteredHistoryData rt st now clk)"
    and "datasets ch = chartDatasets rt random (obj_keys (historyData st))
                         (filteredHistoryData rt st now clk) (labels ch)"
    and "obj_keys (historyData st) \<noteq> []"
  using assms by (auto simp: updateChart_def Let_def split: if_splits)

lemma nth_chartDatasets_data:
  assumes "j < length countries"
  shows "data (chartDatasets rt random countries filtered lbls ! j)
           = seriesData rt lbls (obj_get filtered (countries ! j))"
  using assms by (simp add: chartDatasets_def Let_def)

lemma obj_keys_nonempty: "(c, hist) \<in> set hm \<Longrightarrow> length (obj_keys hm) \<noteq> 0"
  by (auto simp: obj_keys_def)

lemma in_concat_values: "(c, hist) \<in> set hm \<Longrightarrow> x \<in> set hist \<Longrightarrow> x \<in> set (concat (obj_values hm))"
  by (force simp: obj_values_def)

lemma filteredHistoryData_all:
  assumes "timeRange st = ''all''"
  shows "filteredHistoryData rt st now clk = historyData st"
proof -
  have "(\<lambda>(c, hist). (c, filterHistory rt ''all'' (customStartYear st) (customEndYear st)
                                 now (clk c) hist))
          = (\<lambda>p :: string \<times> 'a RankingHistoryItem list. p)"
    by (rule ext) (simp add: filterHistory_all case_prod_beta)
  then show ?thesis
    by (simp add: filteredHistoryData_def assms)
qed

lemma in_filteredHistoryData:
  assumes "y \<in> set (concat (obj_values (filteredHistoryData rt st now clk)))"
  shows "\<exists>k. inTimeRange rt (timeRange st) (customStartYear st) (customEndYear st) now k y"
proof -
  from assms obtain p where p: "p \<in> set (historyData st)"
    and y: "y \<in> set (filterHistory rt (timeRange st) (customStartYear st) (customEndYear st)
                        now (clk (fst p)) (snd p))"
    by (auto simp: filteredHistoryData_def obj_values_def case_prod_beta)
  from y show ?thesis unfolding in_filterHistory by blast
qed

section \<open>The batch of requests\<close>

text \<open>
  C1, as stated, at the selection USA, BRA where the request for USA resolves with two
  records and the request for BRA rejects: \<open>Promise.all\<close> rejects, the \<open>catch\<close> logs, and
  both the results and the history map stay empty.
\<close>

theorem fetchRankings_one_rejection_counterexample:
  "has_rankings usa_only_api ''1'' ''football'' ''USA''
   \<and> usa_only_api ''BRA'' ''1'' ''football'' = Rejected
   \<and> results (fetchRankings usa_only_api usa_bra_selected) = []
   \<and> historyData (fetchRankings usa_only_api usa_bra_selected) = []"
  by (simp add: has_rankings_def usa_only_api_def usa_bra_selected_def fetchRankings_def
        fetchOne_def array_sort_def Let_def)

text \<open>
  C1, amended: when one of the requests rejects, the results and the history map are
  both empty.  When every request resolves, the results and the keys of the history map
  are the selected entities that resolved with a non-empty record list, in selection
  order; an entity that resolved without records, or with a payload that has no
  \<open>rankings\<close> (the error body of the route), is left out and does not empty the batch.
  For the entity \<open>c\<close> at position \<open>i\<close> among them, the history \<open>h\<close> stored under \<open>c\<close> holds
  exactly the records \<open>rs\<close> it resolved with; when all their timestamps parse, \<open>h\<close> is
  sorted by time, latest first, records of the same instant in the order they came in.
  The snapshot at position \<open>i\<close> of the results has the code \<open>c\<close>, the rank, the points and
  the date of the first record of \<open>h\<close>, the rank of its second record as previous rank
  (of the first when there is no second), the first team description of the first
  record as country name (the code when it has none or an empty one), and the gender
  \<open>Men\<close> for the gender code 1, \<open>Women\<close> otherwise.
\<close>

theorem fetchRankings_all_or_nothing:
  assumes "selectedCountries st \<noteq> []" and "distinct (selectedCountries st)"
  shows
    "(let g = genderSignal st; f = footballType st;
          served = filter (has_rankings api g f) (selectedCountries st);
          st' = fetchRankings api st
      in if \<exists>c \<in> set (selectedCountries st). api c g f = Rejected
         then results st' = [] \<and> historyData st' = []
         else map countryCode (results st') = served
              \<and> obj_keys (historyData st') = served
              \<and> (\<forall>i < length served. \<forall>rs. api (served ! i) g f = Resolved (Some rs) \<longrightarrow>
                    (let c = served ! i;
                         h = obj_get (historyData st') c;
                         current = h ! 0;
                         previous = (if 1 < length h then h ! 1 else current)
                     in mset h = mset rs
                        \<and> ((\<forall>x \<in> set rs. PubDate x \<noteq> None) \<longrightarrow>
                              sorted_wrt (\<lambda>a b. timeOf b \<le> timeOf a) h
                              \<and> (\<forall>t. filter (\<lambda>x. PubDate x = Some t) h
                                        = filter (\<lambda>x. PubDate x = Some t) rs))
                        \<and> results st' ! i
                            = \<lparr>countryCode = c,
                               countryName =
                                 (case TeamName current of
                                    [] \<Rightarrow> c
                                  | d # _ \<Rightarrow> if d = [] then c else d),
                               rank = Rank current,
                               previousRank = Rank previous,
                               points = TotalPoints current,
                               date = PubDate current,
                               gender = (if g = ''1'' then ''Men'' else ''Women'')\<rparr>)))"
proof -
  define g where "g = genderSignal st"
  define f where "f = footballType st"
  define sel where "sel = selectedCountries st"
  define served where "served = filter (has_rankings api g f) sel"
  define st' where "st' = fetchRankings api st"
  show ?thesis
  proof (cases "\<exists>c \<in> set sel. api c g f = Rejected")
    case True
    then have "\<exists>c \<in> set (selectedCountries st). api c (genderSignal st) (footballType st) = Rejected"
      by (simp add: g_def f_def sel_def)
    from fetchRankings_rejected [where api = api and st = st, OF assms(1) this]
    have "results st' = [] \<and> historyData st' = []" by (simp add: st'_def)
    with True show ?thesis
      unfolding Let_def g_def [symmetric] f_def [symmetric] sel_def [symmetric]
        st'_def [symmetric]
      by simp
  next
    case False
    then have none: "\<forall>c \<in> set (selectedCountries st).
                       api c (genderSignal st) (footballType st) \<noteq> Rejected"
      by (simp add: g_def f_def sel_def)
    note r = fetchRankings_resolved [where api = api and st = st, OF assms none,
                folded g_def f_def sel_def, folded served_def st'_def]
    have dok: "distinct served" using assms(2) by (simp add: served_def sel_def)
    have okD: "\<And>c. c \<in> set served \<Longrightarrow> \<exists>rs. api c g f = Resolved (Some rs) \<and> rs \<noteq> []"
      by (simp add: served_def has_rankings_D)
    have c1: "map countryCode (results st') = served"
    proof -
      have "map (\<lambda>c. countryCode (result (snapshot_of api g f c))) served = served"
      proof (rule map_idI)
        fix c assume "c \<in> set served"
        from okD [OF this] obtain rs where rs: "api c g f = Resolved (Some rs)" "rs \<noteq> []"
          by blast
        show "countryCode (result (snapshot_of api g f c)) = c"
          unfolding snapshot_of_item(3)
                      [where api = api and c = c and g = g and f = f and rs = rs, OF rs]
          by simp
      qed
      then show ?thesis unfolding r(1) by (simp add: comp_def)
    qed
    have c2: "obj_keys (historyData st') = served"
      unfolding r(2) by (simp add: obj_keys_def comp_def)
    have c3: "\<forall>i < length served. \<forall>rs. api (served ! i) g f = Resolved (Some rs) \<longrightarrow>
                (let c = served ! i;
                     h = obj_get (historyData st') c;
                     current = h ! 0;
                     previous = (if 1 < length h then h ! 1 else current)
                 in mset h = mset rs
                    \<and> ((\<forall>x \<in> set rs. PubDate x \<noteq> None) \<longrightarrow>
                          sorted_wrt (\<lambda>a b. timeOf b \<le> timeOf a) h
                          \<and> (\<forall>t. filter (\<lambda>x. PubDate x = Some t) h
                                    = filter (\<lambda>x. PubDate x = Some t) rs))
                    \<and> results st' ! i
                        = \<lparr>countryCode = c,
                           countryName =
                             (case TeamName current of
                                [] \<Rightarrow> c
                              | d # _ \<Rightarrow> if d = [] then c else d),
                           rank = Rank current,
                           previousRank = Rank previous,
                           points = TotalPoints current,
                           date = PubDate current,
                           gender = (if g = ''1'' then ''Men'' else ''Women'')\<rparr>)"
    proof (intro allI impI)
      fix i rs assume i: "i < length served" and a: "api (served ! i) g f = Resolved (Some rs)"
      define c where "c = served ! i"
      have cok: "c \<in> set served" using i by (simp add: c_def)
      from okD [OF cok] a have rs: "api c g f = Resolved (Some rs)" "rs \<noteq> []"
        by (auto simp: c_def)
      note s = snapshot_of_item [where api = api and c = c and g = g and f = f and rs = rs, OF rs]
      have "obj_get (historyData st') c = history (snapshot_of api g f c)"
        unfolding r(2) by (rule obj_get_map [OF cok dok])
      then have h: "obj_get (historyData st') c = array_sort compareDesc rs"
        by (simp only: s(2))
      have m: "mset (array_sort compareDesc rs) = mset rs" by (rule mset_array_sort)
      have o: "(\<forall>x \<in> set rs. PubDate x \<noteq> None) \<longrightarrow>
                 sorted_wrt (\<lambda>a b. timeOf b \<le> timeOf a) (array_sort compareDesc rs)
                 \<and> (\<forall>t. filter (\<lambda>x. PubDate x = Some t) (array_sort compareDesc rs)
                           = filter (\<lambda>x. PubDate x = Some t) rs)"
        using stored_history_sorted [of rs] stored_history_stable [of rs] by blast
      have "results st' ! i = result (snapshot_of api g f c)"
        unfolding r(1) using i by (simp add: c_def)
      then have e: "results st' ! i
                      = \<lparr>countryCode = c,
                         countryName = first_description (array_sort compareDesc rs ! 0) c,
                         rank = Rank (array_sort compareDesc rs ! 0),
                         previousRank = Rank (if 1 < length (array_sort compareDesc rs)
                                              then array_sort compareDesc rs ! 1
                                              else array_sort compareDesc rs ! 0),
                         points = TotalPoints (array_sort compareDesc rs ! 0),
                         date = PubDate (array_sort compareDesc rs ! 0),
                         gender = (if g = ''1'' then ''Men'' else ''Women'')\<rparr>"
        by (simp only: s(3))
      show "let c = served ! i;
                h = obj_get (historyData st') c;
                current = h ! 0;
                previous = (if 1 < length h then h ! 1 else current)
            in mset h = mset rs
               \<and> ((\<forall>x \<in> set rs. PubDate x \<noteq> None) \<longrightarrow>
                     sorted_wrt (\<lambda>a b. timeOf b \<le> timeOf a) h
                     \<and> (\<forall>t. filter (\<lambda>x. PubDate x = Some t) h
                               = filter (\<lambda>x. PubDate x = Some t) rs))
               \<and> results st' ! i
                   = \<lparr>countryCode = c,
                      countryName =
                        (case TeamName current of
                           [] \<Rightarrow> c
                         | d # _ \<Rightarrow> if d = [] then c else d),
                      rank = Rank current,
                      previousRank = Rank previous,
                      points = TotalPoints current,
                      date = PubDate current,
                      gender = (if g = ''1'' then ''Men'' else ''Women'')\<rparr>"
        unfolding Let_def c_def [symmetric] h e
        using m o by (simp add: first_description_def)
    qed
    from False c1 c2 c3 show ?thesis
      unfolding Let_def g_def [symmetric] f_def [symmetric] sel_def [symmetric]
        served_def [symmetric] st'_def [symmetric]
      by simp
  qed
qed

theorem fetchRankings_all_or_nothing_witness:
  "results (fetchRankings usa_or_error_api usa_bra_selected)
     = [\<lparr>countryCode = ''USA'', countryName = ''USA'', rank = 3, previousRank = 5,
         points = 0, date = Some 1717200000000, gender = ''Men''\<rparr>]
   \<and> obj_keys (historyData (fetchRankings usa_or_error_api usa_bra_selected)) = [''USA'']
   \<and> mset (obj_get (historyData (fetchRankings usa_or_error_api usa_bra_selected)) ''USA'')
       = mset [mk_item ''USA'' 5 (Some 1704067200000), mk_item ''USA'' 3 (Some 1717200000000)]
   \<and> sorted_wrt (\<lambda>a b. timeOf b \<le> timeOf a)
        (obj_get (historyData (fetchRankings usa_or_error_api usa_bra_selected)) ''USA'')"
proof -
  let ?st = "fetchRankings usa_or_error_api usa_bra_selected"
  let ?rs = "[mk_item ''USA'' 5 (Some 1704067200000), mk_item ''USA'' 3 (Some 1717200000000)]"
  have a: "selectedCountries usa_bra_selected \<noteq> []" "distinct (selectedCountries usa_bra_selected)"
    by (simp_all add: usa_bra_selected_def)
  have sel: "selectedCountries usa_bra_selected = [''USA'', ''BRA'']"
    "genderSignal usa_bra_selected = ''1''" "footballType usa_bra_selected = ''football''"
    by (simp_all add: usa_bra_selected_def)
  have served: "filter (has_rankings usa_or_error_api ''1'' ''football'') [''USA'', ''BRA'']
                  = [''USA'']"
    by (simp add: has_rankings_def usa_or_error_api_def)
  have none: "\<not> (\<exists>c \<in> set [''USA'', ''BRA'']. usa_or_error_api c ''1'' ''football'' = Rejected)"
    by (simp add: usa_or_error_api_def)
  have api: "usa_or_error_api ''USA'' ''1'' ''football'' = Resolved (Some ?rs)"
    by (simp add: usa_or_error_api_def)
  have v: "\<forall>x \<in> set ?rs. PubDate x \<noteq> None" by simp
  note t = fetchRankings_all_or_nothing [OF a, of usa_or_error_api, unfolded Let_def sel served]
  from t none have codes: "map countryCode (results ?st) = [''USA'']"
    and keys: "obj_keys (historyData ?st) = [''USA'']"
    and each: "\<forall>i < length [''USA'']. \<forall>rs.
                 usa_or_error_api ([''USA''] ! i) ''1'' ''football'' = Resolved (Some rs) \<longrightarrow>
                   mset (obj_get (historyData ?st) ([''USA''] ! i)) = mset rs
                   \<and> ((\<forall>x \<in> set rs. PubDate x \<noteq> None) \<longrightarrow>
                         sorted_wrt (\<lambda>a b. timeOf b \<le> timeOf a)
                           (obj_get (historyData ?st) ([''USA''] ! i))
                         \<and> (\<forall>t. filter (\<lambda>x. PubDate x = Some t)
                                     (obj_get (historyData ?st) ([''USA''] ! i))
                                   = filter (\<lambda>x. PubDate x = Some t) rs))
                   \<and> results ?st ! i
                       = \<lparr>countryCode = [''USA''] ! i,
                          countryName =
                            (case TeamName (obj_get (historyData ?st) ([''USA''] ! i) ! 0) of
                               [] \<Rightarrow> [''USA''] ! i
                             | d # _ \<Rightarrow> if d = [] then [''USA''] ! i else d),
                          rank = Rank (obj_get (historyData ?st) ([''USA''] ! i) ! 0),
                          previousRank =
                            Rank (if 1 < length (obj_get (historyData ?st) ([''USA''] ! i))
                                  then obj_get (historyData ?st) ([''USA''] ! i) ! 1
                                  else obj_get (historyData ?st) ([''USA''] ! i) ! 0),
                          points = TotalPoints (obj_get (historyData ?st) ([''USA''] ! i) ! 0),
                          date = PubDate (obj_get (historyData ?st) ([''USA''] ! i) ! 0),
                          gender = (if ''1'' = ''1'' then ''Men'' else ''Women'')\<rparr>"
    by simp_all
  have i0: "(0::nat) < length [''USA'']" by simp
  have api0: "usa_or_error_api ([''USA''] ! 0) ''1'' ''football'' = Resolved (Some ?rs)"
    by (simp add: api)
  have h: "obj_get (historyData ?st) ''USA''
             = [mk_item ''USA'' 3 (Some 1717200000000), mk_item ''USA'' 5 (Some 1704067200000)]"
    by (simp add: usa_bra_selected_def usa_or_error_api_def fetchRankings_def fetchOne_def
          array_sort_def sortCompare_def compareDesc_def number_minus_def Let_def
          List.map_filter_simps obj_get_def)
  note e = each [rule_format, OF i0 api0, unfolded nth_Cons_0]
  from e have m: "mset (obj_get (historyData ?st) ''USA'') = mset ?rs"
    by (rule conjunct1)
  from e [THEN conjunct2, THEN conjunct1, THEN mp, OF v]
  have o: "sorted_wrt (\<lambda>a b. timeOf b \<le> timeOf a) (obj_get (historyData ?st) ''USA'')"
    by (rule conjunct1)
  from e [THEN conjunct2, THEN conjunct2, unfolded h]
  have r: "results ?st ! 0
             = \<lparr>countryCode = ''USA'', countryName = ''USA'', rank = 3, previousRank = 5,
                points = 0, date = Some 1717200000000, gender = ''Men''\<rparr>"
    by simp
  from codes have "length (results ?st) = 1"
    by (metis length_map length_Cons list.size(3) One_nat_def)
  then obtain x where x: "results ?st = [x]"
    by (cases "results ?st") auto
  with r have "results ?st
                 = [\<lparr>countryCode = ''USA'', countryName = ''USA'', rank = 3, previousRank = 5,
                     points = 0, date = Some 1717200000000, gender = ''Men''\<rparr>]"
    by simp
  with keys m o show ?thesis by simp
qed

section \<open>Series colours\<close>

lemma thirty_one_colour:
  "map borderColor (datasets (the (updateChart rt random thirty_one_state now clk))) ! 30
     = seriesColor random 30"
proof -
  have n: "length (obj_keys (historyData thirty_one_state)) = 31"
    by (simp add: thirty_one_state_def thirty_one_codes_def obj_keys_def)
  have "updateChart rt random thirty_one_state now clk
          = Some \<lparr>labels = chartLabels rt (filteredHistoryData rt thirty_one_state now clk),
                   datasets = chartDatasets rt random (obj_keys (historyData thirty_one_state))
                                (filteredHistoryData rt thirty_one_state now clk)
                                (chartLabels rt (filteredHistoryData rt thirty_one_state now clk))\<rparr>"
    unfolding updateChart_def Let_def n by simp
  then show ?thesis
    using n by (simp add: length_chartDatasets nth_chartDatasets_color)
qed

lemma arg_fra_esp_history:
  "historyData (fetchRankings all_but_fra_api arg_fra_esp_selected)
     = [(''ARG'', [mk_item ''ARG'' 1 (Some 1717200000000)]),
        (''ESP'', [mk_item ''ESP'' 1 (Some 1717200000000)])]"
  "historyData (fetchRankings every_country_api arg_fra_esp_selected)
     = [(''ARG'', [mk_item ''ARG'' 1 (Some 1717200000000)]),
        (''FRA'', [mk_item ''FRA'' 1 (Some 1717200000000)]),
        (''ESP'', [mk_item ''ESP'' 1 (Some 1717200000000)])]"
  by (simp_all add: arg_fra_esp_selected_def all_but_fra_api_def every_country_api_def
        fetchRankings_def fetchOne_def array_sort_def Let_def List.map_filter_simps)

lemma series_colours:
  assumes "updateChart rt random st now clk = Some ch"
  shows "map (\<lambda>d. (label d, borderColor d)) (datasets ch)
           = map (\<lambda>i. (seriesLabel (obj_keys (historyData st) ! i)
                          (obj_get (filteredHistoryData rt st now clk)
                                   (obj_keys (historyData st) ! i)),
                        seriesColor random i))
                 [0 ..< length (obj_keys (historyData st))]"
  unfolding updateChart_Some(2) [OF assms]
  by (rule nth_equalityI)
     (simp_all add: length_chartDatasets nth_chartDatasets_label nth_chartDatasets_color)

lemma arg_fra_esp_chart:
  assumes "st = fetchRankings api arg_fra_esp_selected"
    and that: "length (obj_keys (historyData st)) \<noteq> 0"
  shows "\<exists>ch. updateChart rt random st now clk = Some ch
             \<and> map (\<lambda>d. (label d, borderColor d)) (datasets ch)
                 = map (\<lambda>i. (seriesLabel (obj_keys (historyData st) ! i)
                                (obj_get (historyData st) (obj_keys (historyData st) ! i)),
                              seriesColor random i))
                       [0 ..< length (obj_keys (historyData st))]"
proof -
  have tr: "timeRange st = ''all''"
    unfolding assms(1)
    by (simp add: fetchRankings_def arg_fra_esp_selected_def Let_def split: sum.splits)
  from that obtain ch where ch: "updateChart rt random st now clk = Some ch"
    by (simp add: updateChart_def Let_def)
  from series_colours [OF ch] ch show ?thesis
    by (simp add: filteredHistoryData_all [OF tr])
qed

text \<open>
  C6, as stated.  At a selection of 31 countries, two runs on the same ordered
  selection in which \<open>Math.random()\<close> returns 0 and 0.5 give the 31st series different
  colours.  At the selection ARG, FRA, ESP, the series of ESP, of selection index 2,
  has the palette colour of index 2 when FRA has rankings and the palette colour of
  index 1 when FRA has none.
\<close>

theorem random_colour_counterexample:
  "updateChart (runtime_enUS 0) (\<lambda>j. 0) thirty_one_state 0 (\<lambda>c i. 0)
     \<noteq> updateChart (runtime_enUS 0) (\<lambda>j. 1 / 2) thirty_one_state 0 (\<lambda>c i. 0)
   \<and> (\<exists>ch. updateChart (runtime_enUS 0) (\<lambda>j. 0)
               (fetchRankings every_country_api arg_fra_esp_selected) 0 (\<lambda>c i. 0) = Some ch
          \<and> map (\<lambda>d. (label d, borderColor d)) (datasets ch)
              = [(''ARG (ARG)'', Some ''#3b82f6''), (''FRA (FRA)'', Some ''#ef4444''),
                 (''ESP (ESP)'', Some ''#10b981'')])
   \<and> (\<exists>ch. updateChart (runtime_enUS 0) (\<lambda>j. 0)
               (fetchRankings all_but_fra_api arg_fra_esp_selected) 0 (\<lambda>c i. 0) = Some ch
          \<and> map (\<lambda>d. (label d, borderColor d)) (datasets ch)
              = [(''ARG (ARG)'', Some ''#3b82f6''), (''ESP (ESP)'', Some ''#ef4444'')])"
proof (intro conjI)
  show "updateChart (runtime_enUS 0) (\<lambda>j. 0) thirty_one_state 0 (\<lambda>c i. 0)
          \<noteq> updateChart (runtime_enUS 0) (\<lambda>j. 1 / 2) thirty_one_state 0 (\<lambda>c i. 0)"
  proof
    assume "updateChart (runtime_enUS 0) (\<lambda>j. 0) thirty_one_state 0 (\<lambda>c i. 0)
              = updateChart (runtime_enUS 0) (\<lambda>j. 1 / 2) thirty_one_state 0 (\<lambda>c i. 0)"
    then have "seriesColor (\<lambda>j. 0) 30 = seriesColor (\<lambda>j. 1 / 2) 30"
      using thirty_one_colour [of "runtime_enUS 0" "\<lambda>j. 0" 0 "\<lambda>c i. 0"]
            thirty_one_colour [of "runtime_enUS 0" "\<lambda>j. 1 / 2" 0 "\<lambda>c i. 0"]
      by simp
    then show False
      by (simp add: seriesColor_def length_COLORS nth_opt_def) (simp add: COLORS_def)
  qed
  have u: "[0 ..< 3] = [0, 1, 2]" "[0 ..< 2] = [0, 1]" by (simp_all add: upt_rec)
  have c: "seriesColor (\<lambda>j. 0) 0 = Some ''#3b82f6''"
    "seriesColor (\<lambda>j. 0) (Suc 0) = Some ''#ef4444''"
    "seriesColor (\<lambda>j. 0) (Suc (Suc 0)) = Some ''#10b981''"
    by (simp_all add: seriesColor_def COLORS_def)
  show "\<exists>ch. updateChart (runtime_enUS 0) (\<lambda>j. 0)
               (fetchRankings every_country_api arg_fra_esp_selected) 0 (\<lambda>c i. 0) = Some ch
          \<and> map (\<lambda>d. (label d, borderColor d)) (datasets ch)
              = [(''ARG (ARG)'', Some ''#3b82f6''), (''FRA (FRA)'', Some ''#ef4444''),
                 (''ESP (ESP)'', Some ''#10b981'')]"
    using arg_fra_esp_chart [OF refl, of every_country_api "runtime_enUS 0" "\<lambda>j. 0" 0 "\<lambda>c i. 0"]
    by (simp add: arg_fra_esp_history obj_keys_def obj_get_def seriesLabel_def u c)
  show "\<exists>ch. updateChart (runtime_enUS 0) (\<lambda>j. 0)
               (fetchRankings all_but_fra_api arg_fra_esp_selected) 0 (\<lambda>c i. 0) = Some ch
          \<and> map (\<lambda>d. (label d, borderColor d)) (datasets ch)
              = [(''ARG (ARG)'', Some ''#3b82f6''), (''ESP (ESP)'', Some ''#ef4444'')]"
    using arg_fra_esp_chart [OF refl, of all_but_fra_api "runtime_enUS 0" "\<lambda>j. 0" 0 "\<lambda>c i. 0"]
    by (simp add: arg_fra_esp_history obj_keys_def obj_get_def seriesLabel_def u c)
qed

text \<open>
  C6, amended: the chart has one series for each key of the history map, in the order
  of the keys.  After \<open>fetchRankings\<close> these are the selected entities that resolved with
  rankings, in selection order (none when a request rejected), so that the position
  \<open>i\<close> of a series is the selection index of its entity only when every entity selected
  before it has rankings.  The colour of the series at position \<open>i\<close> is the palette entry
  \<open>i\<close> whenever \<open>i\<close> is below the palette size 30, whatever \<open>Math.random()\<close> returns: two
  runs on the same ordered selection in which the same entities have rankings give
  these series identical colours.  From position 30 on, the colour is the palette entry
  that \<open>Math.random()\<close> picks.
\<close>

theorem colour_by_series_position:
  assumes "selectedCountries st \<noteq> []" and "distinct (selectedCountries st)"
    and "historyData st' = historyData (fetchRankings api st)"
  shows
    "(let g = genderSignal st; f = footballType st;
          series = (if \<exists>c \<in> set (selectedCountries st). api c g f = Rejected then []
                    else filter (has_rankings api g f) (selectedCountries st))
      in if series = [] then updateChart rt random st' now clk = None
         else (\<exists>ch. updateChart rt random st' now clk = Some ch
                 \<and> length (datasets ch) = length series
                 \<and> (\<forall>i < length series.
                       label (datasets ch ! i)
                         = seriesLabel (series ! i)
                             (obj_get (filteredHistoryData rt st' now clk) (series ! i))
                       \<and> backgroundColor (datasets ch ! i) = borderColor (datasets ch ! i)
                       \<and> (i < 30 \<longrightarrow> borderColor (datasets ch ! i) = Some (COLORS ! i))
                       \<and> (30 \<le> i \<and> 0 \<le> random (i - 30) \<and> random (i - 30) < 1 \<longrightarrow>
                             nat \<lfloor>random (i - 30) * 30\<rfloor> < 30
                             \<and> borderColor (datasets ch ! i)
                                 = Some (COLORS ! nat \<lfloor>random (i - 30) * 30\<rfloor>)))))"
proof -
  define series where
    "series = (if \<exists>c \<in> set (selectedCountries st).
                     api c (genderSignal st) (footballType st) = Rejected then []
               else filter (has_rankings api (genderSignal st) (footballType st))
                           (selectedCountries st))"
  have keys: "obj_keys (historyData st') = series"
  proof (cases "\<exists>c \<in> set (selectedCountries st).
                  api c (genderSignal st) (footballType st) = Rejected")
    case True
    from fetchRankings_rejected(2) [where api = api and st = st, OF assms(1) True]
    show ?thesis using True by (simp add: assms(3) series_def obj_keys_def)
  next
    case False
    then have none: "\<forall>c \<in> set (selectedCountries st).
                       api c (genderSignal st) (footballType st) \<noteq> Rejected"
      by simp
    from fetchRankings_keys [where api = api and st = st, OF assms(1,2) none]
    show ?thesis using False by (simp add: assms(3) series_def)
  qed
  have "if series = [] then updateChart rt random st' now clk = None
        else (\<exists>ch. updateChart rt random st' now clk = Some ch
                \<and> length (datasets ch) = length series
                \<and> (\<forall>i < length series.
                      label (datasets ch ! i)
                        = seriesLabel (series ! i)
                            (obj_get (filteredHistoryData rt st' now clk) (series ! i))
                      \<and> backgroundColor (datasets ch ! i) = borderColor (datasets ch ! i)
                      \<and> (i < 30 \<longrightarrow> borderColor (datasets ch ! i) = Some (COLORS ! i))
                      \<and> (30 \<le> i \<and> 0 \<le> random (i - 30) \<and> random (i - 30) < 1 \<longrightarrow>
                            nat \<lfloor>random (i - 30) * 30\<rfloor> < 30
                            \<and> borderColor (datasets ch ! i)
                                = Some (COLORS ! nat \<lfloor>random (i - 30) * 30\<rfloor>))))"
  proof (cases "series = []")
    case True
    then show ?thesis using keys by (simp add: updateChart_def Let_def)
  next
    case False
    let ?f = "filteredHistoryData rt st' now clk"
    let ?ch = "\<lparr>labels = chartLabels rt ?f,
                datasets = chartDatasets rt random series ?f (chartLabels rt ?f)\<rparr>"
    have u: "updateChart rt random st' now clk = Some ?ch"
      using False keys by (simp add: updateChart_def Let_def)
    have each: "label (datasets ?ch ! i) = seriesLabel (series ! i) (obj_get ?f (series ! i))
                \<and> backgroundColor (datasets ?ch ! i) = borderColor (datasets ?ch ! i)
                \<and> (i < 30 \<longrightarrow> borderColor (datasets ?ch ! i) = Some (COLORS ! i))
                \<and> (30 \<le> i \<and> 0 \<le> random (i - 30) \<and> random (i - 30) < 1 \<longrightarrow>
                      nat \<lfloor>random (i - 30) * 30\<rfloor> < 30
                      \<and> borderColor (datasets ?ch ! i)
                          = Some (COLORS ! nat \<lfloor>random (i - 30) * 30\<rfloor>))"
      if i: "i < length series" for i
    proof (intro conjI impI)
      show "label (datasets ?ch ! i) = seriesLabel (series ! i) (obj_get ?f (series ! i))"
        using i by (simp add: nth_chartDatasets_label)
      show "backgroundColor (datasets ?ch ! i) = borderColor (datasets ?ch ! i)"
        using i by (simp add: nth_chartDatasets_color)
      show "borderColor (datasets ?ch ! i) = Some (COLORS ! i)" if "i < 30"
        using i that by (simp add: nth_chartDatasets_color seriesColor_def length_COLORS)
    next
      assume h: "30 \<le> i \<and> 0 \<le> random (i - 30) \<and> random (i - 30) < 1"
      define r where "r = random (i - 30)"
      have r: "0 \<le> r" "r < 1" using h by (simp_all add: r_def)
      have lo: "0 \<le> \<lfloor>r * 30\<rfloor>" using r by simp
      have "r * 30 < 30" using r by simp
      then have hi: "\<lfloor>r * 30\<rfloor> < 30" by (simp add: floor_less_iff)
      show "nat \<lfloor>random (i - 30) * 30\<rfloor> < 30"
        using lo hi unfolding r_def by linarith
      have "seriesColor random i = Some (COLORS ! nat \<lfloor>r * 30\<rfloor>)"
        using h lo hi by (simp add: seriesColor_def length_COLORS nth_opt_def r_def)
      then show "borderColor (datasets ?ch ! i) = Some (COLORS ! nat \<lfloor>random (i - 30) * 30\<rfloor>)"
        using i by (simp add: nth_chartDatasets_color r_def)
    qed
    have n: "length (datasets ?ch) = length series" by (simp add: length_chartDatasets)
    have all: "\<forall>i < length series.
                 label (datasets ?ch ! i) = seriesLabel (series ! i) (obj_get ?f (series ! i))
                 \<and> backgroundColor (datasets ?ch ! i) = borderColor (datasets ?ch ! i)
                 \<and> (i < 30 \<longrightarrow> borderColor (datasets ?ch ! i) = Some (COLORS ! i))
                 \<and> (30 \<le> i \<and> 0 \<le> random (i - 30) \<and> random (i - 30) < 1 \<longrightarrow>
                       nat \<lfloor>random (i - 30) * 30\<rfloor> < 30
                       \<and> borderColor (datasets ?ch ! i)
                           = Some (COLORS ! nat \<lfloor>random (i - 30) * 30\<rfloor>))"
      by (intro allI impI) (rule each)
    show ?thesis
      unfolding if_not_P [OF False]
      by (rule exI [of _ ?ch]) (rule conjI [OF u conjI [OF n all]])
  qed
  then show ?thesis unfolding Let_def series_def .
qed

theorem colour_by_series_position_witness:
  "\<exists>ch. updateChart (runtime_enUS 0) (\<lambda>j. 1 / 2)
          (fetchRankings all_but_fra_api arg_fra_esp_selected) 0 (\<lambda>c i. 0) = Some ch
       \<and> length (datasets ch) = 2
       \<and> label (datasets ch ! 1) = ''ESP (ESP)''
       \<and> borderColor (datasets ch ! 1) = Some ''#ef4444''
       \<and> backgroundColor (datasets ch ! 1) = Some ''#ef4444''"
proof -
  let ?st = "fetchRankings all_but_fra_api arg_fra_esp_selected"
  have a: "selectedCountries arg_fra_esp_selected \<noteq> []"
    "distinct (selectedCountries arg_fra_esp_selected)"
    by (simp_all add: arg_fra_esp_selected_def)
  have sel: "selectedCountries arg_fra_esp_selected = [''ARG'', ''FRA'', ''ESP'']"
    "genderSignal arg_fra_esp_selected = ''1''" "footballType arg_fra_esp_selected = ''football''"
    by (simp_all add: arg_fra_esp_selected_def)
  have none: "(\<exists>c \<in> set [''ARG'', ''FRA'', ''ESP'']. all_but_fra_api c ''1'' ''football'' = Rejected)
                = False"
    by (simp add: all_but_fra_api_def every_country_api_def)
  have series: "filter (has_rankings all_but_fra_api ''1'' ''football'') [''ARG'', ''FRA'', ''ESP'']
                  = [''ARG'', ''ESP'']"
    by (simp add: has_rankings_def all_but_fra_api_def every_country_api_def)
  have tr: "timeRange ?st = ''all''"
    by (simp add: fetchRankings_def arg_fra_esp_selected_def Let_def split: sum.splits)
  have h: "obj_get (historyData ?st) ''ESP'' = [mk_item ''ESP'' 1 (Some 1717200000000)]"
    by (simp add: arg_fra_esp_history obj_get_def)
  note t = colour_by_series_position
             [where st = arg_fra_esp_selected and st' = ?st and api = all_but_fra_api
                and rt = "runtime_enUS 0" and random = "\<lambda>j. 1 / 2" and now = 0
                and clk = "\<lambda>c i. 0", OF a refl,
              unfolded Let_def sel none series if_False filteredHistoryData_all [OF tr]]
  then obtain ch where
    ch: "updateChart (runtime_enUS 0) (\<lambda>j. 1 / 2) ?st 0 (\<lambda>c i. 0) = Some ch"
    and n: "length (datasets ch) = length [''ARG'', ''ESP'']"
    and each: "\<forall>i < length [''ARG'', ''ESP''].
                 label (datasets ch ! i)
                   = seriesLabel ([''ARG'', ''ESP''] ! i)
                       (obj_get (historyData ?st) ([''ARG'', ''ESP''] ! i))
                 \<and> backgroundColor (datasets ch ! i) = borderColor (datasets ch ! i)
                 \<and> (i < 30 \<longrightarrow> borderColor (datasets ch ! i) = Some (COLORS ! i))
                 \<and> (30 \<le> i \<and> 0 \<le> (1 / 2 :: real) \<and> (1 / 2 :: real) < 1 \<longrightarrow>
                       nat \<lfloor>(1 / 2 :: real) * 30\<rfloor> < 30
                       \<and> borderColor (datasets ch ! i)
                           = Some (COLORS ! nat \<lfloor>(1 / 2 :: real) * 30\<rfloor>))"
    by auto
  have i1: "(1::nat) < length [''ARG'', ''ESP'']" by simp
  note e = each [rule_format, OF i1]
  have l: "label (datasets ch ! 1) = ''ESP (ESP)''"
    using e [THEN conjunct1] by (simp add: h seriesLabel_def)
  have b: "borderColor (datasets ch ! 1) = Some ''#ef4444''"
    using e [THEN conjunct2, THEN conjunct2, THEN conjunct1] by (simp add: COLORS_def)
  have k: "backgroundColor (datasets ch ! 1) = borderColor (datasets ch ! 1)"
    using e [THEN conjunct2, THEN conjunct1] .
  from ch n l b k show ?thesis by simp
qed

section \<open>Gaps\<close>

lemma seriesData_gap:
  assumes "i < length lbls" and "\<forall>x \<in> set hist. chartKey rt x \<noteq> lbls ! i"
  shows "seriesData rt lbls hist ! i = None"
proof -
  have "lbls ! i \<notin> fst ` set (rev (map (\<lambda>h. (chartKey rt h, Rank h)) hist))"
    using assms(2) by (auto simp: image_iff)
  then have "Map_of_entries (map (\<lambda>h. (chartKey rt h, Rank h)) hist) (lbls ! i) = None"
    unfolding Map_of_entries_def using map_of_eq_None_iff by metis
  then show ?thesis using assms(1) by (simp add: seriesData_def or_null_def)
qed

lemma findItem_None_iff:
  "findItem hist key = None \<longleftrightarrow> (\<forall>x \<in> set hist. exportKey x \<noteq> Inr key)"
  by (auto simp: findItem_def find_None_iff)

lemma csvCell_gap:
  "\<forall>x \<in> set (obj_get hm A). exportKey x \<noteq> Inr D \<Longrightarrow> csvCell str hm D A = '',,''"
  using findItem_None_iff [of "obj_get hm A" D] by (simp add: csvCell_def)

lemma csvRow_split:
  "csvRow str hm (pre @ A # post) D
     = D @ concat (map (csvCell str hm D) pre) @ csvCell str hm D A
         @ concat (map (csvCell str hm D) post)"
  by (simp add: csvRow_def)

lemma downloadCSV_Some:
  assumes "downloadCSV rt str hm = Inr (Some csv)"
  shows "\<exists>dates. sortedDates rt hm = Inr dates
           \<and> csv = csvHeader (obj_keys hm)
                    @ concat (map (\<lambda>key. csvRow str hm (obj_keys hm) key @ [CHR 0x0A]) dates)"
  using assms by (auto simp: downloadCSV_def Let_def split: if_splits sum.splits)

lemma downloadJSON_Some:
  assumes "downloadJSON rt hm = Inr (Some out)"
  shows "\<exists>dates. sortedDates rt hm = Inr dates \<and> out = map (jsonEntry hm (obj_keys hm)) dates"
  using assms by (auto simp: downloadJSON_def Let_def split: if_splits sum.splits)

lemma keys_obj_set: "fst ` set (obj_set k v obj) = insert k (fst ` set obj)"
proof (induction obj)
  case Nil
  then show ?case by simp
next
  case (Cons p obj)
  obtain k' v' where p: "p = (k', v')" by (cases p)
  show ?case
  proof (cases "k = k'")
    case True
    then show ?thesis by (simp add: p)
  next
    case False
    then show ?thesis using Cons.IH by (simp add: p insert_commute)
  qed
qed

lemma jsonEntry_keys_fold:
  "fst ` set (fold (\<lambda>cc entry.
                (case findItem (obj_get hm cc) key of
                   Some itm \<Rightarrow> obj_set cc (mk itm) entry
                 | None \<Rightarrow> entry)) cs e)
     = fst ` set e \<union> {c \<in> set cs. findItem (obj_get hm c) key \<noteq> None}"
proof (induction cs arbitrary: e)
  case Nil
  then show ?case by simp
next
  case (Cons c cs)
  show ?case
  proof (cases "findItem (obj_get hm c) key")
    case None
    then show ?thesis using Cons.IH [of e] by auto
  next
    case (Some itm)
    then show ?thesis using Cons.IH [of "obj_set c (mk itm) e"] by (auto simp: keys_obj_set)
  qed
qed

lemma jsonEntry_keys:
  "fst ` set (jsonEntry hm cs key)
     = insert ''date'' {c \<in> set cs. findItem (obj_get hm c) key \<noteq> None}"
  unfolding jsonEntry_def by (simp only: jsonEntry_keys_fold) simp

lemma jsonEntry_gap:
  assumes "\<forall>x \<in> set (obj_get hm A). exportKey x \<noteq> Inr D" and "A \<noteq> ''date''"
  shows "map_of (jsonEntry hm cs D) A = None"
proof -
  have "findItem (obj_get hm A) D = None" using assms(1) by (simp add: findItem_None_iff)
  then have "A \<notin> fst ` set (jsonEntry hm cs D)"
    using assms(2) by (simp add: jsonEntry_keys)
  then show ?thesis using map_of_eq_None_iff by metis
qed

text \<open>
  C5: where an entity has no record on an axis date, its chart value at that label is
  \<open>null\<close> (\<open>None\<close>), its part of the CSV row of that date is the two empty fields \<open>,,\<close>, and
  the JSON entry of that date has no key for it.  "No record on the date" is read with
  the key of each consumer: the label of the chart, the ISO date of the exports.
\<close>

theorem gap_correctness:
  "(updateChart rt random st now clk = Some ch
      \<and> j < length (obj_keys (historyData st)) \<and> i < length (labels ch)
      \<and> (\<forall>x \<in> set (obj_get (filteredHistoryData rt st now clk) (obj_keys (historyData st) ! j)).
            chartKey rt x \<noteq> labels ch ! i)
     \<longrightarrow> data (datasets ch ! j) ! i = None)
   \<and> (downloadCSV rt str hm = Inr (Some csv) \<and> obj_keys hm = pre @ A # post
        \<and> (\<forall>x \<in> set (obj_get hm A). exportKey x \<noteq> Inr D)
     \<longrightarrow> (\<exists>dates. sortedDates rt hm = Inr dates
            \<and> csv = csvHeader (obj_keys hm)
                    @ concat (map (\<lambda>key. csvRow str hm (obj_keys hm) key @ [CHR 0x0A]) dates))
         \<and> csvRow str hm (obj_keys hm) D
             = D @ concat (map (csvCell str hm D) pre) @ '',,''
                 @ concat (map (csvCell str hm D) post))
   \<and> (downloadJSON rt hm = Inr (Some out)
        \<and> (\<forall>x \<in> set (obj_get hm A). exportKey x \<noteq> Inr D) \<and> A \<noteq> ''date''
     \<longrightarrow> (\<exists>dates. sortedDates rt hm = Inr dates \<and> out = map (jsonEntry hm (obj_keys hm)) dates)
         \<and> map_of (jsonEntry hm (obj_keys hm) D) A = None)"
proof (intro conjI impI)
  assume a: "updateChart rt random st now clk = Some ch
      \<and> j < length (obj_keys (historyData st)) \<and> i < length (labels ch)
      \<and> (\<forall>x \<in> set (obj_get (filteredHistoryData rt st now clk) (obj_keys (historyData st) ! j)).
            chartKey rt x \<noteq> labels ch ! i)"
  then have "data (datasets ch ! j)
               = seriesData rt (labels ch)
                   (obj_get (filteredHistoryData rt st now clk) (obj_keys (historyData st) ! j))"
    using updateChart_Some(2) [of rt random st now clk ch] by (simp add: nth_chartDatasets_data)
  then show "data (datasets ch ! j) ! i = None"
    using a by (simp add: seriesData_gap)
next
  assume a: "downloadCSV rt str hm = Inr (Some csv) \<and> obj_keys hm = pre @ A # post
        \<and> (\<forall>x \<in> set (obj_get hm A). exportKey x \<noteq> Inr D)"
  then show "\<exists>dates. sortedDates rt hm = Inr dates
            \<and> csv = csvHeader (obj_keys hm)
                    @ concat (map (\<lambda>key. csvRow str hm (obj_keys hm) key @ [CHR 0x0A]) dates)"
    using downloadCSV_Some [of rt str hm csv] by simp
  from a have "csvCell str hm D A = '',,''" by (simp add: csvCell_gap)
  then show "csvRow str hm (obj_keys hm) D
             = D @ concat (map (csvCell str hm D) pre) @ '',,''
                 @ concat (map (csvCell str hm D) post)"
    using a csvRow_split [of str hm pre A post D] by simp
next
  assume a: "downloadJSON rt hm = Inr (Some out)
        \<and> (\<forall>x \<in> set (obj_get hm A). exportKey x \<noteq> Inr D) \<and> A \<noteq> ''date''"
  then show "\<exists>dates. sortedDates rt hm = Inr dates \<and> out = map (jsonEntry hm (obj_keys hm)) dates"
    using downloadJSON_Some [of rt hm out] by simp
  from a show "map_of (jsonEntry hm (obj_keys hm) D) A = None"
    by (simp add: jsonEntry_gap)
qed

theorem gap_correctness_witness:
  "(\<exists>ch. updateChart (runtime_enUS 0) (\<lambda>j. 0) usa_bra_loaded 1735689600000 (\<lambda>c i. 1735689600000) = Some ch
         \<and> labels ch ! 0 = ''1/1/2024'' \<and> data (datasets ch ! 1) ! 0 = None)
   \<and> (\<exists>csv. downloadCSV (runtime_enUS 0) show_int usa_bra_history = Inr (Some csv))
   \<and> csvRow show_int usa_bra_history (obj_keys usa_bra_history) ''2024-01-01''
       = ''2024-01-01'' @ csvCell show_int usa_bra_history ''2024-01-01'' ''USA'' @ '',,''
   \<and> (\<exists>out. downloadJSON (runtime_enUS 0) usa_bra_history = Inr (Some out))
   \<and> map_of (jsonEntry usa_bra_history (obj_keys usa_bra_history) ''2024-01-01'') ''BRA'' = None"
proof -
  define ch where
    "ch = \<lparr>labels = [''1/1/2024'', ''6/1/2024''],
           datasets = chartDatasets (runtime_enUS 0) (\<lambda>j. 0) [''USA'', ''BRA''] usa_bra_history
                        [''1/1/2024'', ''6/1/2024'']\<rparr>"
  define csv where
    "csv = csvHeader [''USA'', ''BRA'']
           @ concat (map (\<lambda>key. csvRow show_int usa_bra_history [''USA'', ''BRA''] key @ [CHR 0x0A])
                         [''2024-06-01'', ''2024-01-01''])"
  define out where
    "out = map (jsonEntry usa_bra_history [''USA'', ''BRA'']) [''2024-06-01'', ''2024-01-01'']"
  have k: "obj_keys usa_bra_history = [''USA''] @ ''BRA'' # []"
          "obj_keys (historyData usa_bra_loaded) = [''USA'', ''BRA'']"
    by (simp_all add: usa_bra_history_def usa_bra_loaded_def obj_keys_def)
  have c: "updateChart (runtime_enUS 0) (\<lambda>j. 0) usa_bra_loaded 1735689600000 (\<lambda>c i. 1735689600000) = Some ch"
    by (simp add: updateChart_def Let_def k usa_bra_filtered_all usa_bra_chartLabels ch_def)
  have d: "downloadCSV (runtime_enUS 0) show_int usa_bra_history = Inr (Some csv)"
    by (simp add: downloadCSV_def Let_def k usa_bra_sortedDates csv_def)
  have j: "downloadJSON (runtime_enUS 0) usa_bra_history = Inr (Some out)"
    by (simp add: downloadJSON_def Let_def k usa_bra_sortedDates out_def)
  have g: "obj_get usa_bra_history ''BRA'' = [mk_item ''BRA'' 1 (Some 1717200000000)]"
    by (simp add: obj_get_def usa_bra_history_def)
  have ck: "chartKey (runtime_enUS 0) (mk_item ''BRA'' 1 (Some 1717200000000)) = ''6/1/2024''"
    by (simp add: chartKey_def locale_day_2024)
  have ek: "exportKey (mk_item ''BRA'' 1 (Some 1717200000000)) = Inr ''2024-06-01''"
    by (simp add: exportKey_def iso_day_2024)
  from gap_correctness
         [where rt = "runtime_enUS 0" and random = "\<lambda>j. 0" and st = usa_bra_loaded
            and now = 1735689600000 and clk = "\<lambda>c i. 1735689600000" and ch = ch and j = 1 and i = 0
            and str = show_int and hm = usa_bra_history and csv = csv and pre = "[''USA'']"
            and A = "''BRA''" and post = "[]" and D = "''2024-01-01''" and out = out]
  have "data (datasets ch ! 1) ! 0 = None
        \<and> csvRow show_int usa_bra_history (obj_keys usa_bra_history) ''2024-01-01''
            = ''2024-01-01'' @ csvCell show_int usa_bra_history ''2024-01-01'' ''USA'' @ '',,''
        \<and> map_of (jsonEntry usa_bra_history (obj_keys usa_bra_history) ''2024-01-01'') ''BRA'' = None"
    using c d j k g ck ek by (simp add: usa_bra_filtered_all ch_def)
  then show ?thesis using c d j by (simp add: ch_def)
qed

section \<open>Records whose timestamp does not parse\<close>

lemma sortedDates_throws:
  assumes "(c, hist) \<in> set hm" and "x \<in> set hist" and "PubDate x = None"
  shows "sortedDates rt hm = Inl RangeError"
proof -
  have "\<exists>y \<in> set (concat (obj_values hm)). PubDate y = None"
    using in_concat_values [OF assms(1,2)] assms(3) by blast
  from collectDates_throws [OF this, of "[]"] show ?thesis by (simp add: sortedDates_def)
qed

lemma inTimeRange_invalid:
  "tr \<noteq> ''all'' \<Longrightarrow> PubDate x = None \<Longrightarrow> \<not> inTimeRange rt tr cs ce now k x"
  by (simp add: inTimeRange_def Let_def getFullYear_def)

text \<open>
  C7, as stated, at a history that holds one record with a valid and one with an
  unparseable \<open>PubDate\<close>: both exports throw a \<open>RangeError\<close>, and the chart, which does
  not throw, puts the label \<open>Invalid Date\<close> on its axis.
\<close>

theorem malformed_timestamp_counterexample:
  "downloadCSV (runtime_enUS 0) show_int usa_malformed_history = Inl RangeError
   \<and> downloadJSON (runtime_enUS 0) usa_malformed_history = Inl RangeError
   \<and> (\<exists>ch. updateChart (runtime_enUS 0) (\<lambda>j. 0) usa_malformed_loaded 1735689600000 (\<lambda>c i. 1735689600000)
              = Some ch \<and> ''Invalid Date'' \<in> set (labels ch))"
proof -
  have m: "(''USA'', [mk_item ''USA'' 3 (Some 1717200000000), mk_item ''USA'' 5 None])
             \<in> set usa_malformed_history"
    by (simp add: usa_malformed_history_def)
  have i: "mk_item ''USA'' 5 None \<in> set [mk_item ''USA'' 3 (Some 1717200000000), mk_item ''USA'' 5 None]"
    by simp
  have s: "sortedDates (runtime_enUS 0) usa_malformed_history = Inl RangeError"
    by (rule sortedDates_throws [OF m i]) simp
  have k: "length (obj_keys usa_malformed_history) \<noteq> 0"
    by (rule obj_keys_nonempty [OF m])
  have f: "filteredHistoryData (runtime_enUS 0) usa_malformed_loaded 1735689600000 (\<lambda>c i. 1735689600000)
             = usa_malformed_history"
    using filteredHistoryData_all [of usa_malformed_loaded]
    by (simp add: usa_malformed_loaded_def)
  have "chartKey (runtime_enUS 0) (mk_item ''USA'' 5 None) = ''Invalid Date''"
    by (simp add: chartKey_def toLocaleDateString_def)
  then have l: "''Invalid Date'' \<in> set (chartLabels (runtime_enUS 0) usa_malformed_history)"
    unfolding set_chartLabels using in_concat_values [OF m i] by (metis image_eqI)
  have "updateChart (runtime_enUS 0) (\<lambda>j. 0) usa_malformed_loaded 1735689600000 (\<lambda>c i. 1735689600000)
          = Some \<lparr>labels = chartLabels (runtime_enUS 0) usa_malformed_history,
                  datasets = chartDatasets (runtime_enUS 0) (\<lambda>j. 0) (obj_keys usa_malformed_history)
                               usa_malformed_history
                               (chartLabels (runtime_enUS 0) usa_malformed_history)\<rparr>"
    using k by (simp add: updateChart_def Let_def f) (simp add: usa_malformed_loaded_def)
  with l s k show ?thesis by (simp add: downloadCSV_def downloadJSON_def Let_def)
qed

text \<open>
  C7, amended: for a history map that holds a record whose \<open>PubDate\<close> does not parse,
  \<open>downloadCSV\<close> and \<open>downloadJSON\<close> throw a \<open>RangeError\<close> and save no file.
  \<open>updateChart\<close> does not throw: under the time range \<open>all\<close> it keeps the record and the
  axis carries the label \<open>Invalid Date\<close> for it; under every other time range the filter
  drops the record, so that it adds no label.
\<close>

theorem malformed_timestamp:
  assumes "(c, hist) \<in> set hm" and "x \<in> set hist" and "PubDate x = None"
  shows "downloadCSV rt str hm = Inl RangeError
         \<and> downloadJSON rt hm = Inl RangeError
         \<and> (historyData st = hm \<longrightarrow>
              (\<exists>ch. updateChart rt random st now clk = Some ch
                    \<and> (timeRange st = ''all'' \<longrightarrow> ''Invalid Date'' \<in> set (labels ch))
                    \<and> (timeRange st \<noteq> ''all'' \<longrightarrow>
                          x \<notin> set (concat (obj_values (filteredHistoryData rt st now clk))))))"
proof (intro conjI impI)
  have s: "sortedDates rt hm = Inl RangeError" by (rule sortedDates_throws [OF assms])
  have k: "length (obj_keys hm) \<noteq> 0" by (rule obj_keys_nonempty [OF assms(1)])
  show "downloadCSV rt str hm = Inl RangeError" using s k by (simp add: downloadCSV_def Let_def)
  show "downloadJSON rt hm = Inl RangeError" using s k by (simp add: downloadJSON_def Let_def)
  assume h: "historyData st = hm"
  let ?f = "filteredHistoryData rt st now clk"
  let ?ch = "\<lparr>labels = chartLabels rt ?f,
              datasets = chartDatasets rt random (obj_keys hm) ?f (chartLabels rt ?f)\<rparr>"
  have u: "updateChart rt random st now clk = Some ?ch"
    using k h by (simp add: updateChart_def Let_def)
  have a: "timeRange st = ''all'' \<longrightarrow> ''Invalid Date'' \<in> set (labels ?ch)"
  proof
    assume tr: "timeRange st = ''all''"
    have f: "?f = hm"
      using filteredHistoryData_all [OF tr, of rt now clk] h by simp
    have "chartKey rt x = ''Invalid Date''"
      using assms(3) by (simp add: chartKey_def toLocaleDateString_def)
    then have "''Invalid Date'' \<in> chartKey rt ` set (concat (obj_values hm))"
      using in_concat_values [OF assms(1,2)] by (metis image_eqI)
    then show "''Invalid Date'' \<in> set (labels ?ch)"
      by (simp add: set_chartLabels f)
  qed
  have b: "timeRange st \<noteq> ''all'' \<longrightarrow> x \<notin> set (concat (obj_values ?f))"
  proof
    assume tr: "timeRange st \<noteq> ''all''"
    show "x \<notin> set (concat (obj_values ?f))"
      using in_filteredHistoryData [of x rt st now clk] inTimeRange_invalid [OF tr assms(3)]
      by blast
  qed
  from u a b show "\<exists>ch. updateChart rt random st now clk = Some ch
                    \<and> (timeRange st = ''all'' \<longrightarrow> ''Invalid Date'' \<in> set (labels ch))
                    \<and> (timeRange st \<noteq> ''all'' \<longrightarrow>
                          x \<notin> set (concat (obj_values (filteredHistoryData rt st now clk))))"
    by blast
qed

theorem malformed_timestamp_witness:
  "downloadCSV (runtime_enUS 0) show_int usa_malformed_history = Inl RangeError
   \<and> downloadJSON (runtime_enUS 0) usa_malformed_history = Inl RangeError
   \<and> (\<exists>ch. updateChart (runtime_enUS 0) (\<lambda>j. 0) usa_malformed_loaded 0 (\<lambda>c i. 0) = Some ch
          \<and> ''Invalid Date'' \<in> set (labels ch))"
proof -
  have m: "(''USA'', [mk_item ''USA'' 3 (Some 1717200000000), mk_item ''USA'' 5 None])
             \<in> set usa_malformed_history"
    by (simp add: usa_malformed_history_def)
  have i: "mk_item ''USA'' 5 None \<in> set [mk_item ''USA'' 3 (Some 1717200000000), mk_item ''USA'' 5 None]"
    by simp
  have p: "PubDate (mk_item ''USA'' 5 None) = None" by simp
  have h: "historyData usa_malformed_loaded = usa_malformed_history"
          "timeRange usa_malformed_loaded = ''all''"
    by (simp_all add: usa_malformed_loaded_def)
  from malformed_timestamp
         [OF m i p, where rt = "runtime_enUS 0" and str = show_int and st = usa_malformed_loaded
            and random = "\<lambda>j. 0" and now = 0 and clk = "\<lambda>c i. 0"]
  show ?thesis using h by simp
qed

section \<open>The date keys of the two consumers\<close>

text \<open>
  C2, as stated: the chart groups by \<open>toLocaleDateString()\<close>, the exports by the date
  part of \<open>toISOString()\<close>.  For the instant 2024-06-01T00:00Z in the locale \<open>en-US\<close> the
  two keys are \<open>6/1/2024\<close> and \<open>2024-06-01\<close>; and one hour east of UTC the instants
  2024-06-01T00:00Z and 2024-05-31T23:30Z are on the same local day and have the same
  chart key, but different export keys.
\<close>

theorem date_keys_differ_counterexample:
  "Inr (chartKey (runtime_enUS 0) (mk_item ''USA'' 3 (Some 1717200000000)))
     \<noteq> exportKey (mk_item ''USA'' 3 (Some 1717200000000))
   \<and> chartKey (runtime_enUS 3600000) (mk_item ''USA'' 3 (Some 1717200000000))
       = chartKey (runtime_enUS 3600000) (mk_item ''USA'' 3 (Some 1717198200000))
   \<and> exportKey (mk_item ''USA'' 3 (Some 1717200000000))
       \<noteq> exportKey (mk_item ''USA'' 3 (Some 1717198200000))"
  by (simp add: chartKey_def exportKey_def locale_day_2024 iso_day_2024
        locale_day_plus_one_hour iso_day_2024_more)

text \<open>
  C2, amended: the two consumers use different key functions, each its own throughout.
  The chart's key is the locale's text for the local calendar day: two timestamps on
  the same local day have the same chart key, the labels of the axis are exactly the
  chart keys of the filtered records, and a series looks a label up among the chart keys
  of its records.  The exporters' key is the ISO date of the UTC day: two timestamps on
  the same UTC day have the same export key, the dates of the rows are exactly the
  export keys of the records, and a row looks its date up among the export keys.
\<close>

theorem date_keys_per_consumer:
  "(PubDate a = Some t \<and> PubDate b = Some u \<and> Day (LocalTime rt t) = Day (LocalTime rt u)
      \<longrightarrow> chartKey rt a = chartKey rt b)
   \<and> set (chartLabels rt filtered) = chartKey rt ` set (concat (obj_values filtered))
   \<and> seriesData rt lbls hist
       = map (\<lambda>l. or_null (Map_of_entries (map (\<lambda>x. (chartKey rt x, Rank x)) hist) l)) lbls
   \<and> (PubDate a = Some t \<and> PubDate b = Some u \<and> Day t = Day u \<longrightarrow> exportKey a = exportKey b)
   \<and> (sortedDates rt hm = Inr ds \<longrightarrow> Inr ` set ds = exportKey ` set (concat (obj_values hm)))
   \<and> findItem hist key = find (\<lambda>x. exportKey x = Inr key) hist"
proof (intro conjI impI)
  show "chartKey rt a = chartKey rt b"
    if "PubDate a = Some t \<and> PubDate b = Some u \<and> Day (LocalTime rt t) = Day (LocalTime rt u)"
    using that by (simp add: chartKey_def toLocaleDateString_def Let_def)
  show "set (chartLabels rt filtered) = chartKey rt ` set (concat (obj_values filtered))"
    by (rule set_chartLabels)
  show "seriesData rt lbls hist
       = map (\<lambda>l. or_null (Map_of_entries (map (\<lambda>x. (chartKey rt x, Rank x)) hist) l)) lbls"
    by (simp add: seriesData_def)
  show "exportKey a = exportKey b" if "PubDate a = Some t \<and> PubDate b = Some u \<and> Day t = Day u"
    using that by (simp add: exportKey_def toISOString_date_def)
  show "Inr ` set ds = exportKey ` set (concat (obj_values hm))" if "sortedDates rt hm = Inr ds"
    using that by (rule sortedDates_Inr(2))
  show "findItem hist key = find (\<lambda>x. exportKey x = Inr key) hist"
    by (simp add: findItem_def)
qed

theorem date_keys_per_consumer_witness:
  "chartKey (runtime_enUS 3600000) (mk_item ''USA'' 3 (Some 1717200000000))
     = chartKey (runtime_enUS 3600000) (mk_item ''USA'' 5 (Some 1717198200000))
   \<and> exportKey (mk_item ''USA'' 3 (Some 1717203600000))
       = exportKey (mk_item ''USA'' 5 (Some 1717200000000))
   \<and> Inr ` set [''2024-06-01'', ''2024-01-01'']
       = exportKey ` set (concat (obj_values usa_bra_history))"
proof -
  have l: "PubDate (mk_item ''USA'' 3 (Some 1717200000000)) = Some 1717200000000
           \<and> PubDate (mk_item ''USA'' 5 (Some 1717198200000)) = Some 1717198200000
           \<and> Day (LocalTime (runtime_enUS 3600000) 1717200000000)
               = Day (LocalTime (runtime_enUS 3600000) 1717198200000)"
    by (simp add: Day_def LocalTime_def runtime_enUS_def msPerDay_def)
  have d: "PubDate (mk_item ''USA'' 3 (Some 1717203600000)) = Some 1717203600000
           \<and> PubDate (mk_item ''USA'' 5 (Some 1717200000000)) = Some 1717200000000
           \<and> Day 1717203600000 = Day 1717200000000"
    by (simp add: Day_def msPerDay_def)
  note local_day =
    date_keys_per_consumer
      [where a = "mk_item ''USA'' 3 (Some 1717200000000)" and t = 1717200000000
         and b = "mk_item ''USA'' 5 (Some 1717198200000)" and u = 1717198200000
         and rt = "runtime_enUS 3600000" and filtered = usa_bra_history and lbls = "[]"
         and hist = "[]" and hm = usa_bra_history and ds = "[]" and key = "[]"]
  note utc_day =
    date_keys_per_consumer
      [where a = "mk_item ''USA'' 3 (Some 1717203600000)" and t = 1717203600000
         and b = "mk_item ''USA'' 5 (Some 1717200000000)" and u = 1717200000000
         and rt = "runtime_enUS 0" and hm = usa_bra_history
         and ds = "[''2024-06-01'', ''2024-01-01'']" and filtered = usa_bra_history
         and lbls = "[]" and hist = "[]" and key = "[]"]
  have 1: "chartKey (runtime_enUS 3600000) (mk_item ''USA'' 3 (Some 1717200000000))
             = chartKey (runtime_enUS 3600000) (mk_item ''USA'' 5 (Some 1717198200000))"
    by (rule local_day [THEN conjunct1, THEN mp, OF l])
  have 2: "exportKey (mk_item ''USA'' 3 (Some 1717203600000))
             = exportKey (mk_item ''USA'' 5 (Some 1717200000000))"
    by (rule utc_day [THEN conjunct2, THEN conjunct2, THEN conjunct2, THEN conjunct1, THEN mp, OF d])
  have 3: "Inr ` set [''2024-06-01'', ''2024-01-01'']
             = exportKey ` set (concat (obj_values usa_bra_history))"
    by (rule utc_day [THEN conjunct2, THEN conjunct2, THEN conjunct2, THEN conjunct2,
                      THEN conjunct1, THEN mp, OF usa_bra_sortedDates])
  from 1 2 3 show ?thesis by (intro conjI)
qed

section \<open>The length of the axis\<close>

lemma length_concat_sum: "length (concat xss) = sum_list (map length xss)"
  by (induction xss) simp_all

lemma length_chartLabels:
  "length (chartLabels rt filtered) = card (chartKey rt ` set (concat (obj_values filtered)))"
  using distinct_chartLabels [of rt filtered] set_chartLabels [of rt filtered]
  by (metis distinct_card)

lemma card_image_le_length: "card (f ` set xs) \<le> length xs"
  by (meson card_image_le card_length le_trans List.finite_set)

lemma card_image_distinct: "distinct (map f xs) \<Longrightarrow> card (f ` set xs) = length xs"
  by (metis distinct_card length_map list.set_map)

lemma axis_bounds:
  assumes "distinct axis" and "set axis = f ` set (concat hists)" and "hist \<in> set hists"
  shows "card (f ` set hist) \<le> length axis"
    and "length axis \<le> sum_list (map length hists)"
    and "distinct (map f hist) \<Longrightarrow> length hist \<le> length axis"
proof -
  have len: "length axis = card (f ` set (concat hists))"
    using assms(1,2) by (metis distinct_card)
  have "f ` set hist \<subseteq> f ` set (concat hists)" using assms(3) by auto
  then show lo: "card (f ` set hist) \<le> length axis"
    unfolding len by (simp add: card_mono)
  show "length axis \<le> sum_list (map length hists)"
    unfolding len using card_image_le_length [of f "concat hists"]
    by (simp add: length_concat_sum)
  show "length hist \<le> length axis" if "distinct (map f hist)"
    using lo card_image_distinct [OF that] by simp
qed

text \<open>
  C8, as stated, at a history whose two records are of the same day: the axis of the
  chart and the axis of the exports have one date each, the history has two records.
\<close>

theorem axis_length_counterexample:
  "length (chartLabels (runtime_enUS 0) usa_same_day_history) = 1
   \<and> sortedDates (runtime_enUS 0) usa_same_day_history = Inr [''2024-06-01'']
   \<and> length (obj_get usa_same_day_history ''USA'') = 2"
  by (simp add: chartLabels_def sortedDates_def usa_same_day_history_def obj_values_def
        obj_get_def chartKey_def exportKey_def locale_day_2024 locale_day_2024_more iso_day_2024
        iso_day_2024_more set_add_def array_sort_def)

text \<open>
  C8, amended: the number of dates on an axis is at least the number of distinct date
  keys of every single history on it (which is the length of that history when its
  records are of pairwise different days) and at most the sum of the lengths of all
  histories.  This holds for the chart's axis over the filtered histories and for the
  exports' axis over the stored ones.
\<close>

theorem axis_length_bounds:
  assumes "(c, hist) \<in> set hm"
  shows "card (chartKey rt ` set hist) \<le> length (chartLabels rt hm)
         \<and> length (chartLabels rt hm) \<le> sum_list (map length (obj_values hm))
         \<and> (distinct (map (chartKey rt) hist) \<longrightarrow> length hist \<le> length (chartLabels rt hm))
         \<and> (sortedDates rt hm = Inr ds \<longrightarrow>
               card (exportKey ` set hist) \<le> length ds
               \<and> length ds \<le> sum_list (map length (obj_values hm))
               \<and> (distinct (map exportKey hist) \<longrightarrow> length hist \<le> length ds))"
proof -
  have h: "hist \<in> set (obj_values hm)" using assms by (force simp: obj_values_def)
  note c = axis_bounds [OF distinct_chartLabels set_chartLabels h, of rt]
  have e: "card (exportKey ` set hist) \<le> length ds
           \<and> length ds \<le> sum_list (map length (obj_values hm))
           \<and> (distinct (map exportKey hist) \<longrightarrow> length hist \<le> length ds)"
    if s: "sortedDates rt hm = Inr ds"
  proof -
    have d: "distinct (map Inr ds :: (js_error + string) list)"
      using sortedDates_Inr(3) [OF s] by (simp add: distinct_map inj_on_def)
    have t: "set (map Inr ds) = exportKey ` set (concat (obj_values hm))"
      using sortedDates_Inr(2) [OF s] by simp
    from axis_bounds [OF d t h] show ?thesis by simp
  qed
  from c e show ?thesis by blast
qed

theorem axis_length_bounds_witness:
  "length (obj_get usa_bra_history ''USA'') \<le> length (chartLabels (runtime_enUS 0) usa_bra_history)
   \<and> length (chartLabels (runtime_enUS 0) usa_bra_history)
       \<le> sum_list (map length (obj_values usa_bra_history))
   \<and> length (obj_get usa_bra_history ''USA'') \<le> length [''2024-06-01'', ''2024-01-01'']"
proof -
  have m: "(''USA'', [mk_item ''USA'' 3 (Some 1717200000000), mk_item ''USA'' 5 (Some 1704067200000)])
             \<in> set usa_bra_history"
    by (simp add: usa_bra_history_def)
  have g: "obj_get usa_bra_history ''USA''
             = [mk_item ''USA'' 3 (Some 1717200000000), mk_item ''USA'' 5 (Some 1704067200000)]"
    by (simp add: obj_get_def usa_bra_history_def)
  from axis_length_bounds [OF m, of "runtime_enUS 0" "[''2024-06-01'', ''2024-01-01'']"]
       usa_bra_sortedDates
  show ?thesis
    by (simp add: g chartKey_def exportKey_def locale_day_2024 iso_day_2024)
qed

section \<open>Several records of one day\<close>

text \<open>
  \<open>fetchRankings\<close> stores a history sorted by time, latest first.  In such a history
  \<open>find\<close>, which the exporters use, returns the latest record of a day, and the \<open>Map\<close>
  of the chart, in which a later entry replaces an earlier one, holds the earliest.
\<close>

lemma export_reads_latest:
  assumes "\<forall>x \<in> set rs. PubDate x \<noteq> None"
    and "findItem (array_sort compareDesc rs) key = Some x"
  shows "x \<in> set rs \<and> exportKey x = Inr key
         \<and> (\<forall>y \<in> set rs. exportKey y = Inr key \<longrightarrow> timeOf y \<le> timeOf x)"
  using find_reads_latest [OF stored_history_sorted [OF assms(1)] assms(2) [unfolded findItem_def]]
  by (simp add: set_array_sort)

lemma chart_reads_earliest:
  assumes "\<forall>x \<in> set rs. PubDate x \<noteq> None"
    and "Map_of_entries (map (\<lambda>h. (chartKey rt h, Rank h)) (filter P (array_sort compareDesc rs)))
           key = Some v"
  shows "\<exists>x \<in> set rs. P x \<and> chartKey rt x = key \<and> Rank x = v
           \<and> (\<forall>y \<in> set rs. P y \<and> chartKey rt y = key \<longrightarrow> timeOf x \<le> timeOf y)"
  using Map_reads_earliest
          [OF sorted_wrt_filter_desc [OF stored_history_sorted [OF assms(1)]] assms(2)]
  by (auto simp: set_array_sort)

text \<open>
  C3 at an entity with two records of 2024-06-01, rank 5 at 00:00 and rank 3 at 01:00
  UTC: \<open>fetchRankings\<close> stores the later record first.  The exporters' \<open>find\<close> returns
  the first record of the day, the later one, and the CSV row reads rank 3.  The
  chart's \<open>Map\<close> keeps the last entry written for the label, the earlier record, and the
  series reads rank 5.
\<close>

theorem same_day_chart_reads_earliest:
  "historyData (fetchRankings usa_same_day_api usa_selected)
     = [(''USA'', [mk_item ''USA'' 3 (Some 1717203600000), mk_item ''USA'' 5 (Some 1717200000000)])]
   \<and> downloadCSV (runtime_enUS 0) show_int (historyData (fetchRankings usa_same_day_api usa_selected))
       = Inr (Some (''Date,USA Rank,USA Points'' @ [CHR 0x0A] @ ''2024-06-01,3,0'' @ [CHR 0x0A]))
   \<and> (\<exists>ch. updateChart (runtime_enUS 0) (\<lambda>j. 0) (fetchRankings usa_same_day_api usa_selected)
               1735689600000 (\<lambda>c i. 1735689600000) = Some ch
          \<and> labels ch = [''6/1/2024''] \<and> map data (datasets ch) = [[Some 5]])"
proof -
  let ?st = "fetchRankings usa_same_day_api usa_selected"
  have h: "historyData ?st = usa_same_day_history" by (rule usa_same_day_fetched)
  have tr: "timeRange ?st = ''all''"
    by (simp add: fetchRankings_def usa_selected_def Let_def split: sum.splits)
  have f: "filteredHistoryData (runtime_enUS 0) ?st 1735689600000 (\<lambda>c i. 1735689600000)
             = usa_same_day_history"
    using filteredHistoryData_all [OF tr] h by simp
  have k: "obj_keys usa_same_day_history = [''USA'']"
    by (simp add: obj_keys_def usa_same_day_history_def)
  have l: "chartLabels (runtime_enUS 0) usa_same_day_history = [''6/1/2024'']"
    by (simp add: chartLabels_def usa_same_day_history_def obj_values_def chartKey_def
          locale_day_2024 locale_day_2024_more set_add_def array_sort_def)
  have s: "sortedDates (runtime_enUS 0) usa_same_day_history = Inr [''2024-06-01'']"
    by (simp add: sortedDates_def usa_same_day_history_def obj_values_def exportKey_def
          iso_day_2024 iso_day_2024_more set_add_def array_sort_def)
  have g: "obj_get usa_same_day_history ''USA''
             = [mk_item ''USA'' 3 (Some 1717203600000), mk_item ''USA'' 5 (Some 1717200000000)]"
    by (simp add: obj_get_def usa_same_day_history_def)
  have n: "show_int 3 = ''3''" "show_int 0 = ''0''" by code_simp+
  have csv: "downloadCSV (runtime_enUS 0) show_int usa_same_day_history
               = Inr (Some (''Date,USA Rank,USA Points'' @ [CHR 0x0A] @ ''2024-06-01,3,0'' @ [CHR 0x0A]))"
    by (simp add: downloadCSV_def Let_def k s csvHeader_def csvRow_def csvCell_def g findItem_def
          exportKey_def iso_day_2024 iso_day_2024_more n)
  have d: "seriesData (runtime_enUS 0) [''6/1/2024''] (obj_get usa_same_day_history ''USA'')
             = [Some 5]"
    by (simp add: seriesData_def g Map_of_entries_def chartKey_def locale_day_2024
          locale_day_2024_more or_null_def)
  have ch: "updateChart (runtime_enUS 0) (\<lambda>j. 0) ?st 1735689600000 (\<lambda>c i. 1735689600000)
              = Some \<lparr>labels = [''6/1/2024''],
                      datasets = chartDatasets (runtime_enUS 0) (\<lambda>j. 0) [''USA'']
                                   usa_same_day_history [''6/1/2024'']\<rparr>"
    by (simp add: updateChart_def Let_def h f k l)
  have ds: "map data (chartDatasets (runtime_enUS 0) (\<lambda>j. 0) [''USA''] usa_same_day_history
                        [''6/1/2024'']) = [[Some 5]]"
    by (simp add: chartDatasets_def Let_def d)
  show ?thesis
    using ch ds csv h by (simp add: usa_same_day_history_def)
qed

section \<open>The order of the axes\<close>

text \<open>
  For records with valid timestamps the dates of the export are in strictly decreasing
  order in every runtime (\<open>export_dates_decreasing\<close>), and the labels of the chart are in
  strictly increasing order in a runtime whose \<open>Date\<close> constructor reads the locale's
  dates back in calendar order (\<open>chart_labels_increasing\<close>), as with \<open>en-US\<close>.  The
  constructor does not do so for every locale.

  C4 at a browser whose locale is \<open>en-GB\<close>, for an entity with records of 2024-06-01 and
  2024-02-05: the labels are \<open>01/06/2024\<close> and \<open>05/02/2024\<close>, the \<open>Date\<close> constructor
  reads them back as the 6th of January and the 2nd of May, and the sort puts the label
  of the 1st of June before the label of the 5th of February.
\<close>

theorem chart_labels_enGB_not_chronological:
  "chartKey (runtime_enGB 0) (mk_item ''USA'' 3 (Some 1717200000000)) = ''01/06/2024''
   \<and> chartKey (runtime_enGB 0) (mk_item ''USA'' 5 (Some 1707091200000)) = ''05/02/2024''
   \<and> (\<exists>ch. updateChart (runtime_enGB 0) (\<lambda>j. 0) usa_feb_jun_loaded 1735689600000 (\<lambda>c i. 1735689600000)
               = Some ch
          \<and> labels ch = [''01/06/2024'', ''05/02/2024'']
          \<and> map data (datasets ch) = [[Some 3, Some 5]])"
proof -
  have tr: "timeRange usa_feb_jun_loaded = ''all''" by (simp add: usa_feb_jun_loaded_def)
  have h: "historyData usa_feb_jun_loaded = usa_feb_jun_history"
    by (simp add: usa_feb_jun_loaded_def)
  have f: "filteredHistoryData (runtime_enGB 0) usa_feb_jun_loaded 1735689600000 (\<lambda>c i. 1735689600000)
             = usa_feb_jun_history"
    using filteredHistoryData_all [OF tr] h by simp
  have k: "obj_keys usa_feb_jun_history = [''USA'']"
    by (simp add: obj_keys_def usa_feb_jun_history_def)
  have l: "chartLabels (runtime_enGB 0) usa_feb_jun_history = [''01/06/2024'', ''05/02/2024'']"
    by (simp add: chartLabels_def usa_feb_jun_history_def obj_values_def chartKey_def
          locale_day_enGB set_add_def array_sort_def sortCompare_def compareAsc_def
          parse_day_enGB number_minus_def)
  have g: "obj_get usa_feb_jun_history ''USA''
             = [mk_item ''USA'' 3 (Some 1717200000000), mk_item ''USA'' 5 (Some 1707091200000)]"
    by (simp add: obj_get_def usa_feb_jun_history_def)
  have d: "seriesData (runtime_enGB 0) [''01/06/2024'', ''05/02/2024'']
             (obj_get usa_feb_jun_history ''USA'') = [Some 3, Some 5]"
    by (simp add: seriesData_def g Map_of_entries_def chartKey_def locale_day_enGB or_null_def)
  have ch: "updateChart (runtime_enGB 0) (\<lambda>j. 0) usa_feb_jun_loaded 1735689600000 (\<lambda>c i. 1735689600000)
              = Some \<lparr>labels = [''01/06/2024'', ''05/02/2024''],
                      datasets = chartDatasets (runtime_enGB 0) (\<lambda>j. 0) [''USA'']
                                   usa_feb_jun_history [''01/06/2024'', ''05/02/2024'']\<rparr>"
    by (simp add: updateChart_def Let_def h f k l)
  have ds: "map data (chartDatasets (runtime_enGB 0) (\<lambda>j. 0) [''USA''] usa_feb_jun_history
                        [''01/06/2024'', ''05/02/2024'']) = [[Some 3, Some 5]]"
    by (simp add: chartDatasets_def Let_def d)
  show ?thesis
    using ch ds by (simp add: chartKey_def locale_day_enGB)
qed

section \<open>The relative time range\<close>

lemma of_char_digit_char: "k < 10 \<Longrightarrow> (of_char (digit_char k) :: nat) = 48 + k"
  by (simp add: digit_char_def)

lemma digit_val_digit_char: "k < 10 \<Longrightarrow> digit_val (digit_char k) = Some k"
  by (simp add: digit_val_def of_char_digit_char Let_def)

lemma digit_char_not_special:
  assumes "k < 10"
  shows "digit_char k \<noteq> CHR ''y''" "digit_char k \<noteq> CHR ''-''" "digit_char k \<noteq> CHR ''+''"
    "\<not> is_white (digit_char k)" "digit_char k \<noteq> CHR ''c''" "digit_char k \<noteq> CHR ''a''"
proof -
  have o: "(of_char (digit_char k) :: nat) = 48 + k" by (rule of_char_digit_char [OF assms])
  show "digit_char k \<noteq> CHR ''y''" using o assms by auto
  show "digit_char k \<noteq> CHR ''-''" using o assms by auto
  show "digit_char k \<noteq> CHR ''+''" using o assms by auto
  show "\<not> is_white (digit_char k)" using o assms by (simp add: is_white_def)
  show "digit_char k \<noteq> CHR ''c''" using o assms by auto
  show "digit_char k \<noteq> CHR ''a''" using o assms by auto
qed

lemma show_nat_digits: "\<forall>c \<in> set (show_nat n). \<exists>k < 10. c = digit_char k"
proof (induction n rule: show_nat.induct)
  case (1 n)
  show ?case
  proof (cases "n < 10")
    case True
    then show ?thesis by (subst show_nat.simps) auto
  next
    case False
    have "\<exists>k < 10. digit_char (n mod 10) = digit_char k"
      by (rule exI [of _ "n mod 10"]) simp
    with False 1 show ?thesis by (subst show_nat.simps) auto
  qed
qed

lemma show_nat_nonempty: "show_nat n \<noteq> []"
  by (subst show_nat.simps) simp

lemma digit_prefix_append:
  "\<forall>c \<in> set xs. \<exists>k < 10. c = digit_char k \<Longrightarrow>
     digit_prefix (xs @ ys) acc = digit_prefix ys (digit_prefix xs acc)"
proof (induction xs arbitrary: acc)
  case Nil
  then show ?case by simp
next
  case (Cons x xs)
  then obtain k where k: "k < 10" "x = digit_char k" by auto
  with Cons show ?case by (simp add: digit_val_digit_char)
qed

lemma digit_prefix_show_nat: "digit_prefix (show_nat n) None = Some n"
proof (induction n rule: show_nat.induct)
  case (1 n)
  show ?case
  proof (cases "n < 10")
    case True
    then show ?thesis by (subst show_nat.simps) (simp add: digit_val_digit_char)
  next
    case False
    have m: "n mod 10 < 10" by simp
    have "digit_prefix (show_nat (n div 10) @ [digit_char (n mod 10)]) None
            = digit_prefix [digit_char (n mod 10)] (digit_prefix (show_nat (n div 10)) None)"
      by (rule digit_prefix_append [OF show_nat_digits])
    also have "\<dots> = digit_prefix [digit_char (n mod 10)] (Some (n div 10))"
      using False 1 by simp
    also have "\<dots> = Some n"
      using m by (simp add: digit_val_digit_char)
    finally show ?thesis using False by (subst show_nat.simps) simp
  qed
qed

lemma replace_first_fresh: "c \<notin> set xs \<Longrightarrow> replace_first c (xs @ c # ys) = xs @ ys"
  by (induction xs) auto

lemma hd_show_nat: "\<exists>k < 10. hd (show_nat n) = digit_char k"
  using show_nat_digits [of n] show_nat_nonempty [of n] by (cases "show_nat n") auto

lemma parseInt_show_nat: "parseInt (show_nat n) = Some (int n)"
proof -
  obtain k where k: "k < 10" "hd (show_nat n) = digit_char k" using hd_show_nat by blast
  obtain x xs where s: "show_nat n = x # xs" using show_nat_nonempty by (cases "show_nat n") auto
  with k have x: "x = digit_char k" by simp
  have w: "dropWhile is_white (show_nat n) = show_nat n"
    using digit_char_not_special(4) [OF k(1)] by (simp add: s x)
  show ?thesis
    unfolding parseInt_def w Let_def
    using digit_char_not_special(2,3) [OF k(1)] digit_prefix_show_nat [of n]
    by (simp add: s x)
qed

lemma years_range:
  "parseInt (replace_first CHR ''y'' (show_nat n @ ''y'')) = Some (int n)"
  "show_nat n @ ''y'' \<noteq> ''custom''" "show_nat n @ ''y'' \<noteq> ''all''"
proof -
  have "CHR ''y'' \<notin> set (show_nat n)"
  proof
    assume "CHR ''y'' \<in> set (show_nat n)"
    from bspec [OF show_nat_digits this] obtain k where "k < 10" "CHR ''y'' = digit_char k"
      by auto
    then show False using digit_char_not_special(1) [of k] by simp
  qed
  then have "replace_first CHR ''y'' (show_nat n @ ''y'') = show_nat n"
    using replace_first_fresh [of "CHR ''y''" "show_nat n" "[]"] by simp
  then show "parseInt (replace_first CHR ''y'' (show_nat n @ ''y'')) = Some (int n)"
    by (simp add: parseInt_show_nat)
  obtain k where k: "k < 10" "hd (show_nat n) = digit_char k" using hd_show_nat by blast
  obtain x xs where s: "show_nat n = x # xs" using show_nat_nonempty by (cases "show_nat n") auto
  with k have x: "x = digit_char k" by simp
  show "show_nat n @ ''y'' \<noteq> ''custom''"
    using digit_char_not_special(5) [OF k(1)] by (simp add: s x)
  show "show_nat n @ ''y'' \<noteq> ''all''"
    using digit_char_not_special(6) [OF k(1)] by (simp add: s x)
qed

lemma inTimeRange_neither:
  assumes "tr \<noteq> ''custom''" and "tr \<noteq> ''all''"
  shows "inTimeRange rt tr cs ce now clk itm \<longleftrightarrow>
           (case (PubDate itm,
                  setFullYear rt clk
                    (number_minus (getFullYear rt (Some now))
                                  (parseInt (replace_first CHR ''y'' tr)))) of
              (Some t, Some c) \<Rightarrow> c \<le> t
            | _ \<Rightarrow> False)"
  using assms by (simp add: inTimeRange_def Let_def)

lemma inTimeRange_years:
  "inTimeRange rt (show_nat n @ ''y'') cs ce now clk itm \<longleftrightarrow>
     (case (PubDate itm,
            setFullYear rt clk (Some (YearFromDay (Day (LocalTime rt now)) - int n))) of
        (Some t, Some c) \<Rightarrow> c \<le> t
      | _ \<Rightarrow> False)"
  unfolding inTimeRange_neither [OF years_range(2,3)] years_range(1)
  by (simp add: getFullYear_def number_minus_def)

lemma setFullYear_now:
  "setFullYear rt now (Some (YearFromDay (Day (LocalTime rt now)) - n)) = yearsBefore rt now n"
  by (simp add: setFullYear_def yearsBefore_def Let_def)

lemma relative_years_member:
  "y \<in> set (filterHistory rt (show_nat n @ ''y'') cs ce now clk hist)
     \<longleftrightarrow> (\<exists>i < length hist. hist ! i = y
            \<and> (case (PubDate y,
                      setFullYear rt (clk i) (Some (YearFromDay (Day (LocalTime rt now)) - int n))) of
                  (Some t, Some c) \<Rightarrow> c \<le> t
                | _ \<Rightarrow> False))"
  by (simp only: in_filterHistory inTimeRange_years)

lemma relative_years_one_reading:
  "filterHistory rt (show_nat n @ ''y'') cs ce now (\<lambda>i. now) hist
     = relativeYears rt (int n) now hist"
  unfolding filterHistory_same_clock relativeYears_def
  by (rule filter_cong [OF refl]) (simp add: inTimeRange_years setFullYear_now)

lemma one_year: "show_nat 1 @ ''y'' = ''1y''"
  by code_simp

lemma scenario_cutoff:
  "yearsBefore (runtime_enUS 0) 1735689600000 1 = Some 1704067200000"
  "yearsBefore (runtime_enUS 0) 1735689599999 1 = Some 1704067199999"
  by code_simp+

lemma scenario_year:
  "YearFromDay (Day (LocalTime (runtime_enUS 0) 1735689599999)) = 2024"
  "YearFromDay (Day (LocalTime (runtime_enUS 0) 1735689600000)) = 2025"
  by code_simp+

lemma scenario_setFullYear:
  "setFullYear (runtime_enUS 0) 1735689600000 (Some 2023) = Some 1672531200000"
  "setFullYear (runtime_enUS 0) 1735689600001 (Some 2024) = Some 1704067200001"
  by code_simp+

lemma relative_years_scenario:
  "filterHistory (runtime_enUS 0) ''1y'' cs ce 1735689600000 (\<lambda>i. 1735689600000)
     [mk_item ''USA'' 9 (Some 1672531200000), mk_item ''USA'' 3 (Some 1717200000000),
      mk_item ''USA'' 5 (Some 1704067200000)]
   = [mk_item ''USA'' 3 (Some 1717200000000), mk_item ''USA'' 5 (Some 1704067200000)]"
  unfolding one_year [symmetric] relative_years_one_reading
  by (simp add: relativeYears_def scenario_cutoff)

text \<open>
  With the range \<open>n\<close> followed by \<open>y\<close>, the cutoff of a record has the year of \<open>now\<close> less
  \<open>n\<close>, and the month, the day and the time of day of the clock as the callback reads it
  again at that record (\<open>relative_years_member\<close>).  When every reading is the instant
  \<open>now\<close>, the cutoff is \<open>now\<close> shifted back \<open>n\<close> calendar years, the filter keeps exactly the
  records at or after it, the instant itself included (\<open>relative_years_one_reading\<close>),
  and with now = 2025-01-01 and \<open>1y\<close> it drops the record of 2023-01-01 and keeps the
  records of 2024-06-01 and of the boundary 2024-01-01 (\<open>relative_years_scenario\<close>).
  The instant \<open>yearsBefore rt now n\<close> has the local month, day and time of day of \<open>now\<close> in
  the year \<open>n\<close> before, whenever that year has the day (\<open>yearsBefore_calendar\<close>).

  C9 at readings of the clock that are one millisecond apart, for the records of
  2023-01-01, 2024-06-01 and 2024-01-01 (ranks 9, 3 and 5) and the range \<open>1y\<close>.  With
  \<open>now\<close> read at 2024-12-31T23:59:59.999Z and the clock at 2025-01-01T00:00:00.000Z when
  the records are tested, the cutoff is 2023-01-01T00:00Z: the record of 2023-01-01 is
  kept, though it is almost a year older than \<open>now\<close> shifted back one year.  With \<open>now\<close>
  read at 2025-01-01T00:00:00.000Z and the clock one millisecond later at the records,
  the record of the boundary instant 2024-01-01T00:00Z is dropped.
\<close>

theorem relative_years_clock_read_again:
  "filterHistory (runtime_enUS 0) ''1y'' None None 1735689599999 (\<lambda>i. 1735689600000)
     [mk_item ''USA'' 9 (Some 1672531200000), mk_item ''USA'' 3 (Some 1717200000000),
      mk_item ''USA'' 5 (Some 1704067200000)]
   = [mk_item ''USA'' 9 (Some 1672531200000), mk_item ''USA'' 3 (Some 1717200000000),
      mk_item ''USA'' 5 (Some 1704067200000)]
   \<and> relativeYears (runtime_enUS 0) 1 1735689599999
        [mk_item ''USA'' 9 (Some 1672531200000), mk_item ''USA'' 3 (Some 1717200000000),
         mk_item ''USA'' 5 (Some 1704067200000)]
      = [mk_item ''USA'' 3 (Some 1717200000000), mk_item ''USA'' 5 (Some 1704067200000)]
   \<and> filterHistory (runtime_enUS 0) ''1y'' None None 1735689600000 (\<lambda>i. 1735689600001)
        [mk_item ''USA'' 9 (Some 1672531200000), mk_item ''USA'' 3 (Some 1717200000000),
         mk_item ''USA'' 5 (Some 1704067200000)]
      = [mk_item ''USA'' 3 (Some 1717200000000)]
   \<and> relativeYears (runtime_enUS 0) 1 1735689600000
        [mk_item ''USA'' 9 (Some 1672531200000), mk_item ''USA'' 3 (Some 1717200000000),
         mk_item ''USA'' 5 (Some 1704067200000)]
      = [mk_item ''USA'' 3 (Some 1717200000000), mk_item ''USA'' 5 (Some 1704067200000)]"
proof (intro conjI)
  show "filterHistory (runtime_enUS 0) ''1y'' None None 1735689599999 (\<lambda>i. 1735689600000)
     [mk_item ''USA'' 9 (Some 1672531200000), mk_item ''USA'' 3 (Some 1717200000000),
      mk_item ''USA'' 5 (Some 1704067200000)]
   = [mk_item ''USA'' 9 (Some 1672531200000), mk_item ''USA'' 3 (Some 1717200000000),
      mk_item ''USA'' 5 (Some 1704067200000)]"
    unfolding one_year [symmetric] filterHistory_same_clock
    by (simp add: inTimeRange_years scenario_year scenario_setFullYear)
  show "filterHistory (runtime_enUS 0) ''1y'' None None 1735689600000 (\<lambda>i. 1735689600001)
        [mk_item ''USA'' 9 (Some 1672531200000), mk_item ''USA'' 3 (Some 1717200000000),
         mk_item ''USA'' 5 (Some 1704067200000)]
      = [mk_item ''USA'' 3 (Some 1717200000000)]"
    unfolding one_year [symmetric] filterHistory_same_clock
    by (simp add: inTimeRange_years scenario_year scenario_setFullYear)
  show "relativeYears (runtime_enUS 0) 1 1735689599999
        [mk_item ''USA'' 9 (Some 1672531200000), mk_item ''USA'' 3 (Some 1717200000000),
         mk_item ''USA'' 5 (Some 1704067200000)]
      = [mk_item ''USA'' 3 (Some 1717200000000), mk_item ''USA'' 5 (Some 1704067200000)]"
    by (simp add: relativeYears_def scenario_cutoff)
  show "relativeYears (runtime_enUS 0) 1 1735689600000
        [mk_item ''USA'' 9 (Some 1672531200000), mk_item ''USA'' 3 (Some 1717200000000),
         mk_item ''USA'' 5 (Some 1704067200000)]
      = [mk_item ''USA'' 3 (Some 1717200000000), mk_item ''USA'' 5 (Some 1704067200000)]"
    by (simp add: relativeYears_def scenario_cutoff)
qed

section \<open>The route's three outcomes\<close>

text \<open>
  C10, as stated, at a request whose \<open>countryCode\<close> parameter is present but empty
  (\<open>?countryCode=\<close>) and an upstream that answers 200 with a JSON payload: the claim's
  "otherwise" branch promises the payload, the handler answers 400.
\<close>

theorem GET_empty_countryCode_counterexample:
  "countryCodeParam \<lparr>countryCodeParam = Some [], genderParam = None, footballTypeParam = None\<rparr> \<noteq> None
   \<and> GET (\<lambda>u. Response 200 (Some (7::nat)))
        \<lparr>countryCodeParam = Some [], genderParam = None, footballTypeParam = None\<rparr>
      = (\<lparr>status = 400, body = ErrorObj ''Country code is required''\<rparr>, [])"
  by (simp add: GET_def falsy_param_def json_error_def)

text \<open>
  C10, amended: a \<open>countryCode\<close> that is absent or empty gives 400 and no upstream call;
  otherwise exactly one URL is fetched, built from the country code, the gender
  (\<open>1\<close> when absent or empty) and the football type (\<open>football\<close> when absent or empty);
  a rejected fetch, a status outside 200..299 or a body that is not JSON gives 500 with
  \<open>Failed to fetch data\<close>, and in the remaining case the upstream payload is returned
  unchanged with status 200.
\<close>

theorem GET_outcomes:
  "GET provider req =
     (if countryCodeParam req = None \<or> countryCodeParam req = Some []
      then (\<lparr>status = 400, body = ErrorObj ''Country code is required''\<rparr>, [])
      else
        (let url = fifaUrl (or_default (genderParam req) ''1'') (the (countryCodeParam req))
                     (or_default (footballTypeParam req) ''football'')
         in case provider url of
              Response st (Some payload) \<Rightarrow>
                if 200 \<le> st \<and> st \<le> 299 then (\<lparr>status = 200, body = Payload payload\<rparr>, [url])
                else (\<lparr>status = 500, body = ErrorObj ''Failed to fetch data''\<rparr>, [url])
            | _ \<Rightarrow> (\<lparr>status = 500, body = ErrorObj ''Failed to fetch data''\<rparr>, [url])))
   \<and> or_default None ''1'' = ''1'' \<and> or_default None ''football'' = ''football''"
  by (cases "countryCodeParam req")
     (auto simp: GET_def falsy_param_def json_error_def response_ok_def or_default_def Let_def
           split: upstream.splits option.splits)

theorem GET_outcomes_witness:
  "GET (\<lambda>u. if u = ''https://inside.fifa.com/api/rankings/by-country?gender=1&countryCode=BRA&footballType=football&locale=en''
            then Response 200 (Some (7::nat)) else FetchThrows)
       \<lparr>countryCodeParam = Some ''BRA'', genderParam = None, footballTypeParam = None\<rparr>
     = (\<lparr>status = 200, body = Payload 7\<rparr>,
        [''https://inside.fifa.com/api/rankings/by-country?gender=1&countryCode=BRA&footballType=football&locale=en''])"
  using GET_outcomes [of "\<lambda>u. if u = ''https://inside.fifa.com/api/rankings/by-country?gender=1&countryCode=BRA&footballType=football&locale=en''
            then Response 200 (Some (7::nat)) else FetchThrows"
       "\<lparr>countryCodeParam = Some ''BRA'', genderParam = None, footballTypeParam = None\<rparr>"]
  by (simp add: fifaUrl_def or_default_def)

end
